(* ===== verification/Prelude.thy ===== *)
theory Prelude
  imports Main "HOL-Library.Word"
begin

text \<open>
  Shared vocabulary of the development: the C character and string functions the sources call
  (isspace, isdigit, tolower, strncasecmp, strtol, strtoul, snprintf), the memory a
  \<^verbatim>\<open>const char*\<close> points into, the scanning loops of the parsers, and the result type
  of the parsing routines.

  A pointer into a buffer is the list of the bytes from that pointer to the end of its
  allocation. Reading past the end of the list is undefined behaviour in C++; the model returns
  None (or the constructor Fault of the type below) there, so that the absence of such reads is
  something to prove.
\<close>

section \<open>Characters and C strings\<close>

abbreviation NUL :: char where "NUL \<equiv> CHR 0x00"
abbreviation CR :: char where "CR \<equiv> CHR 0x0D"
abbreviation LF :: char where "LF \<equiv> CHR 0x0A"
abbreviation SP :: char where "SP \<equiv> CHR '' ''"

definition isspace :: "char \<Rightarrow> bool" where
  "isspace c \<longleftrightarrow> of_char c = (32::nat) \<or> (9 \<le> (of_char c :: nat) \<and> (of_char c :: nat) \<le> 13)"

definition isdigit :: "char \<Rightarrow> bool" where
  "isdigit c \<longleftrightarrow> 48 \<le> (of_char c :: nat) \<and> (of_char c :: nat) \<le> 57"

definition tolower :: "char \<Rightarrow> char" where
  "tolower c = (if 65 \<le> (of_char c :: nat) \<and> (of_char c :: nat) \<le> 90
                then char_of ((of_char c :: nat) + 32) else c)"

text \<open>The C string at a pointer: the bytes before the first NUL.\<close>

definition c_str :: "string \<Rightarrow> string" where
  "c_str s = takeWhile (\<lambda>c. c \<noteq> NUL) s"

abbreviation no_nul :: "string \<Rightarrow> bool" where
  "no_nul s \<equiv> NUL \<notin> set s"

text \<open>\<^verbatim>\<open>strncasecmp(a, b, n) == 0\<close>.\<close>

definition strncaseeq :: "string \<Rightarrow> string \<Rightarrow> nat \<Rightarrow> bool" where
  "strncaseeq a b n \<longleftrightarrow> map tolower (take n (c_str a)) = map tolower (take n (c_str b))"

text \<open>
  The comparison the sources use for header names: equal \<^verbatim>\<open>strlen\<close>, then
  \<^verbatim>\<open>strncasecmp\<close> over that length.
\<close>

definition same_name :: "string \<Rightarrow> string \<Rightarrow> bool" where
  "same_name a b \<longleftrightarrow> length (c_str a) = length (c_str b) \<and> strncaseeq a b (length (c_str b))"

lemma c_str_id [simp]: "no_nul s \<Longrightarrow> c_str s = s"
  by (simp add: c_str_def takeWhile_eq_all_conv) metis

lemma c_str_no_nul [simp]: "no_nul (c_str s)"
  by (auto simp: c_str_def dest: set_takeWhileD)

lemma c_str_Nil [simp]: "c_str [] = []"
  by (simp add: c_str_def)

lemma c_str_NUL [simp]: "c_str (NUL # s) = []"
  by (simp add: c_str_def)

lemma c_str_Cons: "c \<noteq> NUL \<Longrightarrow> c_str (c # s) = c # c_str s"
  by (simp add: c_str_def)

lemma length_c_str_le: "length (c_str s) \<le> length s"
  by (simp add: c_str_def length_takeWhile_le)

lemma set_c_str_subset: "set (c_str s) \<subseteq> set s"
  by (auto simp: c_str_def dest: set_takeWhileD)

lemma c_str_append_no_nul: "no_nul s \<Longrightarrow> c_str (s @ t) = s @ c_str t"
  by (induction s) (auto simp: c_str_def)

lemma c_str_take_no_nul [simp]: "no_nul s \<Longrightarrow> c_str (take n s) = take n s"
  by (meson c_str_id in_set_takeD)

lemma no_nul_take [simp]: "no_nul s \<Longrightarrow> no_nul (take n s)"
  by (meson in_set_takeD)

lemma same_name_refl [simp]: "same_name a a"
  by (simp add: same_name_def strncaseeq_def)

lemma same_name_iff:
  "same_name a b \<longleftrightarrow> map tolower (c_str a) = map tolower (c_str b)"
proof
  assume "same_name a b"
  then have "length (c_str a) = length (c_str b)"
    and "map tolower (take (length (c_str b)) (c_str a)) = map tolower (c_str b)"
    by (auto simp: same_name_def strncaseeq_def)
  then show "map tolower (c_str a) = map tolower (c_str b)"
    by simp
next
  assume h: "map tolower (c_str a) = map tolower (c_str b)"
  then have "length (c_str a) = length (c_str b)"
    by (metis length_map)
  with h show "same_name a b"
    by (simp add: same_name_def strncaseeq_def)
qed

lemma same_name_sym: "same_name a b \<longleftrightarrow> same_name b a"
  by (auto simp: same_name_iff)

lemma same_name_trans: "same_name a b \<Longrightarrow> same_name b c \<Longrightarrow> same_name a c"
  by (simp add: same_name_iff)

section \<open>Bounded printing\<close>

text \<open>
  \<^verbatim>\<open>snprintf(s + strlen(s), cap - strlen(s), ...)\<close> appends to the C string s held in
  a buffer of cap bytes and truncates so that the terminating NUL still fits. The sources keep
  such buffers in a \<^verbatim>\<open>std::string\<close> of exactly cap bytes, filled with NULs; zfill is
  that string.
\<close>

definition sn_append :: "nat \<Rightarrow> string \<Rightarrow> string \<Rightarrow> string" where
  "sn_append cap s t = take (cap - 1) (s @ t)"

definition zfill :: "nat \<Rightarrow> string \<Rightarrow> string" where
  "zfill cap s = s @ replicate (cap - length s) NUL"

lemma length_sn_append: "length (sn_append cap s t) \<le> cap - 1"
  by (simp add: sn_append_def)

lemma sn_append_sn_append:
  "sn_append cap (take (cap - 1) s) t = take (cap - 1) (s @ t)"
  by (cases "length s \<le> cap - 1") (auto simp: sn_append_def)

lemma sn_append_take [simp]:
  "sn_append cap (take (cap - Suc 0) s) t = take (cap - Suc 0) (s @ t)"
  using sn_append_sn_append[of cap s t] by simp

lemma sn_append_fits: "length s + length t < cap \<Longrightarrow> sn_append cap s t = s @ t"
  by (simp add: sn_append_def)

lemma no_nul_sn_append: "no_nul s \<Longrightarrow> no_nul t \<Longrightarrow> no_nul (sn_append cap s t)"
  by (auto simp: sn_append_def dest: in_set_takeD)

lemma c_str_zfill [simp]: "no_nul s \<Longrightarrow> c_str (zfill cap s) = s"
  by (cases "cap - length s") (simp_all add: zfill_def c_str_append_no_nul)

lemma length_zfill [simp]: "length s \<le> cap \<Longrightarrow> length (zfill cap s) = cap"
  by (simp add: zfill_def)

text \<open>A sequence of such appends to an empty buffer.\<close>

definition sn_print :: "nat \<Rightarrow> string list \<Rightarrow> string" where
  "sn_print cap ps = foldl (sn_append cap) [] ps"

lemma foldl_sn_append:
  "foldl (sn_append cap) (take (cap - 1) s) ps = take (cap - 1) (s @ concat ps)"
proof (induction ps arbitrary: s)
  case Nil
  then show ?case by simp
next
  case (Cons p ps)
  have "foldl (sn_append cap) (take (cap - 1) s) (p # ps)
      = foldl (sn_append cap) (take (cap - 1) (s @ p)) ps"
    by (simp only: foldl.simps sn_append_sn_append)
  also have "\<dots> = take (cap - 1) ((s @ p) @ concat ps)" by (rule Cons.IH)
  finally show ?case by (simp del: take_append)
qed

lemma sn_print_concat: "sn_print cap ps = take (cap - 1) (concat ps)"
  using foldl_sn_append[of cap "[]" ps] by (simp add: sn_print_def)

lemma no_nul_sn_print: "\<forall>p\<in>set ps. no_nul p \<Longrightarrow> no_nul (sn_print cap ps)"
  by (auto simp: sn_print_concat dest!: in_set_takeD)

section \<open>Decimal and hexadecimal numbers\<close>

definition digit_char :: "nat \<Rightarrow> char" where
  "digit_char d = char_of (48 + d)"

lemma digit_char_simps [simp]:
  "digit_char 0 = CHR ''0''" "digit_char 1 = CHR ''1''" "digit_char (Suc 0) = CHR ''1''" "digit_char 2 = CHR ''2''"
  "digit_char 3 = CHR ''3''" "digit_char 4 = CHR ''4''" "digit_char 5 = CHR ''5''" "digit_char 6 = CHR ''6''"
  "digit_char 7 = CHR ''7''" "digit_char 8 = CHR ''8''" "digit_char 9 = CHR ''9''"
  by (simp_all add: digit_char_def char_of_def bit_0)

fun show_nat :: "nat \<Rightarrow> string" where
  "show_nat n = (if n < 10 then [digit_char n] else show_nat (n div 10) @ [digit_char (n mod 10)])"

declare show_nat.simps [simp del]

definition show_int :: "int \<Rightarrow> string" where
  "show_int i = (if i < 0 then CHR ''-'' # show_nat (nat (- i)) else show_nat (nat i))"

definition digit_of :: "nat \<Rightarrow> char \<Rightarrow> nat option" where
  "digit_of base c = (let k = (of_char c :: nat);
      d = (if 48 \<le> k \<and> k \<le> 57 then k - 48
           else if 65 \<le> k \<and> k \<le> 90 then k - 55
           else if 97 \<le> k \<and> k \<le> 122 then k - 87 else 99)
    in if d < base then Some d else None)"

fun num_val :: "nat \<Rightarrow> nat \<Rightarrow> string \<Rightarrow> nat" where
  "num_val base acc [] = acc"
| "num_val base acc (c # cs) =
     (case digit_of base c of None \<Rightarrow> acc | Some d \<Rightarrow> num_val base (acc * base + d) cs)"

text \<open>
  \<^verbatim>\<open>strtol(s, NULL, base)\<close> for the bases 10 and 16: leading white space, a sign,
  an optional 0x for base 16, digits, and saturation at the 64-bit limits.
\<close>

definition split_sign :: "string \<Rightarrow> bool \<times> string" where
  "split_sign s = (case s of
      [] \<Rightarrow> (False, [])
    | c # cs \<Rightarrow> if c = CHR ''-'' then (True, cs) else if c = CHR ''+'' then (False, cs) else (False, s))"

definition strip_0x :: "nat \<Rightarrow> string \<Rightarrow> string" where
  "strip_0x base s = (case s of
      z # x # d # cs \<Rightarrow>
        if base = 16 \<and> z = CHR ''0'' \<and> tolower x = CHR ''x'' \<and> digit_of 16 d \<noteq> None
        then d # cs else s
    | _ \<Rightarrow> s)"

definition LONG_MAX :: int where "LONG_MAX = 2 ^ 63 - 1"
definition LONG_MIN :: int where "LONG_MIN = - (2 ^ 63)"

definition strtol :: "nat \<Rightarrow> string \<Rightarrow> int" where
  "strtol base s = (let (neg, t) = split_sign (dropWhile isspace (c_str s));
       m = int (num_val base 0 (strip_0x base t))
     in max LONG_MIN (min LONG_MAX (if neg then - m else m)))"

definition strtoul10 :: "string \<Rightarrow> nat" where
  "strtoul10 s = (let (neg, t) = split_sign (dropWhile isspace (c_str s));
       m = num_val 10 0 t
     in if m \<ge> 2 ^ 64 then 2 ^ 64 - 1 else if neg then (2 ^ 64 - m) mod 2 ^ 64 else m)"

text \<open>Conversion of a long to int, and of a long to size_t.\<close>

definition to_int :: "int \<Rightarrow> int" where
  "to_int x = signed_take_bit 31 x"

definition to_size_t :: "int \<Rightarrow> nat" where
  "to_size_t x = nat (x mod 2 ^ 64)"

definition to_ssize_t :: "nat \<Rightarrow> int" where
  "to_ssize_t x = signed_take_bit 63 (int x)"

lemma to_int_id: "- (2 ^ 31) \<le> x \<Longrightarrow> x < 2 ^ 31 \<Longrightarrow> to_int x = x"
  by (simp add: to_int_def signed_take_bit_int_eq_self)

lemma of_char_digit_char [simp]: "d < 10 \<Longrightarrow> of_char (digit_char d) = (48 + d :: nat)"
  by (simp add: digit_char_def)

lemma isdigit_digit_char [simp]: "d < 10 \<Longrightarrow> isdigit (digit_char d)"
  by (simp add: isdigit_def)

lemma digit_of_digit_char [simp]: "d < 10 \<Longrightarrow> digit_of 10 (digit_char d) = Some d"
  by (simp add: digit_of_def Let_def)

lemma isdigit_digit_of: "isdigit c \<longleftrightarrow> digit_of 10 c \<noteq> None"
  by (auto simp: isdigit_def digit_of_def Let_def split: if_splits)

lemma show_nat_digits: "\<forall>c\<in>set (show_nat n). isdigit c"
proof (induction n rule: show_nat.induct)
  case (1 n)
  then show ?case by (subst show_nat.simps) (auto simp: show_nat.simps[of "n div 10"])
qed

lemma show_nat_nonempty [simp]: "show_nat n \<noteq> []"
  by (subst show_nat.simps) simp

lemma num_val_append:
  "\<forall>c\<in>set s. isdigit c \<Longrightarrow> num_val 10 a (s @ t) = num_val 10 (num_val 10 a s) t"
  by (induction s arbitrary: a) (auto simp: isdigit_digit_of)

lemma num_val_show_nat [simp]: "num_val 10 0 (show_nat n) = n"
proof (induction n rule: show_nat.induct)
  case (1 n)
  show ?case
  proof (cases "n < 10")
    case True
    then show ?thesis by (simp add: show_nat.simps[of n])
  next
    case False
    have "num_val 10 0 (show_nat n) = num_val 10 (num_val 10 0 (show_nat (n div 10))) [digit_char (n mod 10)]"
      using False show_nat_digits[of "n div 10"]
      by (simp add: show_nat.simps[of n] num_val_append del: num_val.simps)
    also have "\<dots> = n"
      using 1 False by simp
    finally show ?thesis .
  qed
qed

lemma isdigit_not_space: "isdigit c \<Longrightarrow> \<not> isspace c"
  by (auto simp: isdigit_def isspace_def)

lemma isdigit_not_sign: "isdigit c \<Longrightarrow> c \<noteq> CHR ''-'' \<and> c \<noteq> CHR ''+'' \<and> c \<noteq> NUL"
  by (auto simp: isdigit_def)

lemma no_nul_digits: "\<forall>c\<in>set s. isdigit c \<Longrightarrow> no_nul s"
  by (auto dest: isdigit_not_sign)

lemma no_nul_show_nat [simp]: "no_nul (show_nat n)"
  by (rule no_nul_digits[OF show_nat_digits])

lemma no_nul_show_int [simp]: "no_nul (show_int i)"
  by (simp add: show_int_def)

lemma split_sign_digits:
  assumes "\<forall>c\<in>set s. isdigit c"
  shows "split_sign (dropWhile isspace (c_str s)) = (False, s)"
proof (cases s)
  case Nil
  then show ?thesis by (simp add: split_sign_def)
next
  case (Cons c cs)
  with assms have c: "isdigit c" by simp
  have "c_str s = s" using no_nul_digits[OF assms] by simp
  with Cons c show ?thesis
    using isdigit_not_space[OF c] isdigit_not_sign[OF c] by (simp add: split_sign_def)
qed

lemma strtol10_digits:
  assumes "\<forall>c\<in>set s. isdigit c"
  shows "strtol 10 s = min LONG_MAX (int (num_val 10 0 s))"
proof -
  have "strip_0x 10 s = s" by (auto simp: strip_0x_def split: list.splits)
  with split_sign_digits[OF assms] show ?thesis
    by (simp add: strtol_def LONG_MAX_def LONG_MIN_def)
qed

lemma strtol_show_nat: "int n \<le> LONG_MAX \<Longrightarrow> strtol 10 (show_nat n) = int n"
  by (simp add: strtol10_digits[OF show_nat_digits])

lemma strtoul10_digits:
  assumes "\<forall>c\<in>set s. isdigit c"
  shows "strtoul10 s = (if num_val 10 0 s \<ge> 2 ^ 64 then 2 ^ 64 - 1 else num_val 10 0 s)"
  by (simp add: strtoul10_def split_sign_digits[OF assms])

section \<open>Memory and scanning loops\<close>

text \<open>
  The loops \<^verbatim>\<open>while (n > 0 && p(*buf_ptr)) { *ptr++ = *buf_ptr++; n--; }\<close> of the
  parsers: the bytes consumed, the pointer afterwards and the count left. None when the loop
  reads past the end of the allocation.
\<close>

fun scan :: "(char \<Rightarrow> bool) \<Rightarrow> string \<Rightarrow> nat \<Rightarrow> (string \<times> string \<times> nat) option" where
  "scan p mem 0 = Some ([], mem, 0)"
| "scan p [] (Suc n) = None"
| "scan p (c # mem) (Suc n) =
     (if p c then map_option (\<lambda>(w, r). (c # w, r)) (scan p mem n) else Some ([], c # mem, Suc n))"

lemma scan_eq:
  "n \<le> length mem \<Longrightarrow>
   scan p mem n = Some (takeWhile p (take n mem), drop (length (takeWhile p (take n mem))) mem,
                        n - length (takeWhile p (take n mem)))"
  by (induction p mem n rule: scan.induct) auto

lemma scan_SomeD:
  "scan p mem n = Some (w, mem', n') \<Longrightarrow>
   mem = w @ mem' \<and> n = length w + n' \<and> (\<forall>c\<in>set w. p c)
   \<and> (0 < n' \<longrightarrow> mem' \<noteq> [] \<and> \<not> p (hd mem'))"
  by (induction p mem n arbitrary: w mem' n' rule: scan.induct) (auto split: if_splits)

lemma scan_total: "n \<le> length mem \<Longrightarrow> \<exists>w mem' n'. scan p mem n = Some (w, mem', n') \<and> n' \<le> length mem'"
proof -
  assume n: "n \<le> length mem"
  have "n - length (takeWhile p (take n mem)) \<le> length mem - length (takeWhile p (take n mem))"
    using n by simp
  then show ?thesis using scan_eq[OF n] by simp
qed

lemma scan_stop:
  "\<lbrakk>\<forall>c\<in>set w. p c; \<not> p d; n = length w + m; 0 < m\<rbrakk> \<Longrightarrow> scan p (w @ d # mem) n = Some (w, d # mem, m)"
proof (induction w arbitrary: n)
  case Nil
  then show ?case by (cases m) auto
next
  case (Cons c w)
  then show ?case by simp
qed

text \<open>The stack buffers the loops copy into hold cap bytes; storing past them is undefined.\<close>

definition terminate_at :: "nat \<Rightarrow> string \<Rightarrow> string option" where
  "terminate_at cap w = (if length w < cap then Some (c_str w) else None)"

text \<open>
  \<^verbatim>\<open>%s\<close> of a pointer, strlen and strchr read up to the first NUL; None when the
  allocation holds none.
\<close>

definition read_cstr :: "string \<Rightarrow> string option" where
  "read_cstr mem = (if NUL \<in> set mem then Some (c_str mem) else None)"

text \<open>The scanning loop when it copies into a stack buffer of cap bytes.\<close>

definition copy_while :: "nat \<Rightarrow> (char \<Rightarrow> bool) \<Rightarrow> string \<Rightarrow> nat \<Rightarrow> (string \<times> string \<times> nat) option" where
  "copy_while cap p mem n = (case scan p mem n of
      Some (w, mem', n') \<Rightarrow> if length w \<le> cap then Some (w, mem', n') else None
    | None \<Rightarrow> None)"

lemma copy_while_SomeD:
  "copy_while cap p mem n = Some (w, mem', n') \<Longrightarrow>
   mem = w @ mem' \<and> n = length w + n' \<and> (\<forall>c\<in>set w. p c) \<and> length w \<le> cap
   \<and> (0 < n' \<longrightarrow> mem' \<noteq> [] \<and> \<not> p (hd mem'))"
  by (auto simp: copy_while_def dest: scan_SomeD split: option.splits if_splits)

lemma copy_while_total:
  assumes "n \<le> length mem" "n \<le> cap"
  obtains w mem' n' where "copy_while cap p mem n = Some (w, mem', n')" "n = length w + n'"
    "n' \<le> length mem'" "mem = w @ mem'" "\<forall>c\<in>set w. p c" "length w \<le> cap"
    "0 < n' \<longrightarrow> mem' \<noteq> [] \<and> \<not> p (hd mem')"
proof -
  obtain w mem' n' where s: "scan p mem n = Some (w, mem', n')" "n' \<le> length mem'"
    using scan_total[OF assms(1)] by blast
  note d = scan_SomeD[OF s(1)]
  have l: "length w \<le> cap" using d assms(2) by simp
  then have "copy_while cap p mem n = Some (w, mem', n')" using s(1) by (simp add: copy_while_def)
  then show ?thesis using that d s(2) l by blast
qed

lemma copy_while_stop:
  "\<lbrakk>\<forall>c\<in>set w. p c; \<not> p d; length w \<le> cap; 0 < m\<rbrakk> \<Longrightarrow>
   copy_while cap p (w @ d # mem) (length w + m) = Some (w, d # mem, m)"
  by (simp add: copy_while_def scan_stop)

lemma scan_all: "\<forall>c\<in>set w. p c \<Longrightarrow> scan p (w @ mem) (length w) = Some (w, mem, 0)"
  by (induction w) auto

lemma copy_while_all:
  "\<lbrakk>\<forall>c\<in>set w. p c; length w \<le> cap\<rbrakk> \<Longrightarrow>
   copy_while cap p (w @ mem) (length w) = Some (w, mem, 0)"
  by (simp add: copy_while_def scan_all)

lemma scan_le: "scan p mem n = Some (w, mem', n') \<Longrightarrow> n' \<le> n"
  using scan_SomeD by fastforce

lemma copy_while_le: "copy_while cap p mem n = Some (w, mem', n') \<Longrightarrow> n' \<le> n"
  using copy_while_SomeD by fastforce

text \<open>The loop on a word followed by a byte that stops it, or by the end of the count.\<close>

lemma copy_while_until:
  assumes "\<forall>c\<in>set w. p c" "m = 0 \<or> rest \<noteq> [] \<and> \<not> p (hd rest)" "length w \<le> cap"
  shows "copy_while cap p (w @ rest) (length w + m) = Some (w, rest, m)"
proof (cases "m = 0")
  case True
  with assms show ?thesis by (simp add: copy_while_all)
next
  case False
  with assms(2) obtain d r where "rest = d # r" "\<not> p d" by (cases rest) auto
  with False assms show ?thesis by (simp add: copy_while_stop)
qed

lemma terminate_at_id [simp]: "length w < cap \<Longrightarrow> terminate_at cap w = Some (c_str w)"
  by (simp add: terminate_at_def)

section \<open>Results of the parsing routines\<close>

text \<open>
  A parsing routine works on an object of type 's. It ends with Stop (it returned false or 0,
  either for lack of data or after recording an error in the object's error handler), continues
  with Go, or has undefined behaviour: Fault.
\<close>

datatype ('s, 'a) run = Fault | Stop 's | Go 's 'a

fun bind_run :: "('s, 'a) run \<Rightarrow> ('s \<Rightarrow> 'a \<Rightarrow> ('s, 'b) run) \<Rightarrow> ('s, 'b) run" where
  "bind_run Fault f = Fault"
| "bind_run (Stop s) f = Stop s"
| "bind_run (Go s a) f = f s a"

fun lift_opt :: "'s \<Rightarrow> 'a option \<Rightarrow> ('s, 'a) run" where
  "lift_opt s None = Fault"
| "lift_opt s (Some a) = Go s a"

lemma bind_run_Go: "bind_run r f = Go s b \<longleftrightarrow> (\<exists>t a. r = Go t a \<and> f t a = Go s b)"
  by (cases r) auto

lemma bind_run_no_fault:
  "r \<noteq> Fault \<Longrightarrow> (\<And>s a. r = Go s a \<Longrightarrow> f s a \<noteq> Fault) \<Longrightarrow> bind_run r f \<noteq> Fault"
  by (cases r) auto

text \<open>
  Two predicates on a result, with a rule for the sequencing: goes r Q says that Q holds where r
  continues, safe r Q that r has no undefined behaviour in addition.
\<close>

definition goes :: "('s, 'a) run \<Rightarrow> ('s \<Rightarrow> 'a \<Rightarrow> bool) \<Rightarrow> bool" where
  "goes r Q \<longleftrightarrow> (\<forall>t a. r = Go t a \<longrightarrow> Q t a)"

definition safe :: "('s, 'a) run \<Rightarrow> ('s \<Rightarrow> 'a \<Rightarrow> bool) \<Rightarrow> bool" where
  "safe r Q \<longleftrightarrow> r \<noteq> Fault \<and> goes r Q"

named_theorems goes_intro "rules that establish goes for a step of a parser"
named_theorems safe_intro "rules that establish safe for a step of a parser"

lemma goes_simps [simp]: "goes Fault Q" "goes (Stop s) Q" "goes (Go t a) Q \<longleftrightarrow> Q t a"
  by (auto simp: goes_def)

lemma safe_simps [simp]: "\<not> safe Fault Q" "safe (Stop s) Q" "safe (Go t a) Q \<longleftrightarrow> Q t a"
  by (auto simp: safe_def)

lemma goes_bind [goes_intro]: "goes r (\<lambda>t a. goes (f t a) Q) \<Longrightarrow> goes (bind_run r f) Q"
  by (cases r) auto

lemma safe_bind [safe_intro]: "safe r (\<lambda>t a. safe (f t a) Q) \<Longrightarrow> safe (bind_run r f) Q"
  by (cases r) auto

lemma goes_mono: "goes r R \<Longrightarrow> (\<And>t a. R t a \<Longrightarrow> Q t a) \<Longrightarrow> goes r Q"
  by (auto simp: goes_def)

lemma safe_mono: "safe r R \<Longrightarrow> (\<And>t a. R t a \<Longrightarrow> Q t a) \<Longrightarrow> safe r Q"
  by (auto simp: goes_def safe_def)

lemma safe_goes: "safe r Q \<Longrightarrow> goes r Q"
  by (simp add: safe_def)

lemma goesD: "goes r Q \<Longrightarrow> r = Go t a \<Longrightarrow> Q t a"
  by (simp add: goes_def)

lemma safe_no_fault: "safe r Q \<Longrightarrow> r \<noteq> Fault"
  by (simp add: safe_def)

text \<open>Two routines in sequence, each passing its position to the next.\<close>

definition seq_run :: "('s \<Rightarrow> 'a \<Rightarrow> ('s, 'b) run) \<Rightarrow> ('s \<Rightarrow> 'b \<Rightarrow> ('s, 'c) run) \<Rightarrow> 's \<Rightarrow> 'a \<Rightarrow> ('s, 'c) run" where
  "seq_run f g s a = bind_run (f s a) g"

text \<open>
  runs_ok P f Q: started where P holds, f has no undefined behaviour, and where it continues Q
  holds.
\<close>

definition runs_ok :: "('s \<Rightarrow> 'a \<Rightarrow> bool) \<Rightarrow> ('s \<Rightarrow> 'a \<Rightarrow> ('s, 'b) run) \<Rightarrow> ('s \<Rightarrow> 'b \<Rightarrow> bool) \<Rightarrow> bool" where
  "runs_ok P f Q \<longleftrightarrow> (\<forall>s a. P s a \<longrightarrow> (case f s a of Fault \<Rightarrow> False | Stop _ \<Rightarrow> True | Go t b \<Rightarrow> Q t b))"

lemma runs_okI:
  "(\<And>s a. P s a \<Longrightarrow> (case f s a of Fault \<Rightarrow> False | Stop _ \<Rightarrow> True | Go t b \<Rightarrow> Q t b)) \<Longrightarrow> runs_ok P f Q"
  by (simp add: runs_ok_def)

lemma runs_ok_seq: "runs_ok P f Q \<Longrightarrow> runs_ok Q g R \<Longrightarrow> runs_ok P (seq_run f g) R"
proof (rule runs_okI)
  fix s a
  assume h: "runs_ok P f Q" "runs_ok Q g R" and p: "P s a"
  have f: "case f s a of Fault \<Rightarrow> False | Stop _ \<Rightarrow> True | Go t b \<Rightarrow> Q t b"
    using h(1) p unfolding runs_ok_def by blast
  show "case seq_run f g s a of Fault \<Rightarrow> False | Stop _ \<Rightarrow> True | Go t b \<Rightarrow> R t b"
  proof (cases "f s a")
    case (Go t b)
    with f h(2) show ?thesis unfolding runs_ok_def seq_run_def by simp
  qed (use f in \<open>simp_all add: seq_run_def\<close>)
qed

lemma runs_ok_iff:
  "runs_ok P f Q \<longleftrightarrow> (\<forall>s a. P s a \<longrightarrow> f s a \<noteq> Fault \<and> (\<forall>t b. f s a = Go t b \<longrightarrow> Q t b))"
proof -
  have "(case r of Fault \<Rightarrow> False | Stop _ \<Rightarrow> True | Go t b \<Rightarrow> Q t b) \<longleftrightarrow>
        r \<noteq> Fault \<and> (\<forall>t b. r = Go t b \<longrightarrow> Q t b)" for r
    by (cases r) simp_all
  then show ?thesis by (simp add: runs_ok_def)
qed

lemma runs_ok_weaken: "runs_ok P f Q \<Longrightarrow> (\<And>s b. Q s b \<Longrightarrow> R s b) \<Longrightarrow> runs_ok P f R"
  unfolding runs_ok_iff by blast

lemma runs_ok_no_fault: "runs_ok P f Q \<Longrightarrow> P s a \<Longrightarrow> f s a \<noteq> Fault"
  unfolding runs_ok_iff by blast

lemma runs_ok_Go: "runs_ok P f Q \<Longrightarrow> P s a \<Longrightarrow> f s a = Go t b \<Longrightarrow> Q t b"
  unfolding runs_ok_iff by blast

text \<open>Routines on a position, the memory at a pointer with the count left: the count only falls.\<close>

type_synonym pos = "string \<times> nat"

definition consumes :: "('s \<Rightarrow> pos \<Rightarrow> ('s, pos) run) \<Rightarrow> bool" where
  "consumes f \<longleftrightarrow> (\<forall>s m n t m' n'. f s (m, n) = Go t (m', n') \<longrightarrow> n' \<le> n)"

lemma consumesI: "(\<And>s m n t m' n'. f s (m, n) = Go t (m', n') \<Longrightarrow> n' \<le> n) \<Longrightarrow> consumes f"
  by (simp add: consumes_def)

lemma consumesD: "consumes f \<Longrightarrow> f s (m, n) = Go t (m', n') \<Longrightarrow> n' \<le> n"
  unfolding consumes_def by blast

lemma consumes_seq: "consumes f \<Longrightarrow> consumes g \<Longrightarrow> consumes (seq_run f g)"
proof (rule consumesI)
  fix s m n t m' n'
  assume c: "consumes f" "consumes g" and r: "seq_run f g s (m, n) = Go t (m', n')"
  from r obtain s1 m1 n1 where "f s (m, n) = Go s1 (m1, n1)" "g s1 (m1, n1) = Go t (m', n')"
    unfolding seq_run_def bind_run_Go by fastforce
  with c show "n' \<le> n" by (meson consumesD le_trans)
qed

text \<open>\<^verbatim>\<open>len - n\<close> in a size_t.\<close>

definition size_sub :: "nat \<Rightarrow> nat \<Rightarrow> nat" where
  "size_sub a b = (a + 2 ^ 64 - b) mod 2 ^ 64"

lemma size_sub_le: "b \<le> a \<Longrightarrow> size_sub a b \<le> a - b"
proof -
  assume "b \<le> a"
  then have "a + 2 ^ 64 - b = (a - b) + 2 ^ 64" by simp
  then have "size_sub a b = (a - b) mod 2 ^ 64" by (simp only: size_sub_def mod_add_self2)
  then show ?thesis by simp
qed

lemma size_sub_exact: "b \<le> a \<Longrightarrow> a < 2 ^ 64 \<Longrightarrow> size_sub a b = a - b"
proof -
  assume b: "b \<le> a" and a: "a < 2 ^ 64"
  then have "a + 2 ^ 64 - b = (a - b) + 2 ^ 64" by simp
  then have "size_sub a b = (a - b) mod 2 ^ 64" by (simp only: size_sub_def mod_add_self2)
  also have "\<dots> = a - b" using a by (intro mod_less) linarith
  finally show ?thesis .
qed

section \<open>The contract of the InitFromBuf routines\<close>

text \<open>
  A routine that consumes a prefix of the n bytes at a pointer and returns how many it used. Its
  callers subtract that number from the byte count they hold, a size_t.
\<close>

locale buf_parser =
  fixes parse :: "string \<Rightarrow> nat \<Rightarrow> 's \<Rightarrow> ('s, nat) run"
  assumes used_le: "parse mem n s = Go t k \<Longrightarrow> k \<le> n"
begin

lemma rest_no_wrap:
  assumes "parse mem n s = Go t k" "n < 2 ^ 64"
  shows "size_sub n k = n - k"
  using size_sub_exact[OF used_le[OF assms(1)] assms(2)] .

fun drain :: "nat \<Rightarrow> string \<Rightarrow> nat \<Rightarrow> 's \<Rightarrow> nat list" where
  "drain 0 mem n s = []"
| "drain (Suc fuel) mem n s =
     (case parse mem n s of Go t k \<Rightarrow> k # drain fuel (drop k mem) (n - k) t | _ \<Rightarrow> [])"

lemma drain_total: "sum_list (drain fuel mem n s) \<le> n"
proof (induction fuel mem n s rule: drain.induct)
  case (1 mem n s)
  then show ?case by simp
next
  case (2 fuel mem n s)
  show ?case
  proof (cases "parse mem n s")
    case (Go t k)
    then show ?thesis using 2[OF Go] used_le[OF Go] by simp
  qed simp_all
qed

end

end
