(* ===== verification/Error_Handler.thy ===== *)
theory Error_Handler
  imports Prelude
begin

text \<open>
  The global error object of the library (ErrorHandler.h, ErrorHandler.cc): its state, Init,
  AppendMsg, clear, the mutators and print. A message is stored as the C string that
  \<^verbatim>\<open>vsnprintf\<close> left in a 4096-byte buffer; the caller's format and arguments appear
  here as the text they expand to, None standing for a NULL or empty format.
\<close>

record errh =
  event_flag :: bool
  realm :: int
  sys_errno :: int
  msgs :: "string list"

definition EX_OK :: int where "EX_OK = 0"
definition EX_DATAERR :: int where "EX_DATAERR = 65"
definition EX_SOFTWARE :: int where "EX_SOFTWARE = 70"
definition EX_OSERR :: int where "EX_OSERR = 71"
definition EX_IOERR :: int where "EX_IOERR = 74"

definition EH_SCRATCH :: nat where "EH_SCRATCH = 4096"

definition null_msg :: string where "null_msg = ''Internal error: msg_ is NULL''"

definition ErrorHandler :: errh where
  "ErrorHandler = \<lparr>event_flag = False, realm = EX_OK, sys_errno = 0, msgs = []\<rparr>"

definition set_realm :: "int \<Rightarrow> errh \<Rightarrow> errh" where
  "set_realm r eh = eh\<lparr>realm := r\<rparr>"

definition set_sys_errno :: "int \<Rightarrow> errh \<Rightarrow> errh" where
  "set_sys_errno e eh = eh\<lparr>sys_errno := e\<rparr>"

text \<open>The text a format leaves in the message buffer.\<close>

definition msg_text :: "string option \<Rightarrow> string" where
  "msg_text fmt = (case fmt of
      Some t \<Rightarrow> take (EH_SCRATCH - 1) (c_str t)
    | None \<Rightarrow> take (EH_SCRATCH - 1) null_msg)"

definition error_Init :: "int \<Rightarrow> string option \<Rightarrow> errh \<Rightarrow> errh" where
  "error_Init r fmt eh =
     (let eh1 = (if event_flag eh
                 then eh\<lparr>msgs := msgs eh @ [''WARN: ErrorHandler::Init() event_flag alrady set: '']\<rparr>
                 else set_realm r eh)
      in eh1\<lparr>msgs := msgs eh1 @ [msg_text fmt], event_flag := True\<rparr>)"

definition error_AppendMsg :: "string option \<Rightarrow> errh \<Rightarrow> errh" where
  "error_AppendMsg fmt eh =
     (let eh1 = (if \<not> event_flag eh
                 then (set_realm EX_SOFTWARE
                        (eh\<lparr>msgs := msgs eh @ [''WARN: ErrorHandler::append_msg(): event_flag not set: '']\<rparr>))
                        \<lparr>event_flag := True\<rparr>
                 else eh)
      in eh1\<lparr>msgs := msgs eh1 @ [msg_text fmt]\<rparr>)"

definition error_clear :: "errh \<Rightarrow> errh" where
  "error_clear eh = eh\<lparr>event_flag := False, realm := EX_OK, sys_errno := 0, msgs := []\<rparr>"

text \<open>print walks the list, appending each message and \<^verbatim>\<open>": "\<close> between two.\<close>

fun print_msgs :: "string \<Rightarrow> string list \<Rightarrow> string" where
  "print_msgs acc [] = acc"
| "print_msgs acc [m] = sn_append EH_SCRATCH acc (c_str m)"
| "print_msgs acc (m # m' # ms) =
     print_msgs (sn_append EH_SCRATCH (sn_append EH_SCRATCH acc (c_str m)) '': '') (m' # ms)"

definition error_print :: "errh \<Rightarrow> string" where
  "error_print eh = zfill EH_SCRATCH (print_msgs [] (msgs eh))"

subsection \<open>The interface the other components use\<close>

lemma error_Init_event [simp]: "event_flag (error_Init r m e)"
  by (simp add: error_Init_def Let_def)

lemma error_Init_changes: "error_Init r m e \<noteq> e"
proof -
  have "length (msgs (error_Init r m e)) > length (msgs e)" by (simp add: error_Init_def Let_def set_realm_def)
  then show ?thesis by auto
qed

text \<open>
  Every routine of the library reports through this interface and tests event: a report sets
  the event, appending to it keeps it, and only a reset removes it.
\<close>

locale error_sink =
  fixes event :: "'e \<Rightarrow> bool"
    and report :: "'r \<Rightarrow> 'e \<Rightarrow> 'e"
    and append_note :: "'m \<Rightarrow> 'e \<Rightarrow> 'e"
    and entries :: "'e \<Rightarrow> 'm list"
    and text_of :: "'r \<Rightarrow> 'm"
    and stored :: "'m \<Rightarrow> 'm"
  assumes event_report: "event (report r e)"
    and event_append: "event (append_note m e)"
    and entries_report: "\<exists>w. entries (report r e) = entries e @ w @ [stored (text_of r)]"
    and entries_append: "\<exists>w. entries (append_note m e) = entries e @ w @ [stored m]"
begin

fun act :: "'r + 'm \<Rightarrow> 'e \<Rightarrow> 'e" where
  "act (Inl r) e = report r e"
| "act (Inr m) e = append_note m e"

lemma event_act: "event (act a e)"
  by (cases a) (auto simp: event_report event_append)

lemma entries_act: "\<exists>w. entries (act a e) = entries e @ w \<and> w \<noteq> []"
proof (cases a)
  case (Inl r)
  obtain w where "entries (report r e) = entries e @ w @ [stored (text_of r)]"
    using entries_report[of r e] by blast
  with Inl show ?thesis by simp
next
  case (Inr m)
  obtain w where "entries (append_note m e) = entries e @ w @ [stored m]"
    using entries_append[of m e] by blast
  with Inr show ?thesis by simp
qed

lemma event_run: "event (fold act as e) \<longleftrightarrow> as \<noteq> [] \<or> event e"
  by (induction as arbitrary: e) (auto simp: event_act)

lemma entries_run: "\<exists>w. entries (fold act as e) = entries e @ w \<and> length as \<le> length w"
proof (induction as arbitrary: e)
  case Nil
  then show ?case by simp
next
  case (Cons a as)
  obtain w where w: "entries (act a e) = entries e @ w" "w \<noteq> []"
    using entries_act[of a e] by blast
  obtain v where v: "entries (fold act as (act a e)) = entries (act a e) @ v" "length as \<le> length v"
    using Cons.IH[of "act a e"] by blast
  have "entries (fold act (a # as) e) = entries e @ (w @ v)" using w v by simp
  moreover have "length (a # as) \<le> length (w @ v)" using w(2) v(2) by (cases w) auto
  ultimately show ?case by blast
qed

end

interpretation eh: error_sink event_flag "\<lambda>(r, m). error_Init r m" error_AppendMsg
    "\<lambda>eh. map Some (msgs eh)" snd "\<lambda>m. Some (msg_text m)"
  by unfold_locales
     (auto simp: error_Init_def error_AppendMsg_def Let_def set_realm_def)

subsection \<open>Operations as a sequence\<close>

datatype eh_op = EInit int "string option" | EAppend "string option" | EClear

fun eh_step :: "eh_op \<Rightarrow> errh \<Rightarrow> errh" where
  "eh_step (EInit r m) eh = error_Init r m eh"
| "eh_step (EAppend m) eh = error_AppendMsg m eh"
| "eh_step EClear eh = error_clear eh"

definition eh_ok :: "errh \<Rightarrow> bool" where
  "eh_ok eh \<longleftrightarrow> (event_flag eh \<longleftrightarrow> msgs eh \<noteq> [])
     \<and> (\<not> event_flag eh \<longrightarrow> realm eh = EX_OK)
     \<and> (\<forall>m\<in>set (msgs eh). length m < EH_SCRATCH \<and> no_nul m)"

lemma msg_text_ok: "length (msg_text m) < EH_SCRATCH" "no_nul (msg_text m)"
  by (auto simp: msg_text_def EH_SCRATCH_def null_msg_def dest!: in_set_takeD split: option.splits)

lemma eh_ok_step: "eh_ok eh \<Longrightarrow> eh_ok (eh_step a eh)"
  using msg_text_ok
  by (cases a) (auto simp: eh_ok_def error_Init_def error_AppendMsg_def error_clear_def set_realm_def
                           Let_def EH_SCRATCH_def)

lemma eh_ok_run: "eh_ok eh \<Longrightarrow> eh_ok (fold eh_step as eh)"
  by (induction as arbitrary: eh) (auto simp: eh_ok_step)

lemma eh_ok_initial: "eh_ok ErrorHandler"
  by (simp add: eh_ok_def ErrorHandler_def)

lemma realm_kept: "event_flag eh \<Longrightarrow> a \<noteq> EClear \<Longrightarrow>
   event_flag (eh_step a eh) \<and> realm (eh_step a eh) = realm eh"
  by (cases a) (auto simp: error_Init_def error_AppendMsg_def Let_def)

lemma realm_kept_run: "event_flag eh \<Longrightarrow> EClear \<notin> set as \<Longrightarrow>
   event_flag (fold eh_step as eh) \<and> realm (fold eh_step as eh) = realm eh"
  by (induction as arbitrary: eh) (auto simp: realm_kept)

fun joined :: "string list \<Rightarrow> string" where
  "joined [] = []"
| "joined [m] = c_str m"
| "joined (m # m' # ms) = c_str m @ '': '' @ joined (m' # ms)"

lemma print_msgs_joined:
  "print_msgs (take (EH_SCRATCH - 1) acc) ms = take (EH_SCRATCH - 1) (acc @ joined ms)"
proof (induction ms arbitrary: acc rule: joined.induct)
  case 1
  then show ?case by simp
next
  case (2 m)
  then show ?case by (simp del: take_append)
next
  case (3 m m' ms)
  show ?case using 3[of "acc @ c_str m @ '': ''"] by (simp del: take_append)
qed

text \<open>
  C36. The error object's state invariant: after any sequence of Init, AppendMsg and clear on the
  object as constructed, an event is set exactly when a message is recorded, the realm is EX_OK
  when no event is set, and every stored message is a C string that fits its 4096-byte buffer.
\<close>

theorem errors_invariant: "eh_ok (fold eh_step as ErrorHandler)"
  by (rule eh_ok_run[OF eh_ok_initial])

text \<open>
  The first report wins: whatever Init and AppendMsg calls follow it, the realm stays the one
  of the call that opened the event, and the event stays set until clear.
\<close>

theorem first_realm_wins:
  "\<lbrakk>\<not> event_flag eh; EClear \<notin> set as\<rbrakk> \<Longrightarrow>
   realm (fold eh_step (EInit r m # as) eh) = r \<and> event_flag (fold eh_step (EInit r m # as) eh)"
  using realm_kept_run[of "error_Init r m eh" as]
  by (simp add: error_Init_def Let_def set_realm_def)

theorem first_realm_wins_witness:
  "realm (fold eh_step [EInit 74 (Some ''read failed''), EInit 70 None, EAppend (Some ''Read(): '')]
            ErrorHandler) = 74"
  using first_realm_wins[of ErrorHandler "[EInit 70 None, EAppend (Some ''Read(): '')]" 74
      "Some ''read failed''"]
  by (simp add: ErrorHandler_def)

text \<open>
  print returns the recorded messages in order, joined by a colon and a space and truncated
  to the 4095 characters its buffer holds, whatever their number and length.
\<close>

theorem print_is_truncated_join:
  "c_str (error_print eh) = take (EH_SCRATCH - 1) (joined (msgs eh))"
proof -
  have p: "print_msgs [] (msgs eh) = take (EH_SCRATCH - 1) (joined (msgs eh))"
    using print_msgs_joined[of "[]" "msgs eh"] by simp
  have "no_nul (joined ms)" for ms :: "string list"
    by (induction ms rule: joined.induct) auto
  then have "no_nul (take (EH_SCRATCH - 1) (joined (msgs eh)))"
    by (meson in_set_takeD)
  with p show ?thesis by (simp add: error_print_def)
qed

end
