(* ===== verification/Base64.thy ===== *)
theory Base64
  imports Prelude
begin

text \<open>
  Base64.cc: Base64Encode and Base64Decode over unsigned bytes, with the two loops that collect
  groups of three bytes and of four characters, the bit operations on each group and the tail
  that handles an incomplete group. Inputs are shorter than 2^31 bytes, as the int counters of
  the code require.
\<close>

unbundle bit_operations_syntax

type_synonym u8 = "8 word"

definition base64_chars :: string where
  "base64_chars = ''ABCDEFGHIJKLMNOPQRSTUVWXYZabcdefghijklmnopqrstuvwxyz0123456789+/''"

definition is_base64 :: "char \<Rightarrow> bool" where
  "is_base64 c = (let k = (of_char c :: nat) in
     (48 \<le> k \<and> k \<le> 57) \<or> (65 \<le> k \<and> k \<le> 90) \<or> (97 \<le> k \<and> k \<le> 122)
     \<or> c = CHR ''+'' \<or> c = CHR ''/'')"

text \<open>char_array_4 from char_array_3.\<close>

definition sextets :: "u8 \<Rightarrow> u8 \<Rightarrow> u8 \<Rightarrow> u8 list" where
  "sextets a b c =
     [drop_bit 2 (a AND 0xfc),
      push_bit 4 (a AND 0x03) + drop_bit 4 (b AND 0xf0),
      push_bit 2 (b AND 0x0f) + drop_bit 6 (c AND 0xc0),
      c AND 0x3f]"

definition sextet_char :: "u8 \<Rightarrow> char" where
  "sextet_char k = base64_chars ! unat k"

text \<open>
  The while loop: the bytes waiting in char_array_3 (i is their number) and the bytes of buf
  still to come; the characters appended to ret and the bytes left waiting at the end.
\<close>

fun encode_loop :: "u8 list \<Rightarrow> u8 list \<Rightarrow> string \<times> u8 list" where
  "encode_loop arr [] = ([], arr)"
| "encode_loop arr (x # xs) =
     (case arr @ [x] of
        [a, b, c] \<Rightarrow> (let (out, rest) = encode_loop [] xs
                     in (map sextet_char (sextets a b c) @ out, rest))
      | arr' \<Rightarrow> encode_loop arr' xs)"

definition encode_tail :: "u8 list \<Rightarrow> string" where
  "encode_tail arr =
     (let i = length arr in
      if i = 0 then []
      else (case arr @ replicate (3 - i) 0 of
              a # b # c # _ \<Rightarrow> map sextet_char (take (i + 1) (sextets a b c)) @ replicate (3 - i) CHR ''=''
            | _ \<Rightarrow> []))"

definition Base64Encode :: "u8 list \<Rightarrow> string" where
  "Base64Encode buf = (let (out, arr) = encode_loop [] buf in out @ encode_tail arr)"

text \<open>\<^verbatim>\<open>base64_chars.find\<close>, stored into an unsigned char (npos becomes 255).\<close>

fun pos_in :: "char \<Rightarrow> string \<Rightarrow> nat option" where
  "pos_in c [] = None"
| "pos_in c (d # ds) = (if c = d then Some 0 else map_option Suc (pos_in c ds))"

definition char_sextet :: "char \<Rightarrow> u8" where
  "char_sextet c = (case pos_in c base64_chars of Some k \<Rightarrow> of_nat k | None \<Rightarrow> 255)"

text \<open>char_array_3 from char_array_4.\<close>

definition octets :: "u8 \<Rightarrow> u8 \<Rightarrow> u8 \<Rightarrow> u8 \<Rightarrow> u8 list" where
  "octets a b c d =
     [push_bit 2 a + drop_bit 4 (b AND 0x30),
      push_bit 4 (b AND 0x0f) + drop_bit 2 (c AND 0x3c),
      push_bit 6 (c AND 0x03) + d]"

fun decode_loop :: "string \<Rightarrow> string \<Rightarrow> u8 list \<times> string" where
  "decode_loop arr [] = ([], arr)"
| "decode_loop arr (x # xs) =
     (if x \<noteq> CHR ''='' \<and> is_base64 x
      then (case arr @ [x] of
              [a, b, c, d] \<Rightarrow> (let (out, rest) = decode_loop [] xs
                  in (octets (char_sextet a) (char_sextet b) (char_sextet c) (char_sextet d) @ out, rest))
            | arr' \<Rightarrow> decode_loop arr' xs)
      else ([], arr))"

definition decode_tail :: "string \<Rightarrow> u8 list" where
  "decode_tail arr =
     (let i = length arr in
      if i = 0 then []
      else (case map char_sextet (arr @ replicate (4 - i) NUL) of
              a # b # c # d # _ \<Rightarrow> take (i - 1) (octets a b c d)
            | _ \<Rightarrow> []))"

definition Base64Decode :: "string \<Rightarrow> u8 list" where
  "Base64Decode s = (let (out, arr) = decode_loop [] s in out @ decode_tail arr)"

subsection \<open>Bits of a group\<close>

lemma bit_u8_eqI:
  fixes a b :: u8
  assumes "bit a 0 = bit b 0" "bit a 1 = bit b 1" "bit a 2 = bit b 2" "bit a 3 = bit b 3"
    "bit a 4 = bit b 4" "bit a 5 = bit b 5" "bit a 6 = bit b 6" "bit a 7 = bit b 7"
  shows "a = b"
proof (rule bit_word_eqI)
  fix n :: nat
  assume "n < LENGTH(8)"
  then have "n = 0 \<or> n = 1 \<or> n = 2 \<or> n = 3 \<or> n = 4 \<or> n = 5 \<or> n = 6 \<or> n = 7" by auto
  with assms show "bit a n = bit b n" by auto
qed

lemma high_bits_u8 [simp]: "8 \<le> n \<Longrightarrow> \<not> bit (a :: u8) n"
  using bit_imp_le_length[of a n] by auto

lemma unat_u8_lt: "unat (a :: u8) < 256"
  using unsigned_less[of a] by simp

lemma sextets_or:
  "sextets a b c =
     [drop_bit 2 a, push_bit 4 (a AND 0x03) OR drop_bit 4 b, push_bit 2 (b AND 0x0f) OR drop_bit 6 c,
      c AND 0x3f]"
proof -
  have "push_bit 4 (a AND 0x03) + drop_bit 4 (b AND 0xf0) = push_bit 4 (a AND 0x03) OR drop_bit 4 (b AND 0xf0)"
    by (rule disjunctive_add_eq_or, rule bit_u8_eqI; simp add: bit_simps)
  moreover have "push_bit 2 (b AND 0x0f) + drop_bit 6 (c AND 0xc0) = push_bit 2 (b AND 0x0f) OR drop_bit 6 (c AND 0xc0)"
    by (rule disjunctive_add_eq_or, rule bit_u8_eqI; simp add: bit_simps)
  moreover have "drop_bit 2 (a AND 0xfc) = drop_bit 2 a" "drop_bit 4 (b AND 0xf0) = drop_bit 4 b"
    "drop_bit 6 (c AND 0xc0) = drop_bit 6 c"
    by (rule bit_u8_eqI; simp add: bit_simps; fail)+
  ultimately show ?thesis by (simp add: sextets_def)
qed

lemma sextets_shape: "\<exists>p q r s. sextets a b c = [p, q, r, s]"
  by (simp add: sextets_def)

lemma octets_sextets: "sextets a b c = [p, q, r, s] \<Longrightarrow> octets p q r s = [a, b, c]"
proof -
  assume "sextets a b c = [p, q, r, s]"
  then have pq: "p = drop_bit 2 a" "q = push_bit 4 (a AND 0x03) OR drop_bit 4 b"
    "r = push_bit 2 (b AND 0x0f) OR drop_bit 6 c" "s = c AND 0x3f"
    by (simp_all add: sextets_or)
  have "push_bit 2 p + drop_bit 4 (q AND 0x30) = push_bit 2 p OR drop_bit 4 (q AND 0x30)"
    unfolding pq by (rule disjunctive_add_eq_or, rule bit_u8_eqI; simp add: bit_simps)
  also have "\<dots> = a" unfolding pq by (rule bit_u8_eqI; simp add: bit_simps)
  finally have 1: "push_bit 2 p + drop_bit 4 (q AND 0x30) = a" .
  have "push_bit 4 (q AND 0x0f) + drop_bit 2 (r AND 0x3c) = push_bit 4 (q AND 0x0f) OR drop_bit 2 (r AND 0x3c)"
    unfolding pq by (rule disjunctive_add_eq_or, rule bit_u8_eqI; simp add: bit_simps)
  also have "\<dots> = b" unfolding pq by (rule bit_u8_eqI; simp add: bit_simps)
  finally have 2: "push_bit 4 (q AND 0x0f) + drop_bit 2 (r AND 0x3c) = b" .
  have "push_bit 6 (r AND 0x03) + s = push_bit 6 (r AND 0x03) OR s"
    unfolding pq by (rule disjunctive_add_eq_or, rule bit_u8_eqI; simp add: bit_simps)
  also have "\<dots> = c" unfolding pq by (rule bit_u8_eqI; simp add: bit_simps)
  finally have 3: "push_bit 6 (r AND 0x03) + s = c" .
  from 1 2 3 show ?thesis by (simp add: octets_def)
qed

lemma unat_and_mask: "unat (x AND mask n) = unat x mod 2 ^ n" for x :: u8
  by (metis take_bit_eq_mask take_bit_eq_mod unsigned_take_bit_eq)

lemma unat_drop_u8: "unat (drop_bit n x) = unat x div 2 ^ n" for x :: u8
  by (metis drop_bit_eq_div unat_drop_bit_eq)

lemma unat_sextets:
  "map unat (sextets a b c) =
     [unat a div 4, unat a mod 4 * 16 + unat b div 16, unat b mod 16 * 4 + unat c div 64, unat c mod 64]"
proof -
  have lt: "unat a < 256" "unat b < 256" "unat c < 256"
    using unat_u8_lt by simp_all
  have m: "unat (a AND 3) = unat a mod 4" "unat (b AND 0xf) = unat b mod 16" "unat (c AND 0x3f) = unat c mod 64"
    using unat_and_mask[of a 2] unat_and_mask[of b 4] unat_and_mask[of c 6]
    by (simp_all add: mask_eq_exp_minus_1)
  have d: "drop_bit 2 (a AND 0xfc) = drop_bit 2 a" "drop_bit 4 (b AND 0xf0) = drop_bit 4 b"
    "drop_bit 6 (c AND 0xc0) = drop_bit 6 c"
    by (rule bit_u8_eqI; simp add: bit_simps; fail)+
  have p: "unat (push_bit 4 (a AND 3)) = unat a mod 4 * 16" "unat (push_bit 2 (b AND 0xf)) = unat b mod 16 * 4"
    using m by (simp_all add: push_bit_eq_mult unat_word_ariths)
  have dd: "unat (drop_bit 2 a) = unat a div 4" "unat (drop_bit 4 b) = unat b div 16"
    "unat (drop_bit 6 c) = unat c div 64"
    using unat_drop_u8[of 2 a] unat_drop_u8[of 4 b] unat_drop_u8[of 6 c] by simp_all
  have "unat a mod 4 * 16 + unat b div 16 < 256" "unat b mod 16 * 4 + unat c div 64 < 256"
    using lt by linarith+
  then have "unat (push_bit 4 (a AND 3) + drop_bit 4 b) = unat a mod 4 * 16 + unat b div 16"
    and "unat (push_bit 2 (b AND 0xf) + drop_bit 6 c) = unat b mod 16 * 4 + unat c div 64"
    unfolding unat_word_ariths p dd by simp_all
  then show ?thesis
    unfolding sextets_def d by (simp only: list.map m dd)
qed

lemma sextets_lt: "s \<in> set (sextets a b c) \<Longrightarrow> unat s < 64"
proof -
  assume "s \<in> set (sextets a b c)"
  then have "unat s \<in> set (map unat (sextets a b c))" by simp
  moreover have "unat a < 256" "unat b < 256" "unat c < 256"
    using unat_u8_lt by simp_all
  ultimately show ?thesis unfolding unat_sextets by auto
qed

subsection \<open>The alphabet\<close>

lemma length_base64_chars: "length base64_chars = 64"
  by (simp add: base64_chars_def)

lemma alphabet_positions: "map char_sextet base64_chars = map of_nat [0..<64]"
  by code_simp

lemma alphabet_is_base64: "list_all (\<lambda>c. is_base64 c \<and> c \<noteq> CHR ''='' ) base64_chars"
  by code_simp

lemma char_sextet_char: "unat k < 64 \<Longrightarrow> char_sextet (sextet_char k) = k"
proof -
  assume k: "unat k < 64"
  have "char_sextet (base64_chars ! unat k) = map char_sextet base64_chars ! unat k"
    using k by (simp add: length_base64_chars)
  also have "\<dots> = of_nat (unat k)"
    using k by (subst alphabet_positions) simp
  finally show ?thesis by (simp add: sextet_char_def)
qed

lemma is_base64_sextet_char:
  "unat k < 64 \<Longrightarrow> is_base64 (sextet_char k) \<and> sextet_char k \<noteq> CHR ''=''"
  using alphabet_is_base64 by (auto simp: sextet_char_def list_all_length length_base64_chars)

subsection \<open>Grouping\<close>

lemma encode_loop_group:
  "encode_loop [] (a # b # c # xs) =
     (map sextet_char (sextets a b c) @ fst (encode_loop [] xs), snd (encode_loop [] xs))"
  by (simp add: split_beta)

lemma Base64Encode_group:
  "Base64Encode (a # b # c # xs) = map sextet_char (sextets a b c) @ Base64Encode xs"
  unfolding Base64Encode_def encode_loop_group by (simp add: split_beta)

lemma Base64Encode_short:
  "Base64Encode [] = []"
  "Base64Encode [a] = map sextet_char (take 2 (sextets a 0 0)) @ ''==''"
  "Base64Encode [a, b] = map sextet_char (take 3 (sextets a b 0)) @ ''=''"
  by (simp_all add: Base64Encode_def encode_tail_def Let_def numeral_eq_Suc)

lemma decode_loop_group:
  assumes "\<forall>x\<in>{a, b, c, d}. is_base64 x \<and> x \<noteq> CHR ''=''"
  shows "decode_loop [] (a # b # c # d # xs) =
     (octets (char_sextet a) (char_sextet b) (char_sextet c) (char_sextet d) @ fst (decode_loop [] xs),
      snd (decode_loop [] xs))"
  using assms by (simp add: split_beta)

lemma Base64Decode_group:
  assumes "\<forall>x\<in>{a, b, c, d}. is_base64 x \<and> x \<noteq> CHR ''=''"
  shows "Base64Decode (a # b # c # d # xs) =
     octets (char_sextet a) (char_sextet b) (char_sextet c) (char_sextet d) @ Base64Decode xs"
  unfolding Base64Decode_def decode_loop_group[OF assms] by (simp add: split_beta)

text \<open>Induction over the groups of three bytes.\<close>

lemma triple_induct [case_names Nil One Two Three]:
  assumes "P []" "\<And>a. P [a]" "\<And>a b. P [a, b]" "\<And>a b c xs. P xs \<Longrightarrow> P (a # b # c # xs)"
  shows "P xs"
proof (induction xs rule: length_induct)
  case (1 xs)
  show ?case
  proof (cases xs)
    case (Cons a ys)
    show ?thesis
    proof (cases ys)
      case (Cons b zs)
      show ?thesis
        using 1 assms Cons \<open>xs = a # ys\<close> by (cases zs) auto
    qed (use assms \<open>xs = a # ys\<close> in auto)
  qed (use assms in auto)
qed

subsection \<open>The reference encoding\<close>

text \<open>
  RFC 4648 in arithmetic: a group of three bytes is a 24-bit number whose four base-64 digits
  are printed; one or two bytes left over are padded with zero bytes and the digits they do not
  reach are printed as the padding character.
\<close>

definition digits64 :: "nat \<Rightarrow> nat list" where
  "digits64 v = [v div 262144, v div 4096 mod 64, v div 64 mod 64, v mod 64]"

fun rfc4648 :: "nat list \<Rightarrow> string" where
  "rfc4648 [] = []"
| "rfc4648 [a] = map (\<lambda>d. base64_chars ! d) (take 2 (digits64 (a * 65536))) @ ''==''"
| "rfc4648 [a, b] = map (\<lambda>d. base64_chars ! d) (take 3 (digits64 (a * 65536 + b * 256))) @ ''=''"
| "rfc4648 (a # b # c # xs) =
     map (\<lambda>d. base64_chars ! d) (digits64 (a * 65536 + b * 256 + c)) @ rfc4648 xs"

lemma digits64_horner:
  assumes "q < 64" "r < 64" "s < 64"
  shows "digits64 (262144 * p + 4096 * q + 64 * r + s) = [p, q, r, s]"
proof -
  have 1: "(262144 * p + 4096 * q + 64 * r + s) div 262144 = p"
    by (rule div_nat_eqI) (use assms in simp_all)
  have 2: "(262144 * p + 4096 * q + 64 * r + s) div 4096 = 64 * p + q"
    by (rule div_nat_eqI) (use assms in simp_all)
  have 3: "(262144 * p + 4096 * q + 64 * r + s) div 64 = 4096 * p + 64 * q + r"
    by (rule div_nat_eqI) (use assms in simp_all)
  have m: "(64 * k + x) mod 64 = x" if "x < 64" for k x :: nat
    using that by simp
  have "262144 * p + 4096 * q + 64 * r + s = 64 * (4096 * p + 64 * q + r) + s"
    "4096 * p + 64 * q + r = 64 * (64 * p + q) + r" by simp_all
  then show ?thesis
    unfolding digits64_def 1 2 3 using m assms by metis
qed

lemma sextets_digits64:
  "map unat (sextets a b c) = digits64 (unat a * 65536 + unat b * 256 + unat c)"
proof -
  define a1 a0 b1 b0 c1 c0 where "a1 = unat a div 4" "a0 = unat a mod 4" "b1 = unat b div 16"
    "b0 = unat b mod 16" "c1 = unat c div 64" "c0 = unat c mod 64"
  note defs = this
  have lt: "a0 < 4" "b1 < 16" "b0 < 16" "c1 < 4" "c0 < 64"
    using unat_u8_lt[of b] unat_u8_lt[of c] by (simp_all add: defs)
  have "unat a = 4 * a1 + a0" "unat b = 16 * b1 + b0" "unat c = 64 * c1 + c0"
    by (simp_all add: defs)
  then have "unat a * 65536 + unat b * 256 + unat c = 262144 * a1 + 4096 * (16 * a0 + b1) + 64 * (4 * b0 + c1) + c0"
    by simp
  then have "digits64 (unat a * 65536 + unat b * 256 + unat c) = [a1, 16 * a0 + b1, 4 * b0 + c1, c0]"
    using digits64_horner[of "16 * a0 + b1" "4 * b0 + c1" c0 a1] lt by simp
  then show ?thesis by (simp add: unat_sextets defs)
qed

lemma map_sextet_char:
  "map sextet_char (take n (sextets a b c)) =
     map (\<lambda>d. base64_chars ! d) (take n (digits64 (unat a * 65536 + unat b * 256 + unat c)))"
proof -
  have "map sextet_char (take n (sextets a b c)) = map (\<lambda>d. base64_chars ! d) (take n (map unat (sextets a b c)))"
    by (simp add: sextet_char_def take_map)
  then show ?thesis by (simp add: sextets_digits64)
qed

text \<open>
  C21. Base64Encode, which streams the bytes through char_array_3 and works on their bits, computes
  the RFC 4648 encoding defined by arithmetic on groups of three bytes, padding included.
\<close>

theorem encode_is_rfc4648: "Base64Encode buf = rfc4648 (map unat buf)"
proof (induction buf rule: triple_induct)
  case Nil
  then show ?case by (simp add: Base64Encode_short)
next
  case (One a)
  then show ?case using map_sextet_char[of 2 a 0 0] by (simp add: Base64Encode_short)
next
  case (Two a b)
  then show ?case using map_sextet_char[of 3 a b 0] by (simp add: Base64Encode_short)
next
  case (Three a b c xs)
  then show ?case
    using map_sextet_char[of 4 a b c] by (simp add: Base64Encode_group sextets_def digits64_def)
qed

subsection \<open>Round trip\<close>

lemma sextet_chars_decode:
  assumes "sextets a b c = [p, q, r, s]"
  shows "\<forall>x\<in>{sextet_char p, sextet_char q, sextet_char r, sextet_char s}. is_base64 x \<and> x \<noteq> CHR ''=''"
    and "map char_sextet [sextet_char p, sextet_char q, sextet_char r, sextet_char s] = [p, q, r, s]"
proof -
  have "\<forall>x\<in>set [p, q, r, s]. unat x < 64"
    using sextets_lt[of _ a b c] unfolding assms by blast
  then show "\<forall>x\<in>{sextet_char p, sextet_char q, sextet_char r, sextet_char s}. is_base64 x \<and> x \<noteq> CHR ''=''"
    and "map char_sextet [sextet_char p, sextet_char q, sextet_char r, sextet_char s] = [p, q, r, s]"
    by (simp_all add: is_base64_sextet_char char_sextet_char)
qed

lemma char_sextet_NUL: "char_sextet NUL = 255"
  by code_simp

lemma Base64Decode_two:
  assumes "is_base64 x" "x \<noteq> CHR ''=''" "is_base64 y" "y \<noteq> CHR ''=''"
  shows "Base64Decode [x, y, CHR ''='', CHR ''=''] = take 1 (octets (char_sextet x) (char_sextet y) 255 255)"
  using assms by (simp add: Base64Decode_def decode_tail_def Let_def char_sextet_NUL numeral_eq_Suc)

lemma Base64Decode_three:
  assumes "is_base64 x" "x \<noteq> CHR ''=''" "is_base64 y" "y \<noteq> CHR ''=''" "is_base64 z" "z \<noteq> CHR ''=''"
  shows "Base64Decode [x, y, z, CHR ''=''] =
     take 2 (octets (char_sextet x) (char_sextet y) (char_sextet z) 255)"
  using assms by (simp add: Base64Decode_def decode_tail_def Let_def char_sextet_NUL numeral_eq_Suc)

text \<open>
  C11. Base64Decode undoes Base64Encode on every byte string, whatever its length modulo three.
\<close>

theorem base64_roundtrip: "Base64Decode (Base64Encode buf) = buf"
proof (induction buf rule: triple_induct)
  case Nil
  then show ?case by (simp add: Base64Encode_short Base64Decode_def decode_tail_def)
next
  case (One a)
  obtain p q r s where e: "sextets a 0 0 = [p, q, r, s]" using sextets_shape by blast
  note o = octets_sextets[OF e] and d = sextet_chars_decode[OF e]
  then show ?case
    by (simp add: Base64Encode_short e Base64Decode_two numeral_eq_Suc) (simp add: octets_def)
next
  case (Two a b)
  obtain p q r s where e: "sextets a b 0 = [p, q, r, s]" using sextets_shape by blast
  note o = octets_sextets[OF e] and d = sextet_chars_decode[OF e]
  then show ?case
    by (simp add: Base64Encode_short e Base64Decode_three numeral_eq_Suc) (simp add: octets_def)
next
  case (Three a b c xs)
  obtain p q r s where e: "sextets a b c = [p, q, r, s]" using sextets_shape by blast
  note o = octets_sextets[OF e] and d = sextet_chars_decode[OF e]
  then show ?case using Three Base64Decode_group[OF d(1)]
    by (simp add: Base64Encode_group e)
qed

subsection \<open>What the decoder reads\<close>

definition alphabet_prefix :: "string \<Rightarrow> string" where
  "alphabet_prefix s = takeWhile (\<lambda>c. c \<noteq> CHR ''='' \<and> is_base64 c) s"

lemma decode_loop_prefix: "decode_loop arr s = decode_loop arr (alphabet_prefix s)"
  by (induction arr s rule: decode_loop.induct)
     (auto simp: alphabet_prefix_def split: list.splits)

lemma length_octets [simp]: "length (octets a b c d) = 3"
  by (simp add: octets_def)

lemma length_3_list: "length xs = 3 \<Longrightarrow> \<exists>a b c. xs = [a, b, c]"
  by (simp add: numeral_3_eq_3 length_Suc_conv) blast

lemma decode_loop_length:
  "\<lbrakk>\<forall>c\<in>set s. c \<noteq> CHR ''='' \<and> is_base64 c; length arr < 4; decode_loop arr s = (out, rest)\<rbrakk> \<Longrightarrow>
   length out = 3 * ((length arr + length s) div 4) \<and> length rest = (length arr + length s) mod 4"
proof (induction s arbitrary: arr out rest)
  case Nil
  then show ?case by simp
next
  case (Cons x s)
  show ?case
  proof (cases "length arr = 3")
    case True
    then obtain a b c where arr: "arr = [a, b, c]"
      using length_3_list by blast
    obtain o2 r2 where r: "decode_loop [] s = (o2, r2)" by fastforce
    have x: "x \<noteq> CHR ''=''" "is_base64 x" and all: "\<forall>c\<in>set s. c \<noteq> CHR ''='' \<and> is_base64 c"
      using Cons.prems(1) by simp_all
    have "decode_loop arr (x # s) =
      (octets (char_sextet a) (char_sextet b) (char_sextet c) (char_sextet x) @ o2, r2)"
      using x r by (simp add: arr)
    then have o: "out = octets (char_sextet a) (char_sextet b) (char_sextet c) (char_sextet x) @ o2" "rest = r2"
      using Cons.prems(3) by simp_all
    have "length o2 = 3 * (length s div 4) \<and> length r2 = length s mod 4"
      using Cons.IH[OF all _ r] by simp
    moreover have "(3 + Suc (length s)) div 4 = Suc (length s div 4)" "(3 + Suc (length s)) mod 4 = length s mod 4"
      by presburger+
    ultimately show ?thesis by (simp only: o arr) simp
  next
    case False
    then have "decode_loop arr (x # s) = decode_loop (arr @ [x]) s"
      using Cons.prems by (auto split: list.splits)
    with Cons.IH[of "arr @ [x]" out rest] Cons.prems False show ?thesis by simp
  qed
qed

lemma decode_tail_length: "length arr < 4 \<Longrightarrow> length (decode_tail arr) = length arr - 1"
proof -
  assume "length arr < 4"
  then have "arr = [] \<or> (\<exists>a. arr = [a]) \<or> (\<exists>a b. arr = [a, b]) \<or> (\<exists>a b c. arr = [a, b, c])"
    by (cases arr; cases "tl arr"; cases "tl (tl arr)"; cases "tl (tl (tl arr))") auto
  then show ?thesis by (auto simp: decode_tail_def Let_def numeral_eq_Suc octets_def)
qed

text \<open>
  Base64Decode stops at the first character outside the alphabet (a padding character
  included): it depends on the prefix before it only, and the number of bytes it returns is given
  by that prefix, three for each complete group of four characters and one less than the
  characters of an incomplete last group.
\<close>

theorem decode_reads_prefix:
  "Base64Decode s = Base64Decode (alphabet_prefix s) \<and>
   length (Base64Decode s) = 3 * (length (alphabet_prefix s) div 4) + (length (alphabet_prefix s) mod 4 - 1)"
proof -
  obtain out rest where r: "decode_loop [] (alphabet_prefix s) = (out, rest)" by fastforce
  have all: "\<forall>c\<in>set (alphabet_prefix s). c \<noteq> CHR ''='' \<and> is_base64 c"
    by (auto simp: alphabet_prefix_def dest: set_takeWhileD)
  have len: "length out = 3 * (length (alphabet_prefix s) div 4)" "length rest = length (alphabet_prefix s) mod 4"
    using decode_loop_length[OF all _ r] by simp_all
  have "Base64Decode s = out @ decode_tail rest" "Base64Decode (alphabet_prefix s) = out @ decode_tail rest"
    using r decode_loop_prefix[of "[]" s] by (simp_all add: Base64Decode_def)
  moreover have "length (decode_tail rest) = length rest - 1"
    by (rule decode_tail_length) (simp add: len)
  ultimately show ?thesis by (simp add: len)
qed

end
