(* ===== verification/Url.thy ===== *)
theory Url
  imports Error_Handler
begin

text \<open>
  The URL class (URL.h, URL.cc): its fields, the mutators with their taint check, the query
  parser, the bounded printers, the parser InitFromBuf and the tuple comparison. The object is
  threaded together with the global error object.
\<close>

record url_query_info =
  key :: string
  qvalue :: string

record url =
  scheme :: string
  host :: string
  port :: "16 word"
  path :: string
  query :: "url_query_info list"
  fragment :: string

definition URL_PORT_NULL :: "16 word" where "URL_PORT_NULL = 0"
definition kURLMaxSize :: nat where "kURLMaxSize = 1024 * 4"
definition PATH_MAX :: nat where "PATH_MAX = 4096"

definition kStringTainted :: string where "kStringTainted = ''STR_TAINTED''"

definition is_str_tainted :: "string option \<Rightarrow> bool" where
  "is_str_tainted str = (case str of
      None \<Rightarrow> False
    | Some s \<Rightarrow> list_ex (\<lambda>c. c = CHR ''`'' \<or> c = CHR ''|'' \<or> c = CHR 0x5C) (c_str s))"

definition URL :: url where
  "URL = \<lparr>scheme = [], host = [], port = URL_PORT_NULL, path = [], query = [], fragment = []\<rparr>"

text \<open>The copy constructor and the assignment go through the members one by one, and miss none.\<close>

definition url_copy :: "url \<Rightarrow> url" where
  "url_copy src = \<lparr>scheme = scheme src, host = host src, port = port src, path = path src,
     query = query src, fragment = fragment src\<rparr>"

definition url_assign :: "url \<Rightarrow> url \<Rightarrow> url" where
  "url_assign u src = u\<lparr>scheme := scheme src, host := host src, port := port src, path := path src,
     query := query src, fragment := fragment src\<rparr>"

lemma url_copies [simp]: "url_copy src = src" "url_assign u src = src"
  by (simp_all add: url_copy_def url_assign_def)

subsection \<open>Mutators\<close>

definition untaint :: "string \<Rightarrow> string" where
  "untaint s = (if \<not> is_str_tainted (Some s) then c_str s else kStringTainted)"

definition set_scheme :: "string option \<Rightarrow> url \<Rightarrow> url" where
  "set_scheme s u = (case s of None \<Rightarrow> u | Some t \<Rightarrow> u\<lparr>scheme := untaint t\<rparr>)"

definition set_host :: "string option \<Rightarrow> url \<Rightarrow> url" where
  "set_host s u = (case s of None \<Rightarrow> u | Some t \<Rightarrow> u\<lparr>host := untaint t\<rparr>)"

definition set_port :: "16 word \<Rightarrow> url \<Rightarrow> url" where
  "set_port p u = u\<lparr>port := p\<rparr>"

definition set_fragment :: "string option \<Rightarrow> url \<Rightarrow> url" where
  "set_fragment s u = (case s of None \<Rightarrow> u | Some t \<Rightarrow> u\<lparr>fragment := untaint t\<rparr>)"

definition url_clear :: "url \<Rightarrow> url" where
  "url_clear u = (set_port URL_PORT_NULL (u\<lparr>scheme := [], host := []\<rparr>))\<lparr>path := [], query := [], fragment := []\<rparr>"

text \<open>
  The loop of set_query: n bytes are left at mem. The result is the list of pairs pushed so far
  and whether the loop ended without the error of a key that has no value. None is undefined
  behaviour: a read past the allocation, a scratch buffer overflow, or the count running below 0.
\<close>

definition key_char :: "char \<Rightarrow> bool" where
  "key_char c \<longleftrightarrow> c \<noteq> CHR ''='' \<and> \<not> isspace c"

definition value_char :: "char \<Rightarrow> bool" where
  "value_char c \<longleftrightarrow> c \<noteq> CHR ''&'' \<and> \<not> isspace c"

function query_loop :: "string \<Rightarrow> nat \<Rightarrow> url_query_info list \<Rightarrow> (url_query_info list \<times> bool) option" where
  "query_loop mem n qs = (if n = 0 then Some (qs, True) else
     (case copy_while kURLMaxSize key_char mem n of
        None \<Rightarrow> None
      | Some (k, mem1, n1) \<Rightarrow>
          (case mem1 of
             [] \<Rightarrow> None
           | c # mem2 \<Rightarrow>
               if c \<noteq> CHR ''='' then Some (qs, False)
               else if n1 = 0 then None
               else (case terminate_at kURLMaxSize k of
                  None \<Rightarrow> None
                | Some k' \<Rightarrow>
                    (case copy_while kURLMaxSize value_char mem2 (n1 - 1) of
                       None \<Rightarrow> None
                     | Some (v, mem3, n3) \<Rightarrow>
                         (case terminate_at kURLMaxSize v of
                            None \<Rightarrow> None
                          | Some v' \<Rightarrow>
                              (case mem3 of
                                 [] \<Rightarrow> None
                               | d # mem4 \<Rightarrow>
                                   if d = CHR ''&''
                                   then if n3 = 0 then None
                                        else query_loop mem4 (n3 - 1) (qs @ [\<lparr>key = k', qvalue = v'\<rparr>])
                                   else query_loop mem3 n3 (qs @ [\<lparr>key = k', qvalue = v'\<rparr>]))))))))"
  by pat_completeness auto
termination
proof (relation "measure (\<lambda>(mem, n, qs). n)"; clarsimp)
  fix mem n k mem2 n1 v mem4 n3
  assume "copy_while kURLMaxSize key_char mem n = Some (k, CHR ''='' # mem2, n1)"
    "copy_while kURLMaxSize value_char mem2 (n1 - Suc 0) = Some (v, CHR ''&'' # mem4, n3)" "0 < n3"
  then show "n3 - Suc 0 < n" by (auto dest!: copy_while_SomeD)
next
  fix mem n k mem2 n1 v d mem4 n3
  assume "copy_while kURLMaxSize key_char mem n = Some (k, CHR ''='' # mem2, n1)"
    "copy_while kURLMaxSize value_char mem2 (n1 - Suc 0) = Some (v, d # mem4, n3)" "0 < n1"
  then show "n3 < n" by (auto dest!: copy_while_SomeD)
qed

declare query_loop.simps [simp del]

type_synonym url_st = "url \<times> errh"

text \<open>A NULL pointer is None; the outer option of the result is None for undefined behaviour.\<close>

definition set_query :: "string option \<Rightarrow> nat \<Rightarrow> url_st \<Rightarrow> url_st option" where
  "set_query query_buf len st = (case query_buf of
      None \<Rightarrow> Some st
    | Some mem \<Rightarrow>
        if len \<ge> length mem then None
        else if mem ! len \<noteq> NUL \<or> len > kURLMaxSize
        then Some (fst st, error_Init EX_SOFTWARE
               (Some ''URL::set_query(): buf is not null terminated or too large'') (snd st))
        else (case query_loop mem len (query (fst st)) of
            None \<Rightarrow> None
          | Some (qs, True) \<Rightarrow> Some ((fst st)\<lparr>query := qs\<rparr>, snd st)
          | Some (qs, False) \<Rightarrow> Some ((fst st)\<lparr>query := qs\<rparr>, error_Init EX_SOFTWARE
               (Some (''URL::set_query(): buf ('' @ c_str mem @ '') does not have a '' @
                      [CHR 0x27, CHR ''='', CHR 0x27])) (snd st))))"

definition path_char :: "char \<Rightarrow> bool" where
  "path_char c \<longleftrightarrow> c \<noteq> NUL \<and> c \<noteq> CHR ''?'' \<and> c \<noteq> CHR ''#''"

text \<open>
  set_path leaves its loop with i one above the number of bytes copied, the post-increment of the
  failing test included; \<^verbatim>\<open>len - i\<close> is computed in a size_t.
\<close>

definition set_path :: "string option \<Rightarrow> nat \<Rightarrow> url_st \<Rightarrow> url_st option" where
  "set_path path_buf len st = (case path_buf of
      None \<Rightarrow> Some st
    | Some mem \<Rightarrow>
        if len = 0 then Some st
        else if NUL \<notin> set mem then None
        else if is_str_tainted (Some mem) then Some ((fst st)\<lparr>path := kStringTainted\<rparr>, snd st)
        else (case copy_while PATH_MAX path_char mem len of
            None \<Rightarrow> None
          | Some (w, mem', n') \<Rightarrow>
              (let u = (fst st)\<lparr>path := w\<rparr>; i = length w + 1
               in (case mem' of
                    [] \<Rightarrow> None
                  | c # cs \<Rightarrow>
                      if c = CHR ''?'' then set_query (Some mem') (size_sub len i) (u, snd st)
                      else if c = CHR ''#'' then Some (set_fragment (Some mem') u, snd st)
                      else Some (u, snd st)))))"

subsection \<open>Printing\<close>

fun print_queries :: "url_query_info list \<Rightarrow> string list" where
  "print_queries [] = []"
| "print_queries [q] = [c_str (key q), ''='' @ c_str (qvalue q)]"
| "print_queries (q # q' # qs) = [c_str (key q), ''='' @ c_str (qvalue q), ''&''] @ print_queries (q' # qs)"

definition print_abs_path :: "url \<Rightarrow> string" where
  "print_abs_path u = zfill kURLMaxSize (sn_print kURLMaxSize
     ((if path u \<noteq> [] then [''/'' @ c_str (path u)] else [])
      @ (if query u \<noteq> [] then ''?'' # print_queries (query u) else [])
      @ (if fragment u \<noteq> [] then [''#'' @ c_str (fragment u)] else [])))"

definition print_absoluteURI :: "url \<Rightarrow> string" where
  "print_absoluteURI u = zfill kURLMaxSize (sn_print kURLMaxSize
     ((if scheme u \<noteq> [] then [c_str (scheme u) @ ''://''] else [])
      @ (if host u \<noteq> [] then [c_str (host u)] else [])
      @ (if port u \<noteq> URL_PORT_NULL then ['':'' @ show_nat (unat (port u))] else [])
      @ (let tmp_path = print_abs_path u in if tmp_path \<noteq> [] then [c_str tmp_path] else [])))"

definition url_print :: "url \<Rightarrow> string" where
  "url_print u = print_absoluteURI u"

definition url_Init :: "string option \<Rightarrow> string option \<Rightarrow> 16 word \<Rightarrow> string option \<Rightarrow> nat \<Rightarrow>
    string option \<Rightarrow> nat \<Rightarrow> string option \<Rightarrow> url_st \<Rightarrow> url_st option" where
  "url_Init sch hst prt path_buf path_len query_buf query_len frag st =
     (let u1 = set_port prt (set_host hst (set_scheme sch (fst st)))
      in (case (if path_len \<noteq> 0 then set_path path_buf path_len (u1, snd st) else Some (u1, snd st)) of
            None \<Rightarrow> None
          | Some st2 \<Rightarrow>
              (case (if query_len \<noteq> 0 then set_query query_buf query_len st2 else Some st2) of
                 None \<Rightarrow> None
               | Some st3 \<Rightarrow>
                   Some (set_fragment frag (fst st3),
                     (if event_flag (snd st3) then error_AppendMsg (Some ''URL::Init(): '') (snd st3)
                      else snd st3)))))"

subsection \<open>InitFromBuf\<close>

text \<open>
  The parser's position is the memory at buf_ptr and the count n of bytes left. It is one routine
  in the source; its consecutive parts are the definitions below, in order. A part that returns 0
  is Stop.
\<close>

definition url_start :: "url_st \<Rightarrow> pos \<Rightarrow> (url_st, pos) run" where
  "url_start st = (\<lambda>(mem, n).
     let st = (url_clear (fst st), snd st)
     in (case read_cstr mem of
           None \<Rightarrow> Fault
         | Some s \<Rightarrow>
             if s = [] then Stop st
             else (case scan isspace mem n of
                 None \<Rightarrow> Fault
               | Some (_, mem', n') \<Rightarrow> if n' = 0 then Stop st else Go st (mem', n'))))"

text \<open>\<^verbatim>\<open>strchr(buf_ptr, ':')\<close> finds a colon and two slashes follow it.\<close>

definition has_scheme :: "string \<Rightarrow> bool" where
  "has_scheme s = (case dropWhile (\<lambda>c. c \<noteq> CHR '':'') s of
      c # d # e # _ \<Rightarrow> d = CHR ''/'' \<and> e = CHR ''/''
    | _ \<Rightarrow> False)"

definition url_scheme :: "url_st \<Rightarrow> pos \<Rightarrow> (url_st, pos) run" where
  "url_scheme st = (\<lambda>(mem, n).
     case read_cstr mem of
       None \<Rightarrow> Fault
     | Some s \<Rightarrow>
         if \<not> has_scheme s then Go st (mem, n)
         else (case copy_while kURLMaxSize (\<lambda>c. c \<noteq> CHR '':'') mem n of
             None \<Rightarrow> Fault
           | Some (w, mem', n') \<Rightarrow>
               if n' = 0 then Stop st
               else (case terminate_at kURLMaxSize w of
                   None \<Rightarrow> Fault
                 | Some sch \<Rightarrow>
                     (let st' = (set_scheme (Some sch) (fst st), snd st)
                      in if n' < 4 then Stop st' else Go st' (drop 3 mem', n' - 3)))))"

definition host_char :: "char \<Rightarrow> bool" where
  "host_char c \<longleftrightarrow> c \<noteq> CHR '':'' \<and> c \<noteq> CHR ''/'' \<and> \<not> isspace c"

definition url_host :: "url_st \<Rightarrow> pos \<Rightarrow> (url_st, pos) run" where
  "url_host st = (\<lambda>(mem, n).
     case copy_while kURLMaxSize host_char mem n of
       None \<Rightarrow> Fault
     | Some (w, mem', n') \<Rightarrow>
         (case terminate_at kURLMaxSize w of
            None \<Rightarrow> Fault
          | Some h \<Rightarrow> Go (set_host (Some h) (fst st), snd st) (mem', n')))"

text \<open>The test \<^verbatim>\<open>n > 0 && *buf_ptr == c\<close> and the step over that byte.\<close>

definition url_port :: "16 word \<Rightarrow> url_st \<Rightarrow> pos \<Rightarrow> (url_st, pos) run" where
  "url_port default_port st = (\<lambda>(mem, n).
     if n = 0 then Go (set_port default_port (fst st), snd st) (mem, n)
     else (case mem of
         [] \<Rightarrow> Fault
       | c # mem1 \<Rightarrow>
           if c \<noteq> CHR '':'' then Go (set_port default_port (fst st), snd st) (mem, n)
           else if n - 1 = 0 then Stop st
           else (case copy_while kURLMaxSize isdigit mem1 (n - 1) of
               None \<Rightarrow> Fault
             | Some (w, mem', n') \<Rightarrow>
                 (case terminate_at kURLMaxSize w of
                    None \<Rightarrow> Fault
                  | Some d \<Rightarrow> Go (set_port (word_of_nat (strtoul10 d)) (fst st), snd st) (mem', n')))))"

text \<open>
  The three optional parts that follow share their shape: the delimiter, the bytes up to the next
  one, and the mutator called on the scratch buffer, a terminated copy of them.
\<close>

definition url_part :: "char \<Rightarrow> (char \<Rightarrow> bool) \<Rightarrow> (string \<Rightarrow> url_st \<Rightarrow> url_st option) \<Rightarrow>
    url_st \<Rightarrow> pos \<Rightarrow> (url_st, pos) run" where
  "url_part start_char p setter st = (\<lambda>(mem, n).
     if n = 0 then Go st (mem, n)
     else (case mem of
         [] \<Rightarrow> Fault
       | c # mem1 \<Rightarrow>
           if c \<noteq> start_char then Go st (mem, n)
           else if n - 1 = 0 then Stop st
           else (case copy_while kURLMaxSize p mem1 (n - 1) of
               None \<Rightarrow> Fault
             | Some (w, mem', n') \<Rightarrow>
                 (case terminate_at kURLMaxSize w of
                    None \<Rightarrow> Fault
                  | Some t \<Rightarrow>
                      (case setter t st of
                         None \<Rightarrow> Fault
                       | Some st' \<Rightarrow> Go st' (mem', n'))))))"

definition url_path :: "url_st \<Rightarrow> pos \<Rightarrow> (url_st, pos) run" where
  "url_path = url_part CHR ''/'' (\<lambda>c. c \<noteq> CHR ''?'' \<and> c \<noteq> CHR ''#'' \<and> \<not> isspace c)
     (\<lambda>t. set_path (Some (t @ [NUL])) (length t))"

definition url_query :: "url_st \<Rightarrow> pos \<Rightarrow> (url_st, pos) run" where
  "url_query = url_part CHR ''?'' (\<lambda>c. c \<noteq> CHR ''#'' \<and> \<not> isspace c)
     (\<lambda>t. set_query (Some (t @ [NUL])) (length t))"

definition url_fragment :: "url_st \<Rightarrow> pos \<Rightarrow> (url_st, pos) run" where
  "url_fragment = url_part CHR ''#'' (\<lambda>c. \<not> isspace c)
     (\<lambda>t st. Some (set_fragment (Some t) (fst st), snd st))"

definition url_stages :: "16 word \<Rightarrow> url_st \<Rightarrow> pos \<Rightarrow> (url_st, pos) run" where
  "url_stages default_port =
     seq_run url_start (seq_run url_scheme (seq_run url_host (seq_run (url_port default_port)
       (seq_run url_path (seq_run url_query url_fragment)))))"

definition url_InitFromBuf :: "16 word \<Rightarrow> string option \<Rightarrow> nat \<Rightarrow> url_st \<Rightarrow> (url_st, nat) run" where
  "url_InitFromBuf default_port buf len st = (case buf of
      None \<Rightarrow> Stop (fst st, error_Init EX_SOFTWARE (Some ''URL::InitFromBuf(): buf is NULL'') (snd st))
    | Some mem \<Rightarrow> bind_run (url_stages default_port st (mem, len)) (\<lambda>st' (mem', n). Go st' (size_sub len n)))"

subsection \<open>Comparison\<close>

text \<open>
  get_reverse_dns of IPComm.cc, for a platform whose unsigned long has 64 bits: the 32-bit result of
  \<^verbatim>\<open>inet_addr(3)\<close> is zero-extended before it is compared with
  \<^verbatim>\<open>(unsigned long)-1\<close>. The library calls are parameters: inet_addr, and resolve, the
  answer (the addresses as text, None for NULL, and h_errno) of each successive
  \<^verbatim>\<open>gethostbyname(3)\<close> for a host. The result None is NULL.
\<close>

definition IPCOMM_DNS_RETRY_CNT :: nat where "IPCOMM_DNS_RETRY_CNT = 3"
definition TRY_AGAIN :: int where "TRY_AGAIN = 2"

fun reverse_loop :: "(nat \<Rightarrow> string list option \<times> int) \<Rightarrow> nat \<Rightarrow> nat \<Rightarrow> string list option" where
  "reverse_loop answers attempt 0 = fst (answers attempt)"
| "reverse_loop answers attempt (Suc retry_cnt) =
     (if fst (answers attempt) = None \<and> snd (answers attempt) = TRY_AGAIN
      then reverse_loop answers (attempt + 1) retry_cnt else fst (answers attempt))"

definition get_reverse_dns ::
  "(string \<Rightarrow> 32 word) \<Rightarrow> (string \<Rightarrow> nat \<Rightarrow> string list option \<times> int) \<Rightarrow> string \<Rightarrow> string option" where
  "get_reverse_dns inet_addr resolve h =
     (let tmp_inet_addr = (ucast (inet_addr h) :: 64 word)
      in if tmp_inet_addr \<noteq> - 1 then Some h
         else (case reverse_loop (resolve h) 0 IPCOMM_DNS_RETRY_CNT of
             Some (a # _) \<Rightarrow> Some a
           | _ \<Rightarrow> None))"

text \<open>
  CompareTuples. The source constructs a \<^verbatim>\<open>std::string\<close> from what get_reverse_dns
  returns, which for NULL is undefined behaviour: None.
\<close>

definition CompareTuples :: "(string \<Rightarrow> 32 word) \<Rightarrow> (string \<Rightarrow> nat \<Rightarrow> string list option \<times> int)
    \<Rightarrow> url \<Rightarrow> url \<Rightarrow> bool \<Rightarrow> bool option" where
  "CompareTuples inet_addr resolve u other exact_port =
     (let ports = (if exact_port then port u = port other
                   else \<not> (port u \<noteq> URL_PORT_NULL \<and> port other \<noteq> URL_PORT_NULL \<and> port u \<noteq> port other))
      in if host u \<noteq> host other
         then (case (get_reverse_dns inet_addr resolve (c_str (host u)),
                     get_reverse_dns inet_addr resolve (c_str (host other))) of
             (Some ip1, Some ip2) \<Rightarrow>
               if ip1 = [] \<or> ip2 = [] \<or> ip1 \<noteq> ip2 then Some False else Some ports
           | _ \<Rightarrow> None)
         else Some ports)"

definition compare_tuples :: "(string \<Rightarrow> 32 word) \<Rightarrow> (string \<Rightarrow> nat \<Rightarrow> string list option \<times> int)
    \<Rightarrow> url \<Rightarrow> url \<Rightarrow> bool option" where
  "compare_tuples inet_addr resolve right left = CompareTuples inet_addr resolve right left False"

subsection \<open>Printing: lemmas\<close>

text \<open>The texts the printers write when the buffer is large enough.\<close>

fun query_text :: "url_query_info list \<Rightarrow> string" where
  "query_text [] = []"
| "query_text [q] = c_str (key q) @ ''='' @ c_str (qvalue q)"
| "query_text (q # q' # qs) = c_str (key q) @ ''='' @ c_str (qvalue q) @ ''&'' @ query_text (q' # qs)"

definition abs_path_text :: "url \<Rightarrow> string" where
  "abs_path_text u = (if path u \<noteq> [] then ''/'' @ c_str (path u) else [])
     @ (if query u \<noteq> [] then ''?'' @ query_text (query u) else [])
     @ (if fragment u \<noteq> [] then ''#'' @ c_str (fragment u) else [])"

definition authority_text :: "url \<Rightarrow> string" where
  "authority_text u = (if scheme u \<noteq> [] then c_str (scheme u) @ ''://'' else [])
     @ (if host u \<noteq> [] then c_str (host u) else [])
     @ (if port u \<noteq> URL_PORT_NULL then '':'' @ show_nat (unat (port u)) else [])"

definition uri_text :: "url \<Rightarrow> string" where
  "uri_text u = authority_text u @ abs_path_text u"

lemma concat_print_queries: "concat (print_queries qs) = query_text qs"
  by (induction qs rule: print_queries.induct) auto

lemma no_nul_query_text [simp]: "no_nul (query_text qs)"
  by (induction qs rule: query_text.induct) auto

lemma no_nul_abs_path_text [simp]: "no_nul (abs_path_text u)"
  by (simp add: abs_path_text_def)

lemma no_nul_uri_text [simp]: "no_nul (uri_text u)"
  by (simp add: uri_text_def authority_text_def)

lemma print_abs_path_text: "c_str (print_abs_path u) = take (kURLMaxSize - 1) (abs_path_text u)"
proof -
  have "sn_print kURLMaxSize
     ((if path u \<noteq> [] then [''/'' @ c_str (path u)] else [])
      @ (if query u \<noteq> [] then ''?'' # print_queries (query u) else [])
      @ (if fragment u \<noteq> [] then [''#'' @ c_str (fragment u)] else []))
     = take (kURLMaxSize - 1) (abs_path_text u)"
    by (simp add: sn_print_concat abs_path_text_def concat_print_queries)
  then show ?thesis using no_nul_abs_path_text[of u] by (simp add: print_abs_path_def)
qed

lemma take_append_take: "take m (a @ take m b) = take m (a @ b)"
  by (simp add: min_def)

lemma print_absoluteURI_eq:
  "print_absoluteURI u = zfill kURLMaxSize (take (kURLMaxSize - 1) (uri_text u))"
proof -
  have ne: "print_abs_path u \<noteq> []"
    by (simp add: print_abs_path_def zfill_def kURLMaxSize_def sn_print_concat) 
  have "sn_print kURLMaxSize
     ((if scheme u \<noteq> [] then [c_str (scheme u) @ ''://''] else [])
      @ (if host u \<noteq> [] then [c_str (host u)] else [])
      @ (if port u \<noteq> URL_PORT_NULL then ['':'' @ show_nat (unat (port u))] else [])
      @ [c_str (print_abs_path u)])
     = take (kURLMaxSize - 1) (authority_text u @ take (kURLMaxSize - 1) (abs_path_text u))"
    by (simp add: sn_print_concat authority_text_def print_abs_path_text)
  also have "\<dots> = take (kURLMaxSize - 1) (uri_text u)"
    by (simp add: uri_text_def take_append_take del: take_append)
  finally show ?thesis using ne by (simp add: print_absoluteURI_def Let_def)
qed

subsection \<open>The query parser\<close>

definition wf_query :: "url_query_info list \<Rightarrow> bool" where
  "wf_query qs \<longleftrightarrow> list_all (\<lambda>q. list_all key_char (key q) \<and> list_all value_char (qvalue q)
      \<and> no_nul (key q) \<and> no_nul (qvalue q)) qs"

lemma query_info_eta [simp]: "\<lparr>key = key q, qvalue = qvalue q\<rparr> = q"
  by (cases q) simp

lemma query_loop_0 [simp]: "query_loop mem 0 qs = Some (qs, True)"
  by (simp add: query_loop.simps)

lemma query_loop_pair:
  assumes "list_all key_char k" "list_all value_char v" "no_nul k" "no_nul v"
    "length k < kURLMaxSize" "length v < kURLMaxSize" "d = NUL \<and> m = 0 \<or> d = CHR ''&'' \<and> 0 < m"
  shows "query_loop (k @ ''='' @ v @ d # mem) (length k + 1 + length v + m) qs =
    query_loop (if m = 0 then d # mem else mem) (m - 1) (qs @ [\<lparr>key = k, qvalue = v\<rparr>])"
proof -
  have 1: "copy_while kURLMaxSize key_char (k @ CHR ''='' # (v @ d # mem)) (length k + (1 + length v + m))
      = Some (k, CHR ''='' # (v @ d # mem), 1 + length v + m)"
    using assms by (intro copy_while_stop) (auto simp: list_all_iff key_char_def)
  have 2: "copy_while kURLMaxSize value_char (v @ d # mem) (length v + m) = Some (v, d # mem, m)"
  proof (cases "m = 0")
    case True
    with assms show ?thesis by (simp add: copy_while_all list_all_iff)
  next
    case False
    with assms show ?thesis by (intro copy_while_stop) (auto simp: list_all_iff value_char_def)
  qed
  show ?thesis
    using 1 2 assms
    by (subst query_loop.simps) (auto simp: add.assoc)
qed

lemma query_loop_text:
  "\<lbrakk>wf_query qs; qs \<noteq> []; length (query_text qs) < kURLMaxSize\<rbrakk> \<Longrightarrow>
   query_loop (query_text qs @ NUL # mem) (length (query_text qs)) acc = Some (acc @ qs, True)"
proof (induction qs arbitrary: acc rule: query_text.induct)
  case 1
  then show ?case by simp
next
  case (2 q)
  then show ?case
    using query_loop_pair[of "key q" "qvalue q" NUL 0 mem acc] by (simp add: wf_query_def)
next
  case (3 q q' qs)
  let ?t = "query_text (q' # qs)"
  have "query_loop (key q @ ''='' @ qvalue q @ CHR ''&'' # ?t @ NUL # mem)
      (length (key q) + 1 + length (qvalue q) + Suc (length ?t)) acc =
    query_loop (?t @ NUL # mem) (length ?t) (acc @ [\<lparr>key = key q, qvalue = qvalue q\<rparr>])"
    using query_loop_pair[of "key q" "qvalue q" "CHR ''&''" "Suc (length ?t)" "?t @ NUL # mem" acc] 3
    by (simp add: wf_query_def)
  then show ?case using 3 by (simp add: wf_query_def add.assoc)
qed

lemma query_loop_total:
  "\<lbrakk>n < length mem; mem ! n = NUL; n \<le> kURLMaxSize\<rbrakk> \<Longrightarrow> query_loop mem n qs \<noteq> None"
proof (induction n arbitrary: mem qs rule: less_induct)
  case (less n)
  show ?case
  proof (cases "n = 0")
    case False
    obtain k mem1 n1 where k: "copy_while kURLMaxSize key_char mem n = Some (k, mem1, n1)"
      "n = length k + n1" "mem = k @ mem1"
      using copy_while_total[of n mem kURLMaxSize key_char] less.prems by (metis less_imp_le)
    then have m1: "n1 < length mem1" "mem1 ! n1 = NUL" using less.prems by (auto simp: nth_append)
    then obtain c mem2 where c: "mem1 = c # mem2" by (cases mem1) auto
    show ?thesis
    proof (cases "c = CHR ''=''")
      case True
      then have n1: "0 < n1" using m1 c by (cases n1) auto
      then have m2: "n1 - 1 < length mem2" "mem2 ! (n1 - 1) = NUL" using m1 c by (auto simp: nth_Cons')
      have le: "n1 - 1 \<le> length mem2" "n1 - 1 \<le> kURLMaxSize" using m2 k(2) less.prems(3) by auto
      obtain v mem3 n3 where v: "copy_while kURLMaxSize value_char mem2 (n1 - 1) = Some (v, mem3, n3)"
        "n1 - 1 = length v + n3" "mem2 = v @ mem3"
        using copy_while_total[OF le, of value_char] by metis
      then have m3: "n3 < length mem3" "mem3 ! n3 = NUL" using m2 by (auto simp: nth_append)
      then obtain d mem4 where d: "mem3 = d # mem4" by (cases mem3) auto
      have "length k < kURLMaxSize" "length v < kURLMaxSize" using k(2) v(2) n1 less.prems(3) by auto
      moreover have "d = CHR ''&'' \<Longrightarrow> 0 < n3" using m3 d by (cases n3) auto
      moreover have "d = CHR ''&'' \<Longrightarrow> query_loop mem4 (n3 - 1) qs' \<noteq> None" for qs'
        using less.IH[of "n3 - 1" mem4 qs'] m3 d k(2) v(2) n1 less.prems(3) calculation(3)
        by (auto simp: nth_Cons')
      moreover have "query_loop (d # mem4) n3 qs' \<noteq> None" for qs'
        using less.IH[of n3 mem3 qs'] m3 d k(2) v(2) n1 less.prems(3) by auto
      ultimately show ?thesis using k(1) v(1) c d True n1 False
        by (subst query_loop.simps) (auto simp: v(1)[simplified])
    next
      case neq: False
      then show ?thesis using k(1) c False by (subst query_loop.simps) auto
    qed
  qed simp
qed

subsection \<open>Safety of the parser\<close>

lemma set_query_total:
  "len < length mem \<Longrightarrow> set_query (Some mem) len st \<noteq> None"
  using query_loop_total[of len mem "query (fst st)"]
  by (cases "len \<le> kURLMaxSize") (auto simp: set_query_def split: option.splits bool.splits)

lemma set_query_scratch_total: "set_query (Some (t @ [NUL])) (length t) st \<noteq> None"
  by (rule set_query_total) simp

lemma set_path_scratch_total:
  assumes t: "length t < kURLMaxSize" and p: "\<forall>c\<in>set t. path_char c"
  shows "set_path (Some (t @ [NUL])) (length t) st \<noteq> None"
proof (cases "t = [] \<or> is_str_tainted (Some (t @ [NUL]))")
  case True
  then show ?thesis by (auto simp: set_path_def)
next
  case False
  have "copy_while PATH_MAX path_char (t @ [NUL]) (length t) = Some (t, [NUL], 0)"
    using t p by (intro copy_while_all) (auto simp: PATH_MAX_def kURLMaxSize_def)
  with False show ?thesis by (simp add: set_path_def)
qed

definition at_string :: "url_st \<Rightarrow> pos \<Rightarrow> bool" where
  "at_string st p \<longleftrightarrow> NUL \<in> set (fst p) \<and> snd p \<le> length (fst p) \<and> snd p < kURLMaxSize"

definition at_bytes :: "url_st \<Rightarrow> pos \<Rightarrow> bool" where
  "at_bytes st p \<longleftrightarrow> snd p \<le> length (fst p) \<and> snd p < kURLMaxSize"

lemma url_start_ok: "runs_ok at_string url_start at_string"
proof (rule runs_okI)
  fix st p assume a: "at_string st p"
  obtain mem n where p: "p = (mem, n)" by fastforce
  obtain w mem' n' where s: "scan isspace mem n = Some (w, mem', n')" "n' \<le> length mem'"
    using scan_total[of n mem isspace] a p by (auto simp: at_string_def)
  have "NUL \<in> set mem'" using scan_SomeD[OF s(1)] a p by (auto simp: at_string_def isspace_def)
  moreover have "n' \<le> n" using scan_SomeD[OF s(1)] by simp
  ultimately show "case url_start st p of Fault \<Rightarrow> False | Stop _ \<Rightarrow> True | Go t b \<Rightarrow> at_string t b"
    using s a p by (auto simp: url_start_def at_string_def read_cstr_def Let_def)
qed

lemma url_scheme_ok: "runs_ok at_string url_scheme at_bytes"
proof (rule runs_okI)
  fix st p assume a: "at_string st p"
  obtain mem n where p: "p = (mem, n)" by fastforce
  have le: "n \<le> length mem" "n \<le> kURLMaxSize" using a p by (auto simp: at_string_def)
  obtain w mem' n' where s: "copy_while kURLMaxSize (\<lambda>c. c \<noteq> CHR '':'') mem n = Some (w, mem', n')"
    "n = length w + n'" "n' \<le> length mem'"
    using copy_while_total[OF le, of "\<lambda>c. c \<noteq> CHR '':''"] by metis
  then show "case url_scheme st p of Fault \<Rightarrow> False | Stop _ \<Rightarrow> True | Go t b \<Rightarrow> at_bytes t b"
    using a p by (auto simp: url_scheme_def at_string_def at_bytes_def read_cstr_def Let_def)
qed

lemma url_host_ok: "runs_ok at_bytes url_host at_bytes"
proof (rule runs_okI)
  fix st p assume a: "at_bytes st p"
  obtain mem n where p: "p = (mem, n)" by fastforce
  have le: "n \<le> length mem" "n \<le> kURLMaxSize" using a p by (auto simp: at_bytes_def)
  obtain w mem' n' where s: "copy_while kURLMaxSize host_char mem n = Some (w, mem', n')"
    "n = length w + n'" "n' \<le> length mem'"
    using copy_while_total[OF le, of host_char] by metis
  then show "case url_host st p of Fault \<Rightarrow> False | Stop _ \<Rightarrow> True | Go t b \<Rightarrow> at_bytes t b"
    using a p by (auto simp: url_host_def at_bytes_def)
qed

lemma url_port_ok: "runs_ok at_bytes (url_port default_port) at_bytes"
proof (rule runs_okI)
  fix st p assume a: "at_bytes st p"
  obtain mem n where p: "p = (mem, n)" by fastforce
  show "case url_port default_port st p of Fault \<Rightarrow> False | Stop _ \<Rightarrow> True | Go t b \<Rightarrow> at_bytes t b"
  proof (cases "n = 0")
    case False
    then obtain c mem1 where m: "mem = c # mem1" using a p by (cases mem) (auto simp: at_bytes_def)
    have le: "n - 1 \<le> length mem1" "n - 1 \<le> kURLMaxSize" using a p m by (auto simp: at_bytes_def)
    obtain w mem' n' where s: "copy_while kURLMaxSize isdigit mem1 (n - 1) = Some (w, mem', n')"
      "n - 1 = length w + n'" "n' \<le> length mem'"
      using copy_while_total[OF le, of isdigit] by metis
    then show ?thesis using a p m False by (auto simp: url_port_def at_bytes_def)
  qed (use a p in \<open>auto simp: url_port_def at_bytes_def\<close>)
qed

lemma url_part_ok:
  assumes setter: "\<And>t st. \<forall>c\<in>set t. ok c \<and> c \<noteq> NUL \<Longrightarrow> length t < kURLMaxSize \<Longrightarrow> setter t st \<noteq> None"
  shows "runs_ok at_bytes (url_part start_char ok setter) at_bytes"
proof (rule runs_okI)
  fix st p assume a: "at_bytes st p"
  obtain mem n where p: "p = (mem, n)" by fastforce
  show "case url_part start_char ok setter st p of Fault \<Rightarrow> False | Stop _ \<Rightarrow> True | Go t b \<Rightarrow> at_bytes t b"
  proof (cases "n = 0")
    case False
    then obtain c mem1 where m: "mem = c # mem1" using a p by (cases mem) (auto simp: at_bytes_def)
    have le: "n - 1 \<le> length mem1" "n - 1 \<le> kURLMaxSize" using a p m by (auto simp: at_bytes_def)
    obtain w mem' n' where s: "copy_while kURLMaxSize ok mem1 (n - 1) = Some (w, mem', n')"
      "n - 1 = length w + n'" "n' \<le> length mem'" "\<forall>c\<in>set w. ok c"
      using copy_while_total[OF le, of ok] by metis
    have w: "length w < kURLMaxSize" using s a p m by (auto simp: at_bytes_def)
    have "\<forall>c\<in>set (c_str w). ok c \<and> c \<noteq> NUL"
      using s(4) set_c_str_subset[of w] c_str_no_nul[of w] by blast
    moreover have "length (c_str w) < kURLMaxSize" using length_c_str_le[of w] w by linarith
    ultimately obtain st' where "setter (c_str w) st = Some st'" using setter by blast
    then show ?thesis using a p m s False w by (auto simp: url_part_def at_bytes_def)
  qed (use a p in \<open>auto simp: url_part_def at_bytes_def\<close>)
qed

lemma url_path_ok: "runs_ok at_bytes url_path at_bytes"
  unfolding url_path_def by (rule url_part_ok, rule set_path_scratch_total) (auto simp: path_char_def)

lemma url_query_ok: "runs_ok at_bytes url_query at_bytes"
  unfolding url_query_def by (rule url_part_ok, rule set_query_scratch_total)

lemma url_fragment_ok: "runs_ok at_bytes url_fragment at_bytes"
  unfolding url_fragment_def by (rule url_part_ok) simp

lemmas url_stage_ok = url_start_ok url_scheme_ok url_host_ok url_port_ok url_path_ok url_query_ok
  url_fragment_ok

lemma url_stages_ok: "runs_ok at_string (url_stages default_port) at_bytes"
  unfolding url_stages_def by (rule runs_ok_seq url_stage_ok)+

text \<open>The count never rises, whatever the buffer.\<close>

lemma url_part_consumes: "consumes (url_part start_char ok setter)"
  by (rule consumesI) (auto simp: url_part_def dest!: copy_while_le split: if_splits list.splits option.splits)

lemma url_start_consumes: "consumes url_start"
  by (rule consumesI) (auto simp: url_start_def Let_def dest!: scan_le split: if_splits option.splits)

lemma url_scheme_consumes: "consumes url_scheme"
  by (rule consumesI) (auto simp: url_scheme_def Let_def dest!: copy_while_le split: if_splits option.splits)

lemma url_host_consumes: "consumes url_host"
  by (rule consumesI) (auto simp: url_host_def dest!: copy_while_le split: if_splits option.splits)

lemma url_port_consumes: "consumes (url_port default_port)"
  by (rule consumesI) (auto simp: url_port_def dest!: copy_while_le split: if_splits list.splits option.splits)

lemma url_stages_consumes: "consumes (url_stages default_port)"
  unfolding url_stages_def url_path_def url_query_def url_fragment_def
  by (intro consumes_seq url_start_consumes url_scheme_consumes url_host_consumes url_port_consumes
      url_part_consumes)

interpretation url_parser: buf_parser "\<lambda>mem n. url_InitFromBuf default_port (Some mem) n"
proof
  fix mem n s t k
  assume "url_InitFromBuf default_port (Some mem) n s = Go t k"
  then obtain mem' n' where r: "url_stages default_port s (mem, n) = Go t (mem', n')" and k: "k = size_sub n n'"
    by (auto simp: url_InitFromBuf_def bind_run_Go)
  have "n' \<le> n" using consumesD[OF url_stages_consumes r] .
  with k show "k \<le> n" using size_sub_le[of n' n] by simp
qed

lemma url_InitFromBuf_safe:
  assumes "NUL \<in> set mem" "len \<le> length mem" "len < kURLMaxSize"
  shows "url_InitFromBuf default_port (Some mem) len st \<noteq> Fault \<and>
    (\<forall>st' k. url_InitFromBuf default_port (Some mem) len st = Go st' k \<longrightarrow> k \<le> len)"
proof -
  have "url_stages default_port st (mem, len) \<noteq> Fault"
    using runs_ok_no_fault[OF url_stages_ok] assms by (simp add: at_string_def)
  then have "url_InitFromBuf default_port (Some mem) len st \<noteq> Fault"
    by (cases "url_stages default_port st (mem, len)") (auto simp: url_InitFromBuf_def)
  then show ?thesis using url_parser.used_le by blast
qed

text \<open>
  C9. URL::InitFromBuf on a NUL-terminated buffer and a count below the 4096 bytes of its scratch
  buffer has no undefined behaviour (no read past the buffer, no overflow of the scratch buffers,
  no counter running below 0), and when it succeeds it has used at most the bytes it was given, so
  the caller may step over them.
\<close>

theorem url_parse_safe:
  assumes "NUL \<in> set mem" "len \<le> length mem" "len < kURLMaxSize"
  shows "url_InitFromBuf default_port (Some mem) len st \<noteq> Fault \<and>
    (\<forall>st' k. url_InitFromBuf default_port (Some mem) len st = Go st' k \<longrightarrow> k \<le> len)"
  by (rule url_InitFromBuf_safe[OF assms])

theorem url_parse_safe_witness:
  "url_InitFromBuf 80 (Some (''a.edu:90/x y'' @ [NUL])) 12 (URL, ErrorHandler) \<noteq> Fault"
  using url_parse_safe[of "''a.edu:90/x y'' @ [NUL]" 12 80 "(URL, ErrorHandler)"]
  by (simp add: kURLMaxSize_def)

subsection \<open>Printing and parsing\<close>

definition clean :: "string \<Rightarrow> bool" where
  "clean s \<longleftrightarrow> no_nul s \<and> \<not> is_str_tainted (Some s)"

definition wf_url :: "16 word \<Rightarrow> url \<Rightarrow> bool" where
  "wf_url default_port u \<longleftrightarrow>
     scheme u \<noteq> [] \<and> clean (scheme u) \<and> list_all (\<lambda>c. c \<noteq> CHR '':'' \<and> \<not> isspace c) (scheme u) \<and>
     host u \<noteq> [] \<and> clean (host u) \<and> list_all host_char (host u) \<and>
     (port u \<noteq> URL_PORT_NULL \<or>
       default_port = URL_PORT_NULL \<and> (path u \<noteq> [] \<or> query u = [] \<and> fragment u = [])) \<and>
     clean (path u) \<and> list_all (\<lambda>c. path_char c \<and> \<not> isspace c) (path u) \<and>
     wf_query (query u) \<and> list_all (\<lambda>q. CHR ''#'' \<notin> set (key q) \<and> CHR ''#'' \<notin> set (qvalue q)) (query u) \<and>
     clean (fragment u) \<and> list_all (\<lambda>c. \<not> isspace c) (fragment u) \<and>
     length (uri_text u) < kURLMaxSize"

lemma untaint_clean [simp]: "clean s \<Longrightarrow> untaint s = s"
  by (simp add: clean_def untaint_def)

lemma url_part_take:
  assumes "\<forall>c\<in>set w. ok c" "m = 0 \<or> rest \<noteq> [] \<and> \<not> ok (hd rest)" "length w < kURLMaxSize"
    "no_nul w" "w \<noteq> []" "setter w st = Some st'"
  shows "url_part start_char ok setter st (start_char # w @ rest, Suc (length w + m)) = Go st' (rest, m)"
proof -
  have "copy_while kURLMaxSize ok (w @ rest) (length w + m) = Some (w, rest, m)"
    using assms by (intro copy_while_until) auto
  with assms show ?thesis by (simp add: url_part_def)
qed

lemma url_part_skip:
  "n = 0 \<or> mem \<noteq> [] \<and> hd mem \<noteq> start_char \<Longrightarrow>
   url_part start_char ok setter st (mem, n) = Go st (mem, n)"
  by (cases mem) (auto simp: url_part_def)

lemma url_start_Go:
  "\<lbrakk>NUL \<in> set (c # mem); c \<noteq> NUL; \<not> isspace c; 0 < n\<rbrakk> \<Longrightarrow>
   url_start st (c # mem, n) = Go (url_clear (fst st), snd st) (c # mem, n)"
  by (cases n) (auto simp: url_start_def read_cstr_def c_str_Cons Let_def)

lemma has_scheme_prefix:
  "CHR '':'' \<notin> set w \<Longrightarrow> has_scheme (w @ ''://'' @ r)"
  by (induction w) (auto simp: has_scheme_def)

text \<open>
  Whatever stands before the first colon is taken for the scheme when two slashes follow it.
\<close>

lemma url_scheme_Go:
  assumes "no_nul w" "CHR '':'' \<notin> set w" "NUL \<in> set r" "length w < kURLMaxSize" "0 < m"
  shows "url_scheme st (w @ ''://'' @ r, length w + (3 + m)) = Go ((fst st)\<lparr>scheme := untaint w\<rparr>, snd st) (r, m)"
proof -
  have c: "c_str (w @ ''://'' @ r) = w @ ''://'' @ c_str r"
    using assms(1) by (simp add: c_str_append_no_nul c_str_Cons)
  have h: "has_scheme (c_str (w @ ''://'' @ r))"
    unfolding c by (rule has_scheme_prefix[OF assms(2)])
  have "copy_while kURLMaxSize (\<lambda>c. c \<noteq> CHR '':'') (w @ ''://'' @ r) (length w + (3 + m))
      = Some (w, ''://'' @ r, 3 + m)"
    using assms by (intro copy_while_until) auto
  with h assms show ?thesis
    by (auto simp: url_scheme_def read_cstr_def set_scheme_def)
qed

lemma url_host_Go:
  assumes "list_all host_char w" "m = 0 \<or> rest \<noteq> [] \<and> \<not> host_char (hd rest)"
    "length w < kURLMaxSize" "no_nul w"
  shows "url_host st (w @ rest, length w + m) = Go ((fst st)\<lparr>host := untaint w\<rparr>, snd st) (rest, m)"
proof -
  have "copy_while kURLMaxSize host_char (w @ rest) (length w + m) = Some (w, rest, m)"
    using assms by (intro copy_while_until) (auto simp: list_all_iff)
  with assms show ?thesis by (simp add: url_host_def set_host_def)
qed

lemma url_port_default:
  "n = 0 \<or> mem \<noteq> [] \<and> hd mem \<noteq> CHR '':'' \<Longrightarrow>
   url_port default_port st (mem, n) = Go ((fst st)\<lparr>port := default_port\<rparr>, snd st) (mem, n)"
  by (cases mem) (auto simp: url_port_def set_port_def)

lemma length_show_nat: "n < 10 ^ k \<Longrightarrow> 0 < k \<Longrightarrow> length (show_nat n) \<le> k"
proof (induction k arbitrary: n)
  case (Suc k)
  show ?case
  proof (cases "n < 10")
    case True
    then show ?thesis by (simp add: show_nat.simps[of n])
  next
    case False
    then have "0 < k" using Suc.prems by (cases k) auto
    moreover have "n div 10 < 10 ^ k" using Suc.prems by (simp add: less_mult_imp_div_less mult.commute)
    ultimately show ?thesis using Suc.IH[of "n div 10"] False by (simp add: show_nat.simps[of n])
  qed
qed simp

lemma url_port_Go:
  assumes "m = 0 \<or> rest \<noteq> [] \<and> \<not> isdigit (hd rest)"
  shows "url_port default_port st (CHR '':'' # show_nat (unat (p :: 16 word)) @ rest, Suc (length (show_nat (unat p)) + m))
    = Go ((fst st)\<lparr>port := p\<rparr>, snd st) (rest, m)"
proof -
  have u: "unat p < 2 ^ 16" using unsigned_less[of p] by simp
  then have "length (show_nat (unat p)) \<le> 5" by (intro length_show_nat) auto
  then have l: "length (show_nat (unat p)) < kURLMaxSize" by (simp add: kURLMaxSize_def)
  have "copy_while kURLMaxSize isdigit (show_nat (unat p) @ rest) (length (show_nat (unat p)) + m)
     = Some (show_nat (unat p), rest, m)"
    using assms show_nat_digits[of "unat p"] l by (intro copy_while_until) auto
  moreover have "strtoul10 (show_nat (unat p)) = unat p"
    using u by (simp add: strtoul10_digits[OF show_nat_digits])
  ultimately show ?thesis using l by (simp add: url_port_def set_port_def)
qed

lemma set_path_scratch:
  assumes "clean t" "\<forall>c\<in>set t. path_char c" "length t < kURLMaxSize" "t \<noteq> []"
  shows "set_path (Some (t @ [NUL])) (length t) st = Some ((fst st)\<lparr>path := t\<rparr>, snd st)"
proof -
  have "copy_while PATH_MAX path_char (t @ [NUL]) (length t) = Some (t, [NUL], 0)"
    using assms by (intro copy_while_all) (auto simp: PATH_MAX_def kURLMaxSize_def)
  moreover have "is_str_tainted (Some (t @ [NUL])) = is_str_tainted (Some t)"
    using assms by (simp add: is_str_tainted_def clean_def c_str_append_no_nul)
  ultimately show ?thesis using assms by (simp add: set_path_def clean_def)
qed

lemma set_query_scratch:
  assumes "wf_query qs" "qs \<noteq> []" "length (query_text qs) < kURLMaxSize"
  shows "set_query (Some (query_text qs @ [NUL])) (length (query_text qs)) st
    = Some ((fst st)\<lparr>query := query (fst st) @ qs\<rparr>, snd st)"
  using query_loop_text[OF assms, of "[]" "query (fst st)"] assms(3)
  by (simp add: set_query_def)

lemma url_clear_URL [simp]: "url_clear u = URL"
  by (cases u) (simp add: url_clear_def URL_def set_port_def)

text \<open>The three optional parts of a printed URL, each read back by its stage.\<close>

definition path_part :: "url \<Rightarrow> string" where
  "path_part u = (if path u \<noteq> [] then ''/'' @ path u else [])"

definition query_part :: "url \<Rightarrow> string" where
  "query_part u = (if query u \<noteq> [] then ''?'' @ query_text (query u) else [])"

definition fragment_part :: "url \<Rightarrow> string" where
  "fragment_part u = (if fragment u \<noteq> [] then ''#'' @ fragment u else [])"

lemma query_text_nonempty: "qs \<noteq> [] \<Longrightarrow> query_text qs \<noteq> []"
  by (cases qs rule: query_text.cases) auto

lemma not_space [simp]: "\<not> isspace (CHR ''='')" "\<not> isspace (CHR ''&'')"
  by (simp_all add: isspace_def)

lemma query_text_set:
  "wf_query qs \<Longrightarrow> set (query_text qs) \<subseteq> {CHR ''='', CHR ''&''} \<union> (\<Union>q\<in>set qs. set (key q) \<union> set (qvalue q))"
  by (induction qs rule: query_text.induct) (auto simp: wf_query_def)

lemma query_text_chars:
  assumes "wf_query qs" "list_all (\<lambda>q. CHR ''#'' \<notin> set (key q) \<and> CHR ''#'' \<notin> set (qvalue q)) qs"
  shows "\<forall>c\<in>set (query_text qs). c \<noteq> CHR ''#'' \<and> \<not> isspace c"
proof
  fix c assume "c \<in> set (query_text qs)"
  then consider "c = CHR ''=''" | "c = CHR ''&''"
    | q where "q \<in> set qs" "c \<in> set (key q) \<or> c \<in> set (qvalue q)"
    using query_text_set[OF assms(1)] by blast
  then show "c \<noteq> CHR ''#'' \<and> \<not> isspace c"
  proof cases
    case 3
    with assms show ?thesis
      unfolding wf_query_def list_all_iff key_char_def value_char_def by metis
  qed simp_all
qed

text \<open>What may follow a printed URL: the end of the count, or white space.\<close>

definition url_end :: "string \<Rightarrow> nat \<Rightarrow> bool" where
  "url_end rest m \<longleftrightarrow> rest \<noteq> [] \<and> NUL \<in> set rest \<and> (m = 0 \<and> hd rest = NUL \<or> isspace (hd rest))"

lemma url_end_stop:
  "url_end rest m \<Longrightarrow> m = 0 \<or> rest \<noteq> [] \<and> isspace (hd rest)"
  "url_end rest m \<Longrightarrow> rest \<noteq> [] \<and> hd rest \<notin> {CHR '':'', CHR ''/'', CHR ''?'', CHR ''#''} \<and> \<not> isdigit (hd rest)"
  by (auto simp: url_end_def isspace_def isdigit_def)

lemma url_fragment_Go:
  assumes "clean (fragment u)" "list_all (\<lambda>c. \<not> isspace c) (fragment u)" "length (fragment u) < kURLMaxSize"
    "fragment (fst st) = []" "url_end rest m"
  shows "url_fragment st (fragment_part u @ rest, length (fragment_part u) + m)
    = Go ((fst st)\<lparr>fragment := fragment u\<rparr>, snd st) (rest, m)"
proof (cases "fragment u = []")
  case True
  with assms(4) have "(fst st)\<lparr>fragment := fragment u\<rparr> = fst st" by simp
  with True url_end_stop(2)[OF assms(5)] show ?thesis
    by (simp add: fragment_part_def url_fragment_def url_part_skip)
next
  case False
  have "m = 0 \<or> rest \<noteq> [] \<and> \<not> \<not> isspace (hd rest)" using url_end_stop(1)[OF assms(5)] by simp
  with assms(1-4) False url_part_take[of "fragment u" "\<lambda>c. \<not> isspace c" m rest]
  show ?thesis
    by (simp add: fragment_part_def url_fragment_def list_all_iff clean_def set_fragment_def untaint_def)
qed

lemma url_query_Go:
  assumes "wf_query (query u)" "list_all (\<lambda>q. CHR ''#'' \<notin> set (key q) \<and> CHR ''#'' \<notin> set (qvalue q)) (query u)"
    "length (query_text (query u)) < kURLMaxSize" "query (fst st) = []" "url_end rest m"
  shows "url_query st (query_part u @ fragment_part u @ rest, length (query_part u) + (length (fragment_part u) + m))
    = Go ((fst st)\<lparr>query := query u\<rparr>, snd st) (fragment_part u @ rest, length (fragment_part u) + m)"
proof (cases "query u = []")
  case True
  with assms(4) have "(fst st)\<lparr>query := query u\<rparr> = fst st" by simp
  with True url_end_stop(2)[OF assms(5)] show ?thesis
    by (auto simp: query_part_def url_query_def fragment_part_def url_part_skip)
next
  case False
  have stop: "length (fragment_part u) + m = 0 \<or> fragment_part u @ rest \<noteq> [] \<and>
      \<not> (hd (fragment_part u @ rest) \<noteq> CHR ''#'' \<and> \<not> isspace (hd (fragment_part u @ rest)))"
    using url_end_stop(1)[OF assms(5)] by (auto simp: fragment_part_def)
  show ?thesis
    using url_part_take[where setter = "\<lambda>t. set_query (Some (t @ [NUL])) (length t)" and st = st
        and ok = "\<lambda>c. c \<noteq> CHR ''#'' \<and> \<not> isspace c",
        OF query_text_chars[OF assms(1,2)] stop assms(3) no_nul_query_text
        query_text_nonempty[OF False] set_query_scratch[OF assms(1) False assms(3)]] False assms(4)
    by (simp add: query_part_def url_query_def)
qed

lemma url_path_Go:
  assumes "clean (path u)" "list_all (\<lambda>c. path_char c \<and> \<not> isspace c) (path u)"
    "length (path u) < kURLMaxSize" "path (fst st) = []" "url_end rest m"
  shows "url_path st (path_part u @ query_part u @ fragment_part u @ rest,
      length (path_part u) + (length (query_part u) + (length (fragment_part u) + m)))
    = Go ((fst st)\<lparr>path := path u\<rparr>, snd st)
        (query_part u @ fragment_part u @ rest, length (query_part u) + (length (fragment_part u) + m))"
proof (cases "path u = []")
  case True
  with assms(4) have "(fst st)\<lparr>path := path u\<rparr> = fst st" by simp
  with True url_end_stop(2)[OF assms(5)] show ?thesis
    by (auto simp: path_part_def query_part_def url_path_def fragment_part_def url_part_skip)
next
  case False
  let ?ok = "\<lambda>c. c \<noteq> CHR ''?'' \<and> c \<noteq> CHR ''#'' \<and> \<not> isspace c"
  let ?rest = "query_part u @ fragment_part u @ rest"
  have chars: "\<forall>c\<in>set (path u). ?ok c" "\<forall>c\<in>set (path u). path_char c"
    using assms(2) by (auto simp: list_all_iff path_char_def)
  have stop: "length (query_part u) + (length (fragment_part u) + m) = 0 \<or> ?rest \<noteq> [] \<and> \<not> ?ok (hd ?rest)"
    using url_end_stop(1)[OF assms(5)] by (auto simp add: fragment_part_def query_part_def)
  have "no_nul (path u)" using assms(1) by (simp add: clean_def)
  from url_part_take[where setter = "\<lambda>t. set_path (Some (t @ [NUL])) (length t)" and st = st and ok = ?ok,
      OF chars(1) stop assms(3) this False set_path_scratch[OF assms(1) chars(2) assms(3) False]]
  show ?thesis using False by (simp add: path_part_def url_path_def)
qed

lemma url_port_part_Go:
  assumes "port u \<noteq> URL_PORT_NULL \<or> default_port = URL_PORT_NULL"
    "hd rest \<noteq> CHR '':'' \<and> \<not> isdigit (hd rest) \<and> rest \<noteq> []"
  shows "url_port default_port st
      ((if port u \<noteq> URL_PORT_NULL then '':'' @ show_nat (unat (port u)) else []) @ rest,
       length (if port u \<noteq> URL_PORT_NULL then '':'' @ show_nat (unat (port u)) else []) + m)
    = Go ((fst st)\<lparr>port := port u\<rparr>, snd st) (rest, m)"
  using assms url_port_Go[of m rest default_port st "port u"] url_port_default[of m rest default_port st]
  by (cases "port u = URL_PORT_NULL") auto

lemma url_tail_Go:
  assumes "wf_url default_port u" "path (fst st) = []" "query (fst st) = []" "fragment (fst st) = []"
    "url_end rest m"
  shows "seq_run url_path (seq_run url_query url_fragment) st
      (path_part u @ query_part u @ fragment_part u @ rest,
       length (path_part u) + (length (query_part u) + (length (fragment_part u) + m)))
    = Go ((fst st)\<lparr>path := path u, query := query u, fragment := fragment u\<rparr>, snd st) (rest, m)"
proof -
  note w = assms(1)[unfolded wf_url_def]
  have nn: "no_nul (path u)" "no_nul (fragment u)" using w by (simp_all add: clean_def)
  have len: "length (uri_text u) < kURLMaxSize" using w by simp
  have l: "length (path u) < kURLMaxSize" "length (query_text (query u)) < kURLMaxSize"
    "length (fragment u) < kURLMaxSize"
    using len nn by (auto simp: uri_text_def abs_path_text_def kURLMaxSize_def split: if_splits)
  have 1: "url_path st (path_part u @ query_part u @ fragment_part u @ rest,
      length (path_part u) + (length (query_part u) + (length (fragment_part u) + m)))
    = Go ((fst st)\<lparr>path := path u\<rparr>, snd st) (query_part u @ fragment_part u @ rest,
        length (query_part u) + (length (fragment_part u) + m))"
    using w l assms(2,5) by (intro url_path_Go) auto
  have 2: "url_query ((fst st)\<lparr>path := path u\<rparr>, snd st) (query_part u @ fragment_part u @ rest,
        length (query_part u) + (length (fragment_part u) + m))
    = Go ((fst st)\<lparr>path := path u, query := query u\<rparr>, snd st) (fragment_part u @ rest, length (fragment_part u) + m)"
    using url_query_Go[of u "((fst st)\<lparr>path := path u\<rparr>, snd st)" rest m] w l assms(3,5) by simp
  have 3: "url_fragment ((fst st)\<lparr>path := path u, query := query u\<rparr>, snd st)
      (fragment_part u @ rest, length (fragment_part u) + m)
    = Go ((fst st)\<lparr>path := path u, query := query u, fragment := fragment u\<rparr>, snd st) (rest, m)"
    using url_fragment_Go[of u "((fst st)\<lparr>path := path u, query := query u\<rparr>, snd st)" rest m] w l assms(4,5)
    by simp
  show ?thesis by (simp only: seq_run_def 1 2 3 bind_run.simps)
qed

lemma url_stages_text:
  assumes "wf_url default_port u" "url_end rest m"
  shows "url_stages default_port (u0, eh) (uri_text u @ rest, length (uri_text u) + m)
    = Go (u, eh) (rest, m)"
proof -
  note w = assms(1)[unfolded wf_url_def]
  have nn: "no_nul (scheme u)" "no_nul (host u)" "no_nul (path u)" "no_nul (fragment u)"
    using w by (simp_all add: clean_def)
  define po where "po = (if port u \<noteq> URL_PORT_NULL then '':'' @ show_nat (unat (port u)) else [])"
  let ?P = "path_part u @ query_part u @ fragment_part u @ rest"
  let ?mP = "length (path_part u) + (length (query_part u) + (length (fragment_part u) + m))"
  have shape: "uri_text u = scheme u @ ''://'' @ host u @ po @ path_part u @ query_part u @ fragment_part u"
    using nn w by (simp add: uri_text_def authority_text_def abs_path_text_def po_def path_part_def
        query_part_def fragment_part_def)
  have len: "length (uri_text u) < kURLMaxSize" using w by simp
  have l: "length (scheme u) < kURLMaxSize" "length (host u) < kURLMaxSize"
    using len by (auto simp: shape kURLMaxSize_def)
  obtain sc scs where sc: "scheme u = sc # scs" using w by (cases "scheme u") auto
  let ?n = "length (uri_text u) + m"
  let ?u1 = "URL\<lparr>scheme := scheme u\<rparr>"
  have n: "?n = length (scheme u) + (3 + (length (host u) + (length po + ?mP)))" by (simp add: shape)
  have nul: "NUL \<in> set rest" using assms(2) by (simp add: url_end_def)
  have 1: "url_start (u0, eh) (uri_text u @ rest, ?n) = Go (URL, eh) (uri_text u @ rest, ?n)"
    using w nn(1) nul url_start_Go[of sc "tl (uri_text u @ rest)" ?n "(u0, eh)"]
    by (auto simp add: shape sc)
  have a: "CHR '':'' \<notin> set (scheme u)" using w by (auto simp: list_all_iff)
  have b: "NUL \<in> set (host u @ po @ ?P)" using nul by simp
  have c: "0 < length (host u) + (length po + ?mP)" using w by simp
  have t: "uri_text u @ rest = scheme u @ ''://'' @ host u @ po @ ?P" by (simp add: shape)
  have 2: "url_scheme (URL, eh) (uri_text u @ rest, ?n)
      = Go (?u1, eh) (host u @ po @ ?P, length (host u) + (length po + ?mP))"
    unfolding t n using url_scheme_Go[OF nn(1) a b l(1) c, of "(URL, eh)"] w by simp
  have stop: "length po + ?mP = 0 \<or> po @ ?P \<noteq> [] \<and> \<not> host_char (hd (po @ ?P))"
    using w url_end_stop(1)[OF assms(2)]
    by (auto simp: po_def path_part_def query_part_def fragment_part_def host_char_def)
  have 3: "url_host (?u1, eh) (host u @ po @ ?P, length (host u) + (length po + ?mP))
      = Go (?u1\<lparr>host := host u\<rparr>, eh) (po @ ?P, length po + ?mP)"
    using url_host_Go[OF _ stop l(2) nn(2), of "(?u1, eh)"] w by simp
  have "hd ?P \<noteq> CHR '':'' \<and> \<not> isdigit (hd ?P) \<and> ?P \<noteq> []"
    using url_end_stop(2)[OF assms(2)]
    by (auto simp: path_part_def query_part_def fragment_part_def isdigit_def)
  then have 4: "url_port default_port (?u1\<lparr>host := host u\<rparr>, eh) (po @ ?P, length po + ?mP)
      = Go (?u1\<lparr>host := host u, port := port u\<rparr>, eh) (?P, ?mP)"
    using url_port_part_Go[of u default_port ?P "(?u1\<lparr>host := host u\<rparr>, eh)" ?mP] w
    by (simp add: po_def)
  have 5: "seq_run url_path (seq_run url_query url_fragment)
      (?u1\<lparr>host := host u, port := port u\<rparr>, eh) (?P, ?mP) = Go (u, eh) (rest, m)"
    using url_tail_Go[OF assms(1) _ _ _ assms(2), of "(?u1\<lparr>host := host u, port := port u\<rparr>, eh)"]
    by (simp add: URL_def)
  show ?thesis
    by (simp only: url_stages_def seq_run_def[of url_start] seq_run_def[of url_scheme]
        seq_run_def[of url_host] seq_run_def[of "url_port _"] 1 2 3 4 5 bind_run.simps)
qed

text \<open>The same for InitFromBuf: a URL followed by white space, as in a request line.\<close>

lemma url_InitFromBuf_text:
  assumes "wf_url default_port u" "url_end rest m" "length (uri_text u) + m < 2 ^ 64"
  shows "url_InitFromBuf default_port (Some (uri_text u @ rest)) (length (uri_text u) + m) (u0, eh)
    = Go (u, eh) (length (uri_text u))"
  using url_stages_text[OF assms(1,2)] assms(3) size_sub_exact[of m "length (uri_text u) + m"]
  by (simp add: url_InitFromBuf_def)

text \<open>
  C15. Printing a well-formed URL with print and parsing the result with InitFromBuf gives the URL
  back, with no error recorded and every byte used: scheme, host, port, path, every key and value
  of the query, and the fragment. Well-formed excludes what the syntax cannot carry (delimiters
  inside a component, white space, tainted characters, a text above the 4095 characters of the
  print buffer).
\<close>

theorem url_roundtrip:
  assumes "wf_url default_port u"
  shows "url_InitFromBuf default_port (Some (url_print u)) (length (c_str (url_print u))) (u0, eh)
    = Go (u, eh) (length (c_str (url_print u)))"
proof -
  have len: "length (uri_text u) < kURLMaxSize" using assms by (simp add: wf_url_def)
  then obtain junk where zf: "url_print u = uri_text u @ NUL # junk"
    by (cases "kURLMaxSize - length (uri_text u)") (simp_all add: url_print_def print_absoluteURI_eq zfill_def)
  have c: "c_str (url_print u) = uri_text u"
    using len by (simp add: url_print_def print_absoluteURI_eq)
  have "length (uri_text u) + 0 < 2 ^ 64" using len by (simp add: kURLMaxSize_def)
  moreover have "url_end (NUL # junk) 0" by (simp add: url_end_def)
  ultimately show ?thesis
    unfolding c using url_InitFromBuf_text[OF assms, of "NUL # junk" 0] by (simp add: zf)
qed

theorem url_roundtrip_witness:
  "url_InitFromBuf 80
     (Some (url_print \<lparr>scheme = ''http'', host = ''blah'', port = 13500, path = ''fnord'',
        query = [\<lparr>key = ''who'', qvalue = ''lovecraft''\<rparr>], fragment = ''arkham''\<rparr>)) 44 (URL, ErrorHandler)
   = Go (\<lparr>scheme = ''http'', host = ''blah'', port = 13500, path = ''fnord'',
        query = [\<lparr>key = ''who'', qvalue = ''lovecraft''\<rparr>], fragment = ''arkham''\<rparr>, ErrorHandler) 44"
proof -
  let ?u = "\<lparr>scheme = ''http'', host = ''blah'', port = 13500, path = ''fnord'',
        query = [\<lparr>key = ''who'', qvalue = ''lovecraft''\<rparr>], fragment = ''arkham''\<rparr>"
  have t: "uri_text ?u = ''http://blah:13500/fnord?who=lovecraft#arkham''"
    by (simp add: uri_text_def authority_text_def abs_path_text_def c_str_def URL_PORT_NULL_def
        show_nat.simps)
  have c: "c_str (url_print ?u) = ''http://blah:13500/fnord?who=lovecraft#arkham''"
    using t by (simp add: url_print_def print_absoluteURI_eq kURLMaxSize_def)
  have "wf_url 80 ?u"
    unfolding wf_url_def t by (simp add: clean_def is_str_tainted_def isspace_def host_char_def path_char_def
       wf_query_def key_char_def value_char_def URL_PORT_NULL_def kURLMaxSize_def)
  from url_roundtrip[OF this, of URL ErrorHandler] show ?thesis by (simp add: c eval_nat_numeral)
qed

text \<open>
  Printing is total and bounded: print returns 4096 bytes, the text of the URL (scheme, host,
  port, path, query pairs joined by an ampersand, fragment) cut to the 4095 characters that fit,
  then NULs, for every URL.
\<close>

theorem url_print_bounded:
  "c_str (url_print u) = take (kURLMaxSize - 1) (uri_text u) \<and> length (url_print u) = kURLMaxSize"
  by (simp add: url_print_def print_absoluteURI_eq kURLMaxSize_def)

subsection \<open>Two defects\<close>

text \<open>
  set_path given a path with a query never records the query: called with the length of the
  string, it passes set_query the bytes from the question mark with a count that ends one byte
  before the terminator, so set_query always rejects them and records an error; the path is set.
\<close>

theorem set_path_loses_query:
  assumes "clean (p @ ''?'' @ q)" "\<forall>c\<in>set p. path_char c" "length p \<le> PATH_MAX"
    "length p + 1 + length q < 2 ^ 64"
  shows "set_path (Some (p @ ''?'' @ q @ [NUL])) (length p + 1 + length q) (u, eh) =
    Some (u\<lparr>path := p\<rparr>, error_Init EX_SOFTWARE
      (Some ''URL::set_query(): buf is not null terminated or too large'') eh)"
proof -
  have nn: "no_nul p" "no_nul q" "no_nul (p @ ''?'' @ q)" using assms(1) by (simp_all add: clean_def)
  have c: "c_str (p @ ''?'' @ q @ [NUL]) = p @ ''?'' @ q"
    using nn c_str_append_no_nul[of "p @ ''?'' @ q" "[NUL]"] by simp
  then have t: "\<not> is_str_tainted (Some (p @ ''?'' @ q @ [NUL]))"
    using assms(1) nn by (simp add: clean_def is_str_tainted_def)
  have w: "copy_while PATH_MAX path_char (p @ CHR ''?'' # (q @ [NUL])) (length p + (1 + length q))
      = Some (p, CHR ''?'' # (q @ [NUL]), 1 + length q)"
    using assms(2,3) by (intro copy_while_stop) (auto simp: path_char_def)
  have s: "size_sub (Suc (length p + length q)) (Suc (length p)) = length q"
    using assms(4) by (simp add: size_sub_exact)
  have "(''?'' @ q @ [NUL]) ! length q \<noteq> NUL"
  proof (cases q rule: rev_cases)
    case (snoc r c)
    then have "(''?'' @ q @ [NUL]) ! length q = c" by (simp add: nth_append)
    with nn(2) snoc show ?thesis by auto
  qed simp
  with t w s show ?thesis by (simp add: set_path_def set_query_def)
qed

theorem set_path_loses_query_witness:
  "map_option (\<lambda>(u, eh). (path u, query u, event_flag eh))
     (set_path (Some (''a?k=v'' @ [NUL])) (length ''a?k=v'') (URL, ErrorHandler)) = Some (''a'', [], True)"
  using set_path_loses_query[of "''a''" "''k=v''" URL ErrorHandler]
  by (simp add: clean_def is_str_tainted_def path_char_def PATH_MAX_def URL_def error_Init_def Let_def)

text \<open>The stages after the scheme leave it alone.\<close>

lemma url_part_keeps_scheme:
  assumes "\<And>t st st'. setter t st = Some st' \<Longrightarrow> scheme (fst st') = scheme (fst st)"
    "url_part d ok setter st p = Go st' p'"
  shows "scheme (fst st') = scheme (fst st)"
  using assms(2) by (cases p) (auto simp: url_part_def dest: assms(1) split: if_splits list.splits option.splits)

lemma set_query_keeps_scheme: "set_query b n st = Some st' \<Longrightarrow> scheme (fst st') = scheme (fst st)"
  by (auto simp: set_query_def split: option.splits if_splits bool.splits)

lemma set_path_keeps_scheme: "set_path b n st = Some st' \<Longrightarrow> scheme (fst st') = scheme (fst st)"
  by (auto simp: set_path_def set_fragment_def Let_def dest!: set_query_keeps_scheme
      split: option.splits if_splits list.splits)

lemma url_after_scheme:
  assumes "seq_run url_host (seq_run (url_port d) (seq_run url_path (seq_run url_query url_fragment))) st p = Go st' p'"
  shows "scheme (fst st') = scheme (fst st)"
proof -
  obtain s1 p1 s2 p2 s3 p3 s4 p4 where r: "url_host st p = Go s1 p1" "url_port d s1 p1 = Go s2 p2"
    "url_path s2 p2 = Go s3 p3" "url_query s3 p3 = Go s4 p4" "url_fragment s4 p4 = Go st' p'"
    using assms unfolding seq_run_def bind_run_Go by blast
  have "scheme (fst s1) = scheme (fst st)"
    using r(1) by (cases p) (auto simp: url_host_def set_host_def split: option.splits)
  moreover have "scheme (fst s2) = scheme (fst s1)"
    using r(2) by (cases p1) (auto simp: url_port_def set_port_def split: option.splits list.splits if_splits)
  moreover have "scheme (fst s3) = scheme (fst s2)"
    using r(3) unfolding url_path_def by (rule url_part_keeps_scheme[rotated]) (rule set_path_keeps_scheme)
  moreover have "scheme (fst s4) = scheme (fst s3)"
    using r(4) unfolding url_query_def by (rule url_part_keeps_scheme[rotated]) (rule set_query_keeps_scheme)
  moreover have "scheme (fst st') = scheme (fst s4)"
    using r(5) unfolding url_fragment_def
    by (rule url_part_keeps_scheme[rotated]) (auto simp: set_fragment_def split: option.splits)
  ultimately show ?thesis by simp
qed

text \<open>
  The scheme is everything before the first colon of the buffer when two slashes follow that
  colon, wherever it stands: a URL without a scheme whose path or query carries another URL
  (a.edu/go?u=http://b.edu) is parsed with its host, path and query key inside the scheme.
\<close>

theorem scheme_spans_to_first_colon:
  assumes "clean w" "w \<noteq> []" "CHR '':'' \<notin> set w" "\<not> isspace (hd w)" "length w < kURLMaxSize"
    "NUL \<in> set r" "0 < m"
    "url_InitFromBuf default_port (Some (w @ ''://'' @ r)) (length w + (3 + m)) (u0, eh) = Go (u, eh') k"
  shows "scheme u = w"
proof -
  obtain c cs where w: "w = c # cs" using assms(2) by (cases w) auto
  have nn: "no_nul w" using assms(1) by (simp add: clean_def)
  let ?p = "(w @ ''://'' @ r, length w + (3 + m))"
  have 1: "url_start (u0, eh) ?p = Go (URL, eh) ?p"
    using url_start_Go[of c "cs @ ''://'' @ r" "length w + (3 + m)" "(u0, eh)"] assms(4,6) nn w by auto
  have 2: "url_scheme (URL, eh) ?p = Go (URL\<lparr>scheme := w\<rparr>, eh) (r, m)"
    using url_scheme_Go[OF nn assms(3,6,5,7), of "(URL, eh)"] assms(1) by simp
  have "url_stages default_port (u0, eh) ?p =
      seq_run url_host (seq_run (url_port default_port) (seq_run url_path (seq_run url_query url_fragment)))
        (URL\<lparr>scheme := w\<rparr>, eh) (r, m)"
    by (simp only: url_stages_def seq_run_def[of url_start] seq_run_def[of url_scheme] 1 2 bind_run.simps)
  with assms(8) obtain p' where
    "seq_run url_host (seq_run (url_port default_port) (seq_run url_path (seq_run url_query url_fragment)))
        (URL\<lparr>scheme := w\<rparr>, eh) (r, m) = Go (u, eh') p'"
    by (auto simp: url_InitFromBuf_def bind_run_Go)
  from url_after_scheme[OF this] show ?thesis by simp
qed

theorem scheme_spans_to_first_colon_witness:
  "\<exists>u eh k. url_InitFromBuf 80 (Some (''a.edu/go?u=http://b'' @ [NUL])) 19 (URL, ErrorHandler) = Go (u, eh) k
     \<and> scheme u = ''a.edu/go?u=http''"
proof -
  have "case url_InitFromBuf 80 (Some (''a.edu/go?u=http'' @ ''://'' @ ''b'' @ [NUL])) (length ''a.edu/go?u=http'' + (3 + 1)) (URL, ErrorHandler)
      of Go _ _ \<Rightarrow> True | _ \<Rightarrow> False"
    by (simp add: url_InitFromBuf_def url_stages_def seq_run_def url_start_def url_scheme_def url_host_def
        url_port_def url_path_def url_query_def url_fragment_def url_part_def copy_while_def read_cstr_def
        c_str_def isspace_def host_char_def has_scheme_def kURLMaxSize_def numeral_3_eq_3)
  then obtain u eh k where r: "url_InitFromBuf 80 (Some (''a.edu/go?u=http'' @ ''://'' @ ''b'' @ [NUL]))
      (length ''a.edu/go?u=http'' + (3 + 1)) (URL, ErrorHandler) = Go (u, eh) k"
    by (auto split: run.splits)
  have "scheme u = ''a.edu/go?u=http''"
    by (rule scheme_spans_to_first_colon[OF _ _ _ _ _ _ _ r])
       (simp_all add: clean_def is_str_tainted_def isspace_def kURLMaxSize_def)
  with r show ?thesis by auto
qed

subsection \<open>Comparison\<close>

text \<open>No zero-extended 32-bit address is the 64-bit value the reverse lookup tests for.\<close>

lemma reverse_dns_is_identity: "get_reverse_dns inet_addr resolve h = Some h"
proof -
  have x: "unat (inet_addr h) < 2 ^ 32" using unsigned_less[of "inet_addr h"] by simp
  then have "unat (ucast (inet_addr h) :: 64 word) < 2 ^ 32" by (simp add: unsigned_ucast_eq take_bit_nat_eq_self)
  moreover have "unat (- 1 :: 64 word) = 2 ^ 64 - 1" by (simp add: unsigned_minus_1_eq_mask mask_eq_exp_minus_1)
  ultimately have "(ucast (inet_addr h) :: 64 word) \<noteq> - 1" by auto
  then show ?thesis by (simp add: get_reverse_dns_def)
qed

text \<open>
  What the tuple comparison decides, on a platform with a 64-bit unsigned long: it never has
  undefined behaviour, the name service has no influence on it, and the answer is that of the plain
  comparison of the host names (as C strings) and of the ports, where a port that is not set matches
  any other unless the match is to be exact.
\<close>

theorem compare_tuples_decides:
  "CompareTuples inet_addr resolve u v exact_port =
     Some ((host u = host v \<or> c_str (host u) \<noteq> [] \<and> c_str (host u) = c_str (host v))
       \<and> (port u = port v \<or> \<not> exact_port \<and> (port u = URL_PORT_NULL \<or> port v = URL_PORT_NULL)))"
  by (auto simp: CompareTuples_def reverse_dns_is_identity Let_def)

end
