(* ===== verification/Http_Header.thy ===== *)
theory Http_Header
  imports Url
begin

text \<open>
  The HTTPFraming object (HTTPFraming.h, HTTPFraming.cc) without its parser: the name tables, the
  message-header list with its lookups and its two append routines, the mutators and initialisers,
  and the bounded printers. A table indexed outside its bounds is undefined behaviour, None.
\<close>

section \<open>Message headers\<close>

record rfc822_parameter =
  pkey :: string
  pvalue :: string

record rfc822_msg_hdr =
  field_name :: string
  field_value :: string
  parameters :: "rfc822_parameter list"

definition MIME_CONTENT_LENGTH :: string where "MIME_CONTENT_LENGTH = ''Content-Length''"
definition MIME_CONTENT_TYPE :: string where "MIME_CONTENT_TYPE = ''Content-Type''"
definition MIME_TRANSFER_ENCODING :: string where "MIME_TRANSFER_ENCODING = ''Transfer-Encoding''"
definition MIME_CHUNKED :: string where "MIME_CHUNKED = ''chunked''"
definition HTTPFRAMING_CONNECTION :: string where "HTTPFRAMING_CONNECTION = ''Connection''"

text \<open>The loop of the lookups: the first header of that name, compared without case.\<close>

fun find_hdr :: "string \<Rightarrow> rfc822_msg_hdr list \<Rightarrow> rfc822_msg_hdr option" where
  "find_hdr n [] = None"
| "find_hdr n (h # hs) = (if same_name (field_name h) n then Some h else find_hdr n hs)"

section \<open>Constants and tables\<close>

definition NOT_READY :: int where "NOT_READY = 0"
definition REQUEST :: int where "REQUEST = 1"
definition RESPONSE :: int where "RESPONSE = 2"
definition READY :: int where "READY = 3"

definition METHOD_NULL :: int where "METHOD_NULL = 0"
definition GET :: int where "GET = 1"
definition HEAD :: int where "HEAD = 2"
definition POST :: int where "POST = 3"
definition PUT :: int where "PUT = 4"
definition DELETE :: int where "DELETE = 5"
definition TRACE :: int where "TRACE = 6"
definition CONNECT :: int where "CONNECT = 7"
definition OPTIONS :: int where "OPTIONS = 8"

definition HTTPFRAMING_VERSION_MAJOR :: int where "HTTPFRAMING_VERSION_MAJOR = 1"
definition HTTPFRAMING_VERSION_MINOR :: int where "HTTPFRAMING_VERSION_MINOR = 1"
definition HTTPFRAMING_STATUS_CODE_NULL :: int where "HTTPFRAMING_STATUS_CODE_NULL = 0"
definition SCRATCH_BUF_SIZE :: nat where "SCRATCH_BUF_SIZE = 1024 * 4"

definition kNumMethods :: int where "kNumMethods = 9"

definition method_names :: "string list" where
  "method_names = [''NONE'', ''GET'', ''HEAD'', ''POST'', ''PUT'', ''DELETE'', ''TRACE'', ''CONNECT'', ''OPTIONS'']"

definition type_names :: "string list" where
  "type_names = [''NOT READY'', ''REQUEST'', ''RESPONSE'']"

definition code_200_phrases :: "string list" where
  "code_200_phrases = [''OK'', ''Created'', ''Accepted'', ''Non-Authoritative Information'', ''No Content'']"

definition code_400_phrases :: "string list" where
  "code_400_phrases = [''Bad Request'', ''Unauthorized'', ''Payment Required'', ''Forbidden'', ''Method Not Allowed'']"

definition code_500_phrases :: "string list" where
  "code_500_phrases = [''Internal Server Error'', ''Not Implemented'', ''Bad Gateway'',
     ''Service Unavailable'', ''Gateway Time-out'', ''HTTP Version not supported'']"

definition table_at :: "string list \<Rightarrow> int \<Rightarrow> string option" where
  "table_at t i = (if 0 \<le> i \<and> i < int (length t) then Some (t ! nat i) else None)"

definition status_code_phrase :: "int \<Rightarrow> string option" where
  "status_code_phrase c =
     (if 200 \<le> c \<and> c \<le> 204 then table_at code_200_phrases (c - 200)
      else if 400 \<le> c \<and> c \<le> 404 then table_at code_400_phrases (c - 400)
      else if 500 \<le> c \<and> c \<le> 505 then table_at code_500_phrases (c - 500)
      else Some ''NULL Status Phrase'')"

definition method_name :: "int \<Rightarrow> string option" where
  "method_name m = (if m < 0 \<or> m > kNumMethods then table_at method_names 0 else table_at method_names m)"

definition start_line_name :: "int \<Rightarrow> string option" where
  "start_line_name t = (if t < 0 \<or> t > 3 then table_at type_names 0 else table_at type_names t)"

fun method_id_loop :: "string \<Rightarrow> int \<Rightarrow> string list \<Rightarrow> int" where
  "method_id_loop name i [] = - 1"
| "method_id_loop name i (m # ms) =
     (if strncaseeq m name (nat kNumMethods) then i else method_id_loop name (i + 1) ms)"

definition method_id :: "string \<Rightarrow> int" where
  "method_id name = method_id_loop name 0 method_names"

section \<open>The object\<close>

record http =
  msg_type :: int
  major :: int
  minor :: int
  http_method :: int
  status_code :: int
  uri :: url
  msg_hdrs :: "rfc822_msg_hdr list"

definition HTTPFraming :: http where
  "HTTPFraming = \<lparr>msg_type = NOT_READY, major = HTTPFRAMING_VERSION_MAJOR,
     minor = HTTPFRAMING_VERSION_MINOR, http_method = METHOD_NULL,
     status_code = HTTPFRAMING_STATUS_CODE_NULL, uri = URL, msg_hdrs = []\<rparr>"

text \<open>The copies again miss no member; the URL is copied with its own operations.\<close>

definition http_copy :: "http \<Rightarrow> http" where
  "http_copy src = \<lparr>msg_type = msg_type src, major = major src, minor = minor src, http_method = http_method src,
     status_code = status_code src, uri = url_copy (uri src), msg_hdrs = msg_hdrs src\<rparr>"

definition http_assign :: "http \<Rightarrow> http \<Rightarrow> http" where
  "http_assign h src = h\<lparr>major := major src, minor := minor src, msg_type := msg_type src, msg_hdrs := msg_hdrs src,
     http_method := http_method src, status_code := status_code src, uri := url_assign (uri h) (uri src)\<rparr>"

lemma http_copies [simp]: "http_copy src = src" "http_assign h src = src"
  by (simp_all add: http_copy_def http_assign_def)

definition msg_len :: "http \<Rightarrow> nat" where
  "msg_len h = (case find_hdr MIME_CONTENT_LENGTH (msg_hdrs h) of
      Some m \<Rightarrow> to_size_t (strtol 10 (field_value m))
    | None \<Rightarrow> 0)"

definition content_type :: "http \<Rightarrow> string" where
  "content_type h = (case find_hdr MIME_CONTENT_TYPE (msg_hdrs h) of
      Some m \<Rightarrow> field_value m
    | None \<Rightarrow> ''NULL-Content-Type'')"

definition transfer_encoding :: "http \<Rightarrow> string" where
  "transfer_encoding h = (case find_hdr MIME_TRANSFER_ENCODING (msg_hdrs h) of
      Some m \<Rightarrow> field_value m
    | None \<Rightarrow> [])"

definition empty_hdr :: rfc822_msg_hdr where
  "empty_hdr = \<lparr>field_name = [], field_value = [], parameters = []\<rparr>"

definition msg_hdr :: "string option \<Rightarrow> http \<Rightarrow> rfc822_msg_hdr" where
  "msg_hdr name h = (case name of
      None \<Rightarrow> empty_hdr
    | Some n \<Rightarrow> (case find_hdr n (msg_hdrs h) of Some m \<Rightarrow> m | None \<Rightarrow> empty_hdr))"

definition set_uri :: "url \<Rightarrow> http \<Rightarrow> http" where "set_uri u h = h\<lparr>uri := u\<rparr>"
definition set_method :: "int \<Rightarrow> http \<Rightarrow> http" where "set_method m h = h\<lparr>http_method := m\<rparr>"
definition set_status_code :: "int \<Rightarrow> http \<Rightarrow> http" where "set_status_code c h = h\<lparr>status_code := c\<rparr>"

text \<open>The first Connection header is rewritten in place; the loop ends at end() if there is none.\<close>

fun set_first_value :: "string \<Rightarrow> string \<Rightarrow> rfc822_msg_hdr list \<Rightarrow> rfc822_msg_hdr list option" where
  "set_first_value n v [] = None"
| "set_first_value n v (h # hs) =
     (if same_name (field_name h) n then Some (h\<lparr>field_value := v\<rparr> # hs)
      else map_option (\<lambda>hs'. h # hs') (set_first_value n v hs))"

definition connection_value :: "int \<Rightarrow> string" where
  "connection_value c = (if c \<noteq> 0 then ''close'' else ''open'')"

definition set_connection :: "int \<Rightarrow> http \<Rightarrow> http" where
  "set_connection c h =
     (case set_first_value HTTPFRAMING_CONNECTION (connection_value c) (msg_hdrs h) of
        Some hs \<Rightarrow> h\<lparr>msg_hdrs := hs\<rparr>
      | None \<Rightarrow> h\<lparr>msg_hdrs := msg_hdrs h @
          [\<lparr>field_name = HTTPFRAMING_CONNECTION, field_value = connection_value c, parameters = []\<rparr>]\<rparr>)"

definition http_clear :: "http \<Rightarrow> http" where
  "http_clear h = h\<lparr>major := HTTPFRAMING_VERSION_MAJOR, minor := HTTPFRAMING_VERSION_MINOR,
     msg_type := NOT_READY, http_method := METHOD_NULL, msg_hdrs := [], uri := url_clear (uri h),
     status_code := 0\<rparr>"

definition InitRequest :: "int \<Rightarrow> url \<Rightarrow> http \<Rightarrow> http" where
  "InitRequest m u h = set_uri u (set_method m ((http_clear h)\<lparr>msg_type := REQUEST\<rparr>))"

definition InitResponse :: "int \<Rightarrow> int \<Rightarrow> http \<Rightarrow> http" where
  "InitResponse code connection h =
     set_connection connection (set_status_code code ((http_clear h)\<lparr>msg_type := RESPONSE\<rparr>))"

type_synonym http_st = "http \<times> errh"

definition already_exists :: "string \<Rightarrow> string" where
  "already_exists n = ''HTTPFraming::AppendMsgHdr(): TODO(aka) Attempting to install '' @ c_str n @
     '', but already exists!''"

text \<open>AppendMsgHdr on a header object, and the convenience version on C strings.\<close>

definition AppendMsgHdr :: "rfc822_msg_hdr \<Rightarrow> http_st \<Rightarrow> http_st" where
  "AppendMsgHdr m st = (case find_hdr (field_name m) (msg_hdrs (fst st)) of
      Some _ \<Rightarrow> (fst st, error_Init EX_SOFTWARE (Some (already_exists (field_name m))) (snd st))
    | None \<Rightarrow> ((fst st)\<lparr>msg_hdrs := msg_hdrs (fst st) @ [m]\<rparr>, snd st))"

definition AppendMsgHdr_fields ::
  "string option \<Rightarrow> string option \<Rightarrow> string option \<Rightarrow> string option \<Rightarrow> http_st \<Rightarrow> http_st" where
  "AppendMsgHdr_fields name val k v st = (case name of
      None \<Rightarrow> (fst st, error_Init EX_SOFTWARE (Some ''HTTPFraming::AppendMsgHdr(): field_name is NULL'') (snd st))
    | Some n \<Rightarrow> (case val of
        None \<Rightarrow> (fst st, error_Init EX_SOFTWARE (Some ''HTTPFraming::AppendMsgHdr(): field_value is NULL'') (snd st))
      | Some x \<Rightarrow>
          (case find_hdr n (msg_hdrs (fst st)) of
             Some _ \<Rightarrow> (fst st, error_Init EX_SOFTWARE (Some (already_exists n)) (snd st))
           | None \<Rightarrow>
               (let ps = (case (k, v) of (Some k', Some v') \<Rightarrow> [\<lparr>pkey = c_str k', pvalue = c_str v'\<rparr>] | _ \<Rightarrow> [])
                in ((fst st)\<lparr>msg_hdrs := msg_hdrs (fst st) @
                     [\<lparr>field_name = c_str n, field_value = c_str x, parameters = ps\<rparr>]\<rparr>, snd st)))))"

section \<open>Printing\<close>

abbreviation CRLF :: string where "CRLF \<equiv> [CR, LF]"

definition print_start_line :: "bool \<Rightarrow> http \<Rightarrow> string option" where
  "print_start_line abs_path h =
     (let ver = ''HTTP/'' @ show_int (major h) @ ''.'' @ show_int (minor h)
      in map_option (\<lambda>line. zfill SCRATCH_BUF_SIZE (sn_print SCRATCH_BUF_SIZE [line]))
        (if http_method h \<noteq> METHOD_NULL
         then map_option (\<lambda>m. m @ '' '' @
                c_str (if abs_path then print_abs_path (uri h) else print_absoluteURI (uri h)) @ '' '' @ ver)
                (table_at method_names (http_method h))
         else map_option (\<lambda>phrase. ver @ '' '' @ show_int (status_code h) @ '' '' @ phrase)
                (status_code_phrase (status_code h))))"

fun print_params :: "rfc822_parameter list \<Rightarrow> string list" where
  "print_params [] = []"
| "print_params [p] = [c_str (pkey p) @ ''='' @ c_str (pvalue p), CRLF]"
| "print_params (p # q # ps) = [c_str (pkey p) @ ''='' @ c_str (pvalue p), ''; ''] @ print_params (q # ps)"

definition print_one_hdr :: "rfc822_msg_hdr \<Rightarrow> string list" where
  "print_one_hdr m = (if parameters m \<noteq> []
     then (c_str (field_name m) @ '': '' @ c_str (field_value m) @ ''; '') # print_params (parameters m)
     else [c_str (field_name m) @ '': '' @ c_str (field_value m) @ CRLF])"

definition print_msg_hdrs :: "http \<Rightarrow> string" where
  "print_msg_hdrs h = zfill SCRATCH_BUF_SIZE
     (sn_print SCRATCH_BUF_SIZE (concat (map print_one_hdr (msg_hdrs h))))"

definition print_hdr :: "int \<Rightarrow> bool \<Rightarrow> http \<Rightarrow> string option" where
  "print_hdr offset abs_path h =
     map_option (\<lambda>line.
        let tmp_str = zfill SCRATCH_BUF_SIZE
              (sn_print SCRATCH_BUF_SIZE [c_str line @ CRLF @ c_str (print_msg_hdrs h) @ CRLF])
        in if to_size_t offset \<le> length tmp_str then drop (to_size_t offset) tmp_str else tmp_str)
       (print_start_line abs_path h)"

definition hdr_len :: "bool \<Rightarrow> http \<Rightarrow> nat option" where
  "hdr_len abs_path h = map_option (\<lambda>s. length (c_str s)) (print_hdr 0 abs_path h)"

definition http_print :: "http \<Rightarrow> string option" where
  "http_print h = (case hdr_len False h of
      None \<Rightarrow> None
    | Some hl \<Rightarrow>
        (let nums = '' '' @ show_nat (msg_len h) @ '' '' @ show_nat hl;
             ver = ''HTTP/'' @ show_int (major h) @ ''.'' @ show_int (minor h)
         in map_option (\<lambda>s. zfill SCRATCH_BUF_SIZE (sn_print SCRATCH_BUF_SIZE [s]))
           (if http_method h \<noteq> METHOD_NULL
            then map_option (\<lambda>m. m @ '' '' @ c_str (url_print (uri h)) @ '' '' @ ver @ nums @ '' '' @
                   c_str (content_type h)) (table_at method_names (http_method h))
            else if status_code h \<noteq> HTTPFRAMING_STATUS_CODE_NULL
            then Some (ver @ '' '' @ show_int (status_code h) @ nums @ '' '' @ c_str (content_type h))
            else Some (show_int (http_method h) @ '' '' @ show_int (status_code h) @ nums))))"

definition IsWSDLRequest :: "http \<Rightarrow> bool" where
  "IsWSDLRequest h = False"

section \<open>The header list as a store\<close>

text \<open>
  The contract of the header list: install adds a header whose name is new and reports a failure,
  changing nothing, for a name already there; lookups see the first header of a name.
\<close>

locale header_store =
  fixes lookup :: "string \<Rightarrow> 's \<Rightarrow> 'v option"
    and name_of :: "'v \<Rightarrow> string"
    and install :: "'v \<Rightarrow> 's \<Rightarrow> 's"
    and failed :: "'s \<Rightarrow> bool"
  assumes lookup_new: "lookup (name_of v) s = None \<Longrightarrow>
      lookup n (install v s) = (if same_name (name_of v) n then Some v else lookup n s)"
    and lookup_old: "lookup (name_of v) s = Some w \<Longrightarrow> lookup n (install v s) = lookup n s"
    and failed_new: "lookup (name_of v) s = None \<Longrightarrow> failed (install v s) = failed s"
    and failed_old: "lookup (name_of v) s = Some w \<Longrightarrow> failed (install v s)"
    and lookup_cong: "same_name n n' \<Longrightarrow> lookup n s = lookup n' s"
begin

lemma lookup_kept: "lookup n s = Some w \<Longrightarrow> lookup n (install v s) = Some w"
proof (cases "lookup (name_of v) s")
  case None
  assume n: "lookup n s = Some w"
  then have "\<not> same_name (name_of v) n" using None lookup_cong[of "name_of v" n s] by auto
  with None n show ?thesis by (simp add: lookup_new)
qed (simp add: lookup_old)

lemma lookup_kept_all: "lookup n s = Some w \<Longrightarrow> lookup n (fold install vs s) = Some w"
  by (induction vs arbitrary: s) (auto simp: lookup_kept)

lemma install_all:
  assumes "\<forall>v\<in>set vs. lookup (name_of v) s = None"
    "sorted_wrt (\<lambda>v w. \<not> same_name (name_of v) (name_of w)) vs"
  shows "(\<forall>v\<in>set vs. lookup (name_of v) (fold install vs s) = Some v) \<and>
         failed (fold install vs s) = failed s"
  using assms
proof (induction vs arbitrary: s)
  case (Cons v vs)
  have v: "lookup (name_of v) s = None" using Cons.prems by simp
  have "\<forall>w\<in>set vs. lookup (name_of w) (install v s) = None"
    using Cons.prems by (auto simp: lookup_new[OF v])
  with Cons.IH[of "install v s"] Cons.prems
  have ih: "(\<forall>w\<in>set vs. lookup (name_of w) (fold install vs (install v s)) = Some w)"
    "failed (fold install vs (install v s)) = failed (install v s)" by auto
  have "lookup (name_of v) (install v s) = Some v" by (simp add: lookup_new[OF v])
  from lookup_kept_all[OF this, of vs] ih show ?case by (simp add: failed_new[OF v])
qed simp

end

lemma find_hdr_cong: "same_name n n' \<Longrightarrow> find_hdr n hs = find_hdr n' hs"
  by (induction hs) (auto simp: same_name_iff)

lemma find_hdr_append:
  "find_hdr n (hs @ hs') = (case find_hdr n hs of Some m \<Rightarrow> Some m | None \<Rightarrow> find_hdr n hs')"
  by (induction hs) auto

lemma find_hdr_SomeD: "find_hdr n hs = Some m \<Longrightarrow> m \<in> set hs \<and> same_name (field_name m) n"
  by (induction hs) (auto split: if_splits)

lemma find_hdr_None: "find_hdr n hs = None \<longleftrightarrow> (\<forall>m\<in>set hs. \<not> same_name (field_name m) n)"
  by (induction hs) auto

interpretation hs: header_store "\<lambda>n st. find_hdr n (msg_hdrs (fst st))" field_name AppendMsgHdr
    "\<lambda>st. event_flag (snd st)"
proof
  fix v :: rfc822_msg_hdr and s :: http_st and n
  assume a: "find_hdr (field_name v) (msg_hdrs (fst s)) = None"
  show "find_hdr n (msg_hdrs (fst (AppendMsgHdr v s))) =
    (if same_name (field_name v) n then Some v else find_hdr n (msg_hdrs (fst s)))"
    using a find_hdr_cong[of "field_name v" n "msg_hdrs (fst s)"]
    by (auto simp: AppendMsgHdr_def find_hdr_append split: option.splits)
qed (auto simp: AppendMsgHdr_def error_Init_def Let_def set_realm_def dest: find_hdr_cong)

text \<open>
  Headers appended under pairwise different names, none of them present before, are all
  installed without an error and each is then found by its name in any case.
\<close>

theorem append_all_found:
  assumes "\<forall>m\<in>set ms. find_hdr (field_name m) (msg_hdrs h) = None"
    "sorted_wrt (\<lambda>m m'. \<not> same_name (field_name m) (field_name m')) ms"
  shows "(\<forall>m\<in>set ms. find_hdr (field_name m) (msg_hdrs (fst (fold AppendMsgHdr ms (h, eh)))) = Some m)
    \<and> event_flag (snd (fold AppendMsgHdr ms (h, eh))) = event_flag eh"
  using hs.install_all[of ms "(h, eh)"] assms by simp

theorem append_all_found_witness:
  "find_hdr ''HOST'' (msg_hdrs (fst (fold AppendMsgHdr
      [\<lparr>field_name = ''Host'', field_value = ''a'', parameters = []\<rparr>,
       \<lparr>field_name = ''Accept'', field_value = ''*'', parameters = []\<rparr>] (HTTPFraming, ErrorHandler))))
   = Some \<lparr>field_name = ''Host'', field_value = ''a'', parameters = []\<rparr>"
proof -
  let ?ms = "[\<lparr>field_name = ''Host'', field_value = ''a'', parameters = []\<rparr>,
       \<lparr>field_name = ''Accept'', field_value = ''*'', parameters = []\<rparr>]"
  have s: "same_name ''HOST'' ''Host''" "\<not> same_name ''Host'' ''Accept''"
    by (simp_all add: same_name_iff tolower_def char_of_def bit_0)
  have "find_hdr ''Host'' (msg_hdrs (fst (fold AppendMsgHdr ?ms (HTTPFraming, ErrorHandler))))
      = Some \<lparr>field_name = ''Host'', field_value = ''a'', parameters = []\<rparr>"
    using append_all_found[of ?ms HTTPFraming ErrorHandler] s by (simp add: HTTPFraming_def)
  then show ?thesis using find_hdr_cong[OF s(1)] by simp
qed

definition names_distinct :: "rfc822_msg_hdr list \<Rightarrow> bool" where
  "names_distinct hs \<longleftrightarrow> sorted_wrt (\<lambda>m m'. \<not> same_name (field_name m) (field_name m')) hs"

lemma names_distinct_snoc:
  "names_distinct (hs @ [m]) \<longleftrightarrow> names_distinct hs \<and> find_hdr (field_name m) hs = None"
  by (auto simp: names_distinct_def sorted_wrt_append find_hdr_None)

text \<open>
  The header list never holds two headers of one name when it is built with AppendMsgHdr: a
  second header of a name is refused with an error that names it, and the list stays as it was.
\<close>

theorem append_keeps_distinct:
  assumes "names_distinct (msg_hdrs h)"
  shows "names_distinct (msg_hdrs (fst (AppendMsgHdr m (h, eh))))
    \<and> (find_hdr (field_name m) (msg_hdrs h) \<noteq> None \<longrightarrow>
        msg_hdrs (fst (AppendMsgHdr m (h, eh))) = msg_hdrs h \<and> event_flag (snd (AppendMsgHdr m (h, eh))))"
  using assms
  by (auto simp: AppendMsgHdr_def names_distinct_snoc error_Init_def Let_def set_realm_def split: option.splits)

theorem append_keeps_distinct_witness:
  "names_distinct (msg_hdrs (fst (AppendMsgHdr empty_hdr (HTTPFraming, ErrorHandler))))"
  using append_keeps_distinct[of HTTPFraming empty_hdr ErrorHandler]
  by (simp add: HTTPFraming_def names_distinct_def)

section \<open>Connection, tables, sizes\<close>

lemma set_first_value_find:
  "set_first_value n v hs = Some hs' \<Longrightarrow>
   find_hdr k hs' = (if same_name n k then map_option (\<lambda>m. m\<lparr>field_value := v\<rparr>) (find_hdr n hs) else find_hdr k hs)"
  by (induction hs arbitrary: hs') (auto simp: same_name_iff split: if_splits)

lemma set_first_value_length: "set_first_value n v hs = Some hs' \<Longrightarrow> length hs' = length hs"
  by (induction hs arbitrary: hs') (auto split: if_splits)

lemma set_first_value_None: "set_first_value n v hs = None \<longleftrightarrow> find_hdr n hs = None"
  by (induction hs) auto

lemma find_hdr_set_connection:
  "find_hdr k (msg_hdrs (set_connection c h)) =
    (if same_name HTTPFRAMING_CONNECTION k
     then Some (case find_hdr HTTPFRAMING_CONNECTION (msg_hdrs h) of
        Some m \<Rightarrow> m\<lparr>field_value := connection_value c\<rparr>
      | None \<Rightarrow> \<lparr>field_name = HTTPFRAMING_CONNECTION, field_value = connection_value c, parameters = []\<rparr>)
     else find_hdr k (msg_hdrs h))"
proof (cases "set_first_value HTTPFRAMING_CONNECTION (connection_value c) (msg_hdrs h)")
  case None
  then have n: "find_hdr HTTPFRAMING_CONNECTION (msg_hdrs h) = None" by (simp add: set_first_value_None)
  with find_hdr_cong[of HTTPFRAMING_CONNECTION k "msg_hdrs h"] None show ?thesis
    by (auto simp: set_connection_def find_hdr_append split: option.splits)
next
  case (Some hs')
  then have "find_hdr HTTPFRAMING_CONNECTION (msg_hdrs h) \<noteq> None"
    using set_first_value_None[of HTTPFRAMING_CONNECTION "connection_value c" "msg_hdrs h"] by simp
  with Some set_first_value_find[OF Some, of k] show ?thesis by (auto simp: set_connection_def)
qed

text \<open>
  set_connection installs or rewrites exactly the Connection header: afterwards its value is
  close or open as asked, every other header is found as before, and the header list keeps its
  length unless there was no Connection header.
\<close>

theorem set_connection_effect:
  "field_value (msg_hdr (Some ''Connection'') (set_connection c h)) = (if c = 0 then ''open'' else ''close'') \<and>
   (\<forall>k. same_name ''Connection'' k \<or> find_hdr k (msg_hdrs (set_connection c h)) = find_hdr k (msg_hdrs h)) \<and>
   length (msg_hdrs (set_connection c h)) =
     length (msg_hdrs h) + (if find_hdr ''Connection'' (msg_hdrs h) = None then 1 else 0)"
proof -
  have "length (msg_hdrs (set_connection c h)) =
     length (msg_hdrs h) + (if find_hdr ''Connection'' (msg_hdrs h) = None then 1 else 0)"
    using set_first_value_None[of HTTPFRAMING_CONNECTION "connection_value c" "msg_hdrs h"]
    by (auto simp: set_connection_def HTTPFRAMING_CONNECTION_def dest: set_first_value_length split: option.splits)
  then show ?thesis
    using find_hdr_set_connection[of _ c h]
    by (auto simp: msg_hdr_def HTTPFRAMING_CONNECTION_def connection_value_def split: option.splits)
qed

text \<open>
  The name tables are read in bounds except at one index each: method_name(9) and
  start_line_name(READY) read one entry past their table, since the guards compare with > where
  the size needs >=; every valid method number is recovered from its name in any case.
\<close>

theorem name_tables_off_by_one:
  "(method_name m = None \<longleftrightarrow> m = 9) \<and> (start_line_name t = None \<longleftrightarrow> t = READY) \<and>
   status_code_phrase c \<noteq> None \<and>
   map (\<lambda>i. map_option method_id (method_name i)) [0..8] = map Some [0..8]"
proof -
  have "map (\<lambda>i. map_option method_id (method_name i)) [0..8] = map Some [0..8]"
    by (simp add: upto.simps method_name_def table_at_def method_names_def kNumMethods_def method_id_def
        strncaseeq_def c_str_def tolower_def char_of_def bit_0)
  then show ?thesis
    by (auto simp: method_name_def start_line_name_def status_code_phrase_def table_at_def kNumMethods_def
        method_names_def type_names_def READY_def code_200_phrases_def code_400_phrases_def code_500_phrases_def)
qed

end
