(* ===== verification/Http_Chunked.thy ===== *)
theory Http_Chunked
  imports Http_Header
begin

text \<open>
  The steps the HTTP parsers are made of (skipping a byte, checking one, copying a field) and
  HTTPFraming::ParseChunkedMsgBody, the decoder of chunked message bodies.
\<close>

section \<open>Parser steps\<close>

text \<open>
  \<^verbatim>\<open>buf_ptr++; if (--n == 0) return false;\<close>. The count is positive wherever the
  source does this; at 0 it would run below, Fault.
\<close>

fun skip1 :: "'s \<Rightarrow> pos \<Rightarrow> ('s, pos) run" where
  "skip1 st ([], n) = Fault"
| "skip1 st (c # mem, n) = (if n = 0 then Fault else if n - 1 = 0 then Stop st else Go st (mem, n - 1))"

text \<open>
  An error that quotes the rest of the buffer with %s and the number of bytes used. The first
  argument applies an operation to the error object inside the state.
\<close>

definition fail_at :: "((errh \<Rightarrow> errh) \<Rightarrow> 's \<Rightarrow> 's) \<Rightarrow> string \<Rightarrow> nat \<Rightarrow> 's \<Rightarrow> pos \<Rightarrow> ('s, 'a) run" where
  "fail_at upd pre len st = (\<lambda>(mem, n). case read_cstr mem of
      None \<Rightarrow> Fault
    | Some s \<Rightarrow> Stop (upd (error_Init EX_SOFTWARE (Some (pre @ s @ '' at cnt: '' @ show_nat (size_sub len n)))) st))"

definition expect :: "((errh \<Rightarrow> errh) \<Rightarrow> 's \<Rightarrow> 's) \<Rightarrow> string \<Rightarrow> char \<Rightarrow> nat \<Rightarrow> 's \<Rightarrow> pos \<Rightarrow> ('s, pos) run" where
  "expect upd pre c len st = (\<lambda>(mem, n). case mem of
      [] \<Rightarrow> Fault
    | d # _ \<Rightarrow> if d \<noteq> c then fail_at upd pre len st (mem, n) else skip1 st (mem, n))"

text \<open>A field copied to the scratch buffer; an exhausted count is a return for lack of data.\<close>

definition take_field :: "(char \<Rightarrow> bool) \<Rightarrow> 's \<Rightarrow> pos \<Rightarrow> ('s, string \<times> pos) run" where
  "take_field p st = (\<lambda>(mem, n). case copy_while SCRATCH_BUF_SIZE p mem n of
      None \<Rightarrow> Fault
    | Some (w, mem', n') \<Rightarrow>
        if n' = 0 then Stop st
        else (case terminate_at SCRATCH_BUF_SIZE w of
            None \<Rightarrow> Fault
          | Some s \<Rightarrow> Go st (s, (mem', n'))))"

definition skip_ws :: "'s \<Rightarrow> pos \<Rightarrow> ('s, pos) run" where
  "skip_ws st = (\<lambda>(mem, n). case scan isspace mem n of
      None \<Rightarrow> Fault
    | Some (_, mem', n') \<Rightarrow> if n' = 0 then Stop st else Go st (mem', n'))"

lemma bind_run_cong [fundef_cong]:
  "r = r' \<Longrightarrow> (\<And>s a. r' = Go s a \<Longrightarrow> f s a = g s a) \<Longrightarrow> bind_run r f = bind_run r' g"
  by (cases r') auto

text \<open>What each step guarantees, as rules for goes (any buffer) and safe (a buffer long enough).\<close>

lemma goes_skip1 [goes_intro]:
  "(\<And>c mem n. p = (c # mem, Suc n) \<Longrightarrow> 0 < n \<Longrightarrow> Q st (mem, n)) \<Longrightarrow> goes (skip1 st p) Q"
  by (cases "(st, p)" rule: skip1.cases) auto

lemma goes_fail_at [goes_intro]: "goes (fail_at upd pre len st p) Q"
  by (auto simp: fail_at_def split: prod.splits option.splits)

lemma goes_expect [goes_intro]:
  "(\<And>mem n. p = (c # mem, Suc n) \<Longrightarrow> 0 < n \<Longrightarrow> Q st (mem, n)) \<Longrightarrow> goes (expect upd pre c len st p) Q"
  by (cases p; cases "fst p") (auto simp: expect_def intro!: goes_intro)

lemma goes_take_field [goes_intro]:
  "(\<And>s mem' n'. n' \<le> snd p \<Longrightarrow> 0 < n' \<Longrightarrow> Q st (s, (mem', n'))) \<Longrightarrow> goes (take_field f st p) Q"
  by (auto simp: take_field_def split: prod.splits option.splits dest: copy_while_le)

lemma goes_skip_ws [goes_intro]:
  "(\<And>mem' n'. n' \<le> snd p \<Longrightarrow> 0 < n' \<Longrightarrow> Q st (mem', n')) \<Longrightarrow> goes (skip_ws st p) Q"
  by (auto simp: skip_ws_def split: prod.splits option.splits dest: scan_le)

text \<open>A position within a NUL-terminated buffer, with fewer bytes left than a scratch buffer holds.\<close>

definition in_buf :: "pos \<Rightarrow> bool" where
  "in_buf p \<longleftrightarrow> snd p < length (fst p) \<and> snd p < SCRATCH_BUF_SIZE \<and> NUL \<in> set (drop (snd p) (fst p))"

lemma in_buf_nul: "in_buf (mem, n) \<Longrightarrow> NUL \<in> set mem"
  by (auto simp: in_buf_def dest: in_set_dropD)

lemma in_buf_step: "in_buf (c # mem, Suc n) \<Longrightarrow> in_buf (mem, n)"
  by (auto simp: in_buf_def)

lemma in_buf_drop: "in_buf (w @ mem, length w + n) \<Longrightarrow> in_buf (mem, n)"
  by (simp add: in_buf_def)

lemma in_buf_dropn: "in_buf (mem, n) \<Longrightarrow> k \<le> n \<Longrightarrow> in_buf (drop k mem, n - k)"
  by (auto simp: in_buf_def)

lemma in_buf_Cons: "in_buf p \<Longrightarrow> \<exists>c mem. fst p = c # mem"
  by (cases p; cases "fst p") (auto simp: in_buf_def)

lemma in_buf_ConsE:
  assumes "in_buf p" "0 < snd p"
  obtains c mem n where "p = (c # mem, Suc n)" "in_buf (mem, n)"
proof -
  obtain c mem where "fst p = c # mem" using in_buf_Cons[OF assms(1)] by blast
  then have "p = (c # mem, Suc (snd p - 1))" using assms(2) by (cases p) simp
  with assms(1) in_buf_step that show ?thesis by metis
qed

lemma safe_skip1 [safe_intro]:
  assumes "in_buf p" "0 < snd p" "\<And>mem n. in_buf (mem, n) \<Longrightarrow> 0 < n \<Longrightarrow> n < snd p \<Longrightarrow> Q st (mem, n)"
  shows "safe (skip1 st p) Q"
proof -
  obtain c mem n where "p = (c # mem, Suc n)" "in_buf (mem, n)" using in_buf_ConsE[OF assms(1,2)] .
  with assms(3) show ?thesis by auto
qed

lemma safe_fail_at [safe_intro]: "in_buf p \<Longrightarrow> safe (fail_at upd pre len st p) Q"
  by (cases p) (auto simp: fail_at_def read_cstr_def dest: in_buf_nul)

lemma safe_expect [safe_intro]:
  assumes "in_buf p" "0 < snd p" "\<And>mem n. in_buf (mem, n) \<Longrightarrow> 0 < n \<Longrightarrow> n < snd p \<Longrightarrow> Q st (mem, n)"
  shows "safe (expect upd pre c len st p) Q"
proof -
  obtain d mem n where p: "p = (d # mem, Suc n)" "in_buf (mem, n)" using in_buf_ConsE[OF assms(1,2)] .
  have "safe (fail_at upd pre len st p) Q" using assms(1) by (rule safe_fail_at)
  with assms(3) p show ?thesis by (auto simp: expect_def)
qed

lemma scan_in_buf:
  assumes "in_buf p"
  obtains w mem' n' where "scan f (fst p) (snd p) = Some (w, mem', n')" "in_buf (mem', n')" "n' \<le> snd p"
    "length w \<le> snd p" "\<forall>c\<in>set w. f c" "fst p = w @ mem'" "snd p = length w + n'"
proof -
  have "snd p \<le> length (fst p)" using assms by (simp add: in_buf_def)
  then obtain w mem' n' where s: "scan f (fst p) (snd p) = Some (w, mem', n')" using scan_total by blast
  note d = scan_SomeD[OF s]
  have "p = (w @ mem', length w + n')" using d by (metis prod.collapse)
  then have "in_buf (mem', n')" using in_buf_drop assms by metis
  with s d that show ?thesis by simp
qed

lemma safe_take_field [safe_intro]:
  assumes "in_buf p" "\<And>s mem' n'. in_buf (mem', n') \<Longrightarrow> n' \<le> snd p \<Longrightarrow> 0 < n' \<Longrightarrow> Q st (s, (mem', n'))"
  shows "safe (take_field f st p) Q"
proof -
  obtain w mem' n' where s: "scan f (fst p) (snd p) = Some (w, mem', n')" "in_buf (mem', n')" "n' \<le> snd p"
    "length w \<le> snd p" using scan_in_buf[OF assms(1), of f] by metis
  have "length w < SCRATCH_BUF_SIZE" using s(4) assms(1) by (simp add: in_buf_def)
  then show ?thesis using s assms(2) by (auto simp: take_field_def copy_while_def split: prod.splits)
qed

lemma safe_skip_ws [safe_intro]:
  assumes "in_buf p" "\<And>mem' n'. in_buf (mem', n') \<Longrightarrow> n' \<le> snd p \<Longrightarrow> 0 < n' \<Longrightarrow> Q st (mem', n')"
  shows "safe (skip_ws st p) Q"
proof -
  obtain w mem' n' where s: "scan isspace (fst p) (snd p) = Some (w, mem', n')" "in_buf (mem', n')" "n' \<le> snd p"
    using scan_in_buf[OF assms(1), of isspace] by metis
  then show ?thesis using assms(2) by (auto simp: skip_ws_def split: prod.splits)
qed

lemma skip1_Go: "skip1 st (mem, n) = Go st' (mem', n') \<longleftrightarrow>
   (\<exists>c. mem = c # mem' \<and> st' = st \<and> n = Suc n' \<and> 0 < n')"
  by (cases mem) auto

lemma expect_Go: "expect upd pre c len st (mem, n) = Go st' (mem', n') \<longleftrightarrow>
   mem = c # mem' \<and> st' = st \<and> n = Suc n' \<and> 0 < n'"
  by (cases mem) (auto simp: expect_def fail_at_def split: option.splits)

lemma take_field_GoD: "take_field p st (mem, n) = Go st' (s, (mem', n')) \<Longrightarrow>
   st' = st \<and> n' \<le> n \<and> 0 < n' \<and> mem' \<noteq> [] \<and> \<not> p (hd mem')"
  by (auto simp: take_field_def dest: copy_while_SomeD split: option.splits if_splits)

lemma skip_ws_GoD: "skip_ws st (mem, n) = Go st' (mem', n') \<Longrightarrow> st' = st \<and> n' \<le> n \<and> 0 < n'"
  by (auto simp: skip_ws_def dest: scan_le split: option.splits if_splits)

lemma take_field_Go:
  assumes "\<forall>c\<in>set w. p c" "rest \<noteq> []" "\<not> p (hd rest)" "length w < SCRATCH_BUF_SIZE" "0 < m" "no_nul w"
  shows "take_field p st (w @ rest, length w + m) = Go st (w, (rest, m))"
proof -
  have "copy_while SCRATCH_BUF_SIZE p (w @ rest) (length w + m) = Some (w, rest, m)"
    using assms by (intro copy_while_until) auto
  with assms show ?thesis by (simp add: take_field_def)
qed

lemma skip_ws_Go:
  assumes "\<forall>c\<in>set w. isspace c" "rest \<noteq> []" "\<not> isspace (hd rest)" "0 < m"
  shows "skip_ws st (w @ rest, length w + m) = Go st (rest, m)"
proof -
  obtain d r where "rest = d # r" using assms(2) by (cases rest) auto
  with assms scan_stop[of w isspace d "length w + m" m r] show ?thesis by (simp add: skip_ws_def)
qed

section \<open>Chunked message bodies\<close>

text \<open>
  The caller's buffer msg_body: the bytes stored from its start, None for NULL, and its size. The
  decoder only writes at or before the end of what it has stored.
\<close>

record chunk_buf =
  cb_data :: "string option"
  cb_size :: nat

type_synonym chunk_st = "errh \<times> chunk_buf"

definition cb_write :: "nat \<Rightarrow> string \<Rightarrow> chunk_buf \<Rightarrow> chunk_buf option" where
  "cb_write i w cb = (case cb_data cb of
      None \<Rightarrow> None
    | Some d \<Rightarrow> if i + length w \<le> cb_size cb
        then Some (cb\<lparr>cb_data := Some (take i d @ w @ drop (i + length w) d)\<rparr>) else None)"

abbreviation chunk_err :: "(errh \<Rightarrow> errh) \<Rightarrow> chunk_st \<Rightarrow> chunk_st" where
  "chunk_err \<equiv> apfst"

definition pre_chunk :: "string \<Rightarrow> string" where
  "pre_chunk what = ''HTTPFraming::ParseChunkedMsgBody(): TODO(aka) expected '' @
     [CHR 0x27] @ what @ [CHR 0x27] @ '', got: ''"

text \<open>
  The growth of the buffer. \<^verbatim>\<open>chunk_size + msg_body_cnt\<close> is a long added to a size_t;
  alloc tells whether \<^verbatim>\<open>realloc(3)\<close> of that many bytes succeeds.
\<close>

definition chunk_grow :: "(nat \<Rightarrow> bool) \<Rightarrow> int \<Rightarrow> nat \<Rightarrow> chunk_st \<Rightarrow> (chunk_st, unit) run" where
  "chunk_grow alloc chunk_size cnt st =
     (let cb = snd st in
      if to_size_t (chunk_size + int cnt) < cb_size cb then Go st ()
      else (let new_size = (if int SCRATCH_BUF_SIZE > chunk_size
                            then (cb_size cb + SCRATCH_BUF_SIZE) mod 2 ^ 64
                            else to_size_t (int (cb_size cb) + chunk_size + 1))
            in if alloc new_size
               then Go (fst st, cb\<lparr>cb_data := map_option (take new_size) (cb_data cb), cb_size := new_size\<rparr>) ()
               else Stop (error_Init EX_OSERR
                      (Some (''HTTPFraming::ParseChunkedMsgBody(): realloc(3) failed for '' @
                             show_nat new_size @ ''b'')) (fst st), cb\<lparr>cb_data := None\<rparr>)))"

text \<open>
  One iteration of the loop. Inl is the return true at the last chunk, with the bytes used; Inr is
  the position and the count of stored bytes for the next iteration. After the second line feed
  the source steps the pointer and not the count.
\<close>

definition chunk_size_line :: "nat \<Rightarrow> chunk_st \<Rightarrow> pos \<Rightarrow> (chunk_st, int \<times> pos) run" where
  "chunk_size_line len st p =
     bind_run (take_field (\<lambda>c. c \<noteq> CR) st p) (\<lambda>st (s, p).
     bind_run (expect chunk_err (pre_chunk [CR]) CR len st p) (\<lambda>st p.
     bind_run (expect chunk_err (pre_chunk [LF]) LF len st p) (\<lambda>st p.
     Go st (strtol 16 s, p))))"

definition chunk_lf :: "nat \<Rightarrow> chunk_st \<Rightarrow> pos \<Rightarrow> (chunk_st, pos) run" where
  "chunk_lf len st = (\<lambda>(mem, n). case mem of
      [] \<Rightarrow> Fault
    | d # mem' \<Rightarrow> if d \<noteq> LF then fail_at chunk_err (pre_chunk [LF]) len st (mem, n) else Go st (mem', n))"

definition chunk_data :: "nat \<Rightarrow> nat \<Rightarrow> chunk_st \<Rightarrow> pos \<Rightarrow> (chunk_st, pos \<times> nat) run" where
  "chunk_data len cnt st = (\<lambda>(mem, n). case scan (\<lambda>c. c \<noteq> CR) mem n of
      None \<Rightarrow> Fault
    | Some (w, mem', n') \<Rightarrow>
        (case cb_write cnt w (snd st) of
           None \<Rightarrow> Fault
         | Some cb \<Rightarrow>
             (let st = (fst st, cb) in
              if n' = 0 then Stop st
              else bind_run (expect chunk_err (pre_chunk [CR]) CR len st (mem', n')) (\<lambda>st p.
                bind_run (chunk_lf len st p) (\<lambda>st p. Go st (p, cnt + length w))))))"

definition chunk_step :: "(nat \<Rightarrow> bool) \<Rightarrow> nat \<Rightarrow> nat \<Rightarrow> chunk_st \<Rightarrow> pos \<Rightarrow> (chunk_st, nat + pos \<times> nat) run" where
  "chunk_step alloc len cnt st p =
     bind_run (chunk_size_line len st p) (\<lambda>st (chunk_size, p).
       if chunk_size = 0
       then (case cb_write cnt [NUL] (snd st) of
               None \<Rightarrow> Fault
             | Some cb \<Rightarrow> Go (fst st, cb) (Inl (size_sub len (snd p))))
       else bind_run (chunk_grow alloc chunk_size cnt st) (\<lambda>st _.
            bind_run (chunk_data len cnt st p) (\<lambda>st r. Go st (Inr r))))"

lemma chunk_lf_Go: "chunk_lf len st (mem, n) = Go st' (mem', n') \<longleftrightarrow> mem = LF # mem' \<and> st' = st \<and> n' = n"
  by (cases mem) (auto simp: chunk_lf_def fail_at_def split: option.splits)

lemma chunk_size_line_GoD:
  "chunk_size_line len st (mem, n) = Go st' (k, (mem', n')) \<Longrightarrow> n' < n \<and> st' = st"
  by (auto simp: chunk_size_line_def bind_run_Go expect_Go dest!: take_field_GoD)

lemma chunk_data_GoD: "chunk_data len cnt st (mem, n) = Go st' ((mem', n'), cnt') \<Longrightarrow> n' < n"
  by (auto simp: chunk_data_def Let_def bind_run_Go expect_Go chunk_lf_Go dest!: scan_le
      split: option.splits if_splits)

lemma chunk_step_decreases:
  assumes "chunk_step alloc len cnt st (mem, n) = Go st' (Inr ((mem', n'), cnt'))"
  shows "n' < n"
proof -
  obtain s1 k m1 n1 s2 s3 where r: "chunk_size_line len st (mem, n) = Go s1 (k, (m1, n1))"
    "chunk_data len cnt s2 (m1, n1) = Go s3 ((mem', n'), cnt')"
    using assms by (auto simp: chunk_step_def bind_run_Go split: if_splits option.splits)
  from chunk_size_line_GoD[OF r(1)] chunk_data_GoD[OF r(2)] show ?thesis by simp
qed

function chunk_loop :: "(nat \<Rightarrow> bool) \<Rightarrow> nat \<Rightarrow> nat \<Rightarrow> chunk_st \<Rightarrow> pos \<Rightarrow> (chunk_st, nat) run" where
  "chunk_loop alloc len cnt st p =
     (if snd p = 0 then Stop st
      else bind_run (chunk_step alloc len cnt st p) (\<lambda>st' r. case r of
          Inl used \<Rightarrow> Go st' used
        | Inr (p', cnt') \<Rightarrow> chunk_loop alloc len cnt' st' p'))"
  by pat_completeness auto
termination
  by (relation "measure (\<lambda>(alloc, len, cnt, st, p). snd p)") (auto dest: chunk_step_decreases)

declare chunk_loop.simps [simp del]

definition ParseChunkedMsgBody :: "(nat \<Rightarrow> bool) \<Rightarrow> string option \<Rightarrow> nat \<Rightarrow> chunk_st \<Rightarrow> (chunk_st, nat) run" where
  "ParseChunkedMsgBody alloc buf len st = (case buf of
      None \<Rightarrow> Stop (chunk_err (error_Init EX_SOFTWARE (Some
        ''HTTPFraming::ParseChunkedMsgBody(): TODO(aka) buf or our msg_body buffer is NULL'')) st)
    | Some mem \<Rightarrow>
        if cb_data (snd st) = None
        then Stop (chunk_err (error_Init EX_SOFTWARE (Some
          ''HTTPFraming::ParseChunkedMsgBody(): TODO(aka) buf or our msg_body buffer is NULL'')) st)
        else (case scan isspace mem len of
            None \<Rightarrow> Fault
          | Some (_, mem', n') \<Rightarrow> chunk_loop alloc len 0 st (mem', n')))"

section \<open>Decoding an encoded body\<close>

text \<open>The encoding of RFC 2616, section 3.6.1, without extensions and trailer.\<close>

definition hex_char :: "nat \<Rightarrow> char" where
  "hex_char d = (if d < 10 then digit_char d else char_of (87 + d))"

fun show_hex :: "nat \<Rightarrow> string" where
  "show_hex n = (if n < 16 then [hex_char n] else show_hex (n div 16) @ [hex_char (n mod 16)])"

declare show_hex.simps [simp del]

definition encode_chunk :: "string \<Rightarrow> string" where
  "encode_chunk w = show_hex (length w) @ CRLF @ w @ CRLF"

definition encode_chunks :: "string list \<Rightarrow> string" where
  "encode_chunks ws = concat (map encode_chunk ws)"

definition last_chunk :: string where
  "last_chunk = ''0'' @ CRLF @ CRLF"

lemma hex_digit [simp]: "d < 16 \<Longrightarrow> digit_of 16 (hex_char d) = Some d"
  by (simp add: hex_char_def digit_of_def Let_def)

definition is_hex :: "char \<Rightarrow> bool" where
  "is_hex c \<longleftrightarrow> digit_of 16 c \<noteq> None"

lemma of_char_tolower:
  "of_char (tolower c) = (if 65 \<le> (of_char c :: nat) \<and> (of_char c :: nat) \<le> 90 then of_char c + 32 else (of_char c :: nat))"
  by (simp add: tolower_def)

lemma is_hexD:
  assumes "is_hex c"
  shows "\<not> isspace c \<and> c \<noteq> CR \<and> c \<noteq> NUL \<and> c \<noteq> CHR ''-'' \<and> c \<noteq> CHR ''+'' \<and> tolower c \<noteq> CHR ''x''"
proof -
  have "of_char (tolower c) \<noteq> (120 :: nat)"
    using assms by (auto simp: of_char_tolower is_hex_def digit_of_def Let_def split: if_splits)
  then have "tolower c \<noteq> CHR ''x''" by auto
  then show ?thesis
    using assms by (auto simp: is_hex_def digit_of_def isspace_def Let_def split: if_splits)
qed

lemma show_hex_digits: "\<forall>c\<in>set (show_hex n). is_hex c"
proof (induction n rule: show_hex.induct)
  case (1 n)
  show ?case
  proof (cases "n < 16")
    case True
    then show ?thesis by (simp add: show_hex.simps[of n] is_hex_def)
  next
    case False
    then show ?thesis using 1[OF False] by (simp add: show_hex.simps[of n] is_hex_def)
  qed
qed

lemma show_hex_nonempty [simp]: "show_hex n \<noteq> []"
  by (subst show_hex.simps) simp

lemma num_val_hex_append:
  "\<forall>c\<in>set s. is_hex c \<Longrightarrow> num_val 16 a (s @ t) = num_val 16 (num_val 16 a s) t"
  by (induction s arbitrary: a) (auto simp: is_hex_def)

lemma num_val_show_hex: "num_val 16 0 (show_hex n) = n"
proof (induction n rule: show_hex.induct)
  case (1 n)
  show ?case
  proof (cases "n < 16")
    case True
    then show ?thesis by (simp add: show_hex.simps[of n])
  next
    case False
    have "num_val 16 0 (show_hex n) = num_val 16 (num_val 16 0 (show_hex (n div 16))) [hex_char (n mod 16)]"
      using False show_hex_digits[of "n div 16"]
      by (simp add: show_hex.simps[of n] num_val_hex_append del: num_val.simps)
    also have "\<dots> = n" using 1 False by simp
    finally show ?thesis .
  qed
qed

lemma length_show_hex: "n < 16 ^ k \<Longrightarrow> 0 < k \<Longrightarrow> length (show_hex n) \<le> k"
proof (induction k arbitrary: n)
  case (Suc k)
  show ?case
  proof (cases "n < 16")
    case True
    then show ?thesis by (simp add: show_hex.simps[of n])
  next
    case False
    then have "0 < k" using Suc.prems by (cases k) auto
    moreover have "n div 16 < 16 ^ k" using Suc.prems by (simp add: less_mult_imp_div_less mult.commute)
    ultimately show ?thesis using Suc.IH[of "n div 16"] False by (simp add: show_hex.simps[of n])
  qed
qed simp

lemma strtol_show_hex:
  assumes "int n \<le> LONG_MAX"
  shows "strtol 16 (show_hex n) = int n"
proof -
  obtain c cs where s: "show_hex n = c # cs" by (cases "show_hex n") auto
  have c: "is_hex c" and cs: "\<forall>x\<in>set cs. is_hex x" using show_hex_digits[of n] s by auto
  have nn: "no_nul (show_hex n)" using show_hex_digits[of n] is_hexD by blast
  have sign: "split_sign (dropWhile isspace (c_str (show_hex n))) = (False, show_hex n)"
    using is_hexD[OF c] nn by (simp add: s split_sign_def)
  have "strip_0x 16 (show_hex n) = show_hex n"
    using cs is_hexD by (auto simp: s strip_0x_def split: list.splits)
  with sign assms show ?thesis
    by (simp add: strtol_def num_val_show_hex LONG_MIN_def)
qed

definition good_chunk :: "string \<Rightarrow> bool" where
  "good_chunk w \<longleftrightarrow> w \<noteq> [] \<and> CR \<notin> set w \<and> length w < 2 ^ 60"

lemma chunk_size_line_encoded:
  assumes "k < 2 ^ 60" "0 < m"
  shows "chunk_size_line len st (show_hex k @ CRLF @ rest, length (show_hex k) + (2 + m)) = Go st (int k, (rest, m))"
proof -
  have "length (show_hex k) \<le> 15" using assms by (intro length_show_hex) auto
  then have l: "length (show_hex k) < SCRATCH_BUF_SIZE" by (simp add: SCRATCH_BUF_SIZE_def)
  have c: "\<forall>c\<in>set (show_hex k). c \<noteq> CR" "no_nul (show_hex k)" using show_hex_digits[of k] is_hexD by blast+
  have "take_field (\<lambda>c. c \<noteq> CR) st (show_hex k @ CRLF @ rest, length (show_hex k) + (2 + m))
      = Go st (show_hex k, (CRLF @ rest, 2 + m))"
    using c l assms by (intro take_field_Go) auto
  moreover have "int k \<le> LONG_MAX" using assms by (simp add: LONG_MAX_def)
  ultimately show ?thesis
    using assms by (simp add: chunk_size_line_def expect_def strtol_show_hex)
qed

definition body_at :: "nat \<Rightarrow> string \<Rightarrow> chunk_buf \<Rightarrow> bool" where
  "body_at cnt w cb \<longleftrightarrow> length w = cnt \<and> cnt < cb_size cb \<and> (\<exists>d. cb_data cb = Some (w @ d))"

lemma chunk_grow_ok:
  assumes "body_at cnt v cb" "\<forall>k. alloc k" "0 < k" "cb_size cb + k + SCRATCH_BUF_SIZE + 1 < 2 ^ 63"
  obtains cb' where "chunk_grow alloc (int k) cnt (eh, cb) = Go (eh, cb') ()" "body_at cnt v cb'"
    "cnt + k < cb_size cb'" "cb_size cb' \<le> cb_size cb + k + SCRATCH_BUF_SIZE + 1"
proof -
  obtain d where d: "cb_data cb = Some (v @ d)" and b: "length v = cnt" "cnt < cb_size cb"
    using assms(1) by (auto simp: body_at_def)
  have sz: "to_size_t (int k + int cnt) = k + cnt"
    using assms(4) b by (simp add: to_size_t_def nat_add_distrib)
  show ?thesis
  proof (cases "k + cnt < cb_size cb")
    case True
    then show ?thesis using that[of cb] assms sz by (simp add: chunk_grow_def)
  next
    case False
    let ?new = "if int SCRATCH_BUF_SIZE > int k then (cb_size cb + SCRATCH_BUF_SIZE) mod 2 ^ 64
                else to_size_t (int (cb_size cb) + int k + 1)"
    have new: "?new = (if k < SCRATCH_BUF_SIZE then cb_size cb + SCRATCH_BUF_SIZE else cb_size cb + k + 1)"
    proof (cases "k < SCRATCH_BUF_SIZE")
      case True
      then show ?thesis using assms(4) by simp
    next
      case False
      then show ?thesis using assms(4) by (simp add: to_size_t_def nat_add_distrib)
    qed
    let ?cb = "cb\<lparr>cb_data := Some (take ?new (v @ d)), cb_size := ?new\<rparr>"
    have "chunk_grow alloc (int k) cnt (eh, cb) = Go (eh, ?cb) ()"
      using False assms(2) sz d by (simp add: chunk_grow_def Let_def)
    moreover have "body_at cnt v ?cb" unfolding body_at_def new using b by auto
    ultimately show ?thesis using that[of ?cb] b unfolding new by (simp split: if_splits)
  qed
qed

lemma cb_write_at:
  assumes "body_at cnt v cb" "cnt + length w \<le> cb_size cb"
  obtains cb' where "cb_write cnt w cb = Some cb'" "cb_size cb' = cb_size cb"
    "\<exists>d. cb_data cb' = Some (v @ w @ d)"
  using assms by (auto simp: cb_write_def body_at_def)

lemma chunk_data_encoded:
  assumes "good_chunk w" "body_at cnt v cb" "cnt + length w < cb_size cb" "0 < m"
  obtains cb' where "chunk_data len cnt (eh, cb) (w @ CRLF @ rest, length w + (1 + m))
      = Go (eh, cb') ((rest, m), cnt + length w)"
    "body_at (cnt + length w) (v @ w) cb'" "cb_size cb' = cb_size cb"
proof -
  have "cnt + length w \<le> cb_size cb" using assms(3) by simp
  then obtain cb' where cb': "cb_write cnt w cb = Some cb'" "cb_size cb' = cb_size cb"
    "\<exists>d. cb_data cb' = Some (v @ w @ d)" using cb_write_at[OF assms(2)] by blast
  have "scan (\<lambda>c. c \<noteq> CR) (w @ CR # LF # rest) (length w + (1 + m)) = Some (w, CR # LF # rest, 1 + m)"
    using assms by (intro scan_stop) (auto simp: good_chunk_def)
  then have "chunk_data len cnt (eh, cb) (w @ CRLF @ rest, length w + (1 + m))
      = Go (eh, cb') ((rest, m), cnt + length w)"
    using cb'(1) assms(4) by (simp add: chunk_data_def Let_def expect_def chunk_lf_def)
  moreover have "body_at (cnt + length w) (v @ w) cb'"
    using cb' assms(2,3) by (auto simp: body_at_def)
  ultimately show ?thesis using that cb'(2) by blast
qed

lemma chunk_step_encoded:
  assumes "good_chunk w" "body_at cnt v cb" "\<forall>k. alloc k" "cb_size cb + length w + SCRATCH_BUF_SIZE + 1 < 2 ^ 63"
  obtains cb' where "chunk_step alloc len cnt (eh, cb) (encode_chunk w @ rest, length (encode_chunk w) + m)
      = Go (eh, cb') (Inr ((rest, Suc m), cnt + length w))"
    "body_at (cnt + length w) (v @ w) cb'" "cb_size cb' \<le> cb_size cb + length w + SCRATCH_BUF_SIZE + 1"
proof -
  have w: "0 < length w" "length w < 2 ^ 60" using assms(1) by (auto simp: good_chunk_def)
  obtain cb1 where g: "chunk_grow alloc (int (length w)) cnt (eh, cb) = Go (eh, cb1) ()" "body_at cnt v cb1"
    "cnt + length w < cb_size cb1" "cb_size cb1 \<le> cb_size cb + length w + SCRATCH_BUF_SIZE + 1"
    using chunk_grow_ok[OF assms(2,3) w(1) assms(4)] by blast
  define N where "N = length w + (1 + Suc m)"
  obtain cb2 where d: "chunk_data len cnt (eh, cb1) (w @ CRLF @ rest, N) = Go (eh, cb2) ((rest, Suc m), cnt + length w)"
    "body_at (cnt + length w) (v @ w) cb2" "cb_size cb2 = cb_size cb1"
    unfolding N_def using chunk_data_encoded[OF assms(1) g(2,3), of "Suc m"] by blast
  have n: "length (encode_chunk w) + m = length (show_hex (length w)) + (2 + N)" "0 < N"
    by (simp_all add: encode_chunk_def N_def)
  have l: "chunk_size_line len (eh, cb) (encode_chunk w @ rest, length (encode_chunk w) + m)
      = Go (eh, cb) (int (length w), (w @ CRLF @ rest, N))"
    unfolding n(1) using chunk_size_line_encoded[OF w(2) n(2), of len "(eh, cb)" "w @ CRLF @ rest"]
    by (simp add: encode_chunk_def)
  have "chunk_step alloc len cnt (eh, cb) (encode_chunk w @ rest, length (encode_chunk w) + m)
      = Go (eh, cb2) (Inr ((rest, Suc m), cnt + length w))"
    using w(1) by (simp add: chunk_step_def l g(1) d(1) del: append.simps)
  then show ?thesis using that d g(4) by simp
qed

lemma chunk_step_last:
  assumes "body_at cnt v cb" "0 < m"
  obtains cb' d where "chunk_step alloc len cnt (eh, cb) (''0'' @ CRLF @ rest, 3 + m) = Go (eh, cb') (Inl (size_sub len m))"
    "cb_data cb' = Some (v @ NUL # d)"
proof -
  have "cnt + length [NUL] \<le> cb_size cb" using assms(1) by (simp add: body_at_def)
  then obtain cb' where cb': "cb_write cnt [NUL] cb = Some cb'" "\<exists>d. cb_data cb' = Some (v @ [NUL] @ d)"
    using cb_write_at[OF assms(1)] by blast
  have h: "show_hex 0 = ''0''" by (simp add: show_hex.simps hex_char_def)
  have "chunk_size_line len (eh, cb) (''0'' @ CRLF @ rest, 3 + m) = Go (eh, cb) (0, (rest, m))"
    using chunk_size_line_encoded[of 0 m len "(eh, cb)" rest] assms(2) by (simp add: h numeral_3_eq_3)
  then have "chunk_step alloc len cnt (eh, cb) (''0'' @ CRLF @ rest, 3 + m) = Go (eh, cb') (Inl (size_sub len m))"
    using cb'(1) by (simp add: chunk_step_def del: append.simps)
  then show ?thesis using that cb'(2) by auto
qed

lemma length_encode_chunks: "length ws \<le> length (encode_chunks ws)" "encode_chunks (w # ws) = encode_chunk w @ encode_chunks ws"
  "length (encode_chunk w) = length (show_hex (length w)) + length w + 4"
  by (induction ws) (auto simp: encode_chunks_def encode_chunk_def)

text \<open>The count n runs behind the buffer by one for each chunk decoded so far.\<close>

lemma chunk_loop_encoded:
  assumes "\<forall>k. alloc k" "0 < m"
  shows "\<lbrakk>list_all good_chunk ws; body_at cnt v cb;
    cb_size cb + sum_list (map (\<lambda>w. length w + SCRATCH_BUF_SIZE + 1) ws) < 2 ^ 63;
    n + length ws = length (encode_chunks ws) + (3 + m)\<rbrakk> \<Longrightarrow>
   \<exists>cb' d. chunk_loop alloc len cnt (eh, cb) (encode_chunks ws @ ''0'' @ CRLF @ rest, n)
     = Go (eh, cb') (size_sub len m) \<and> cb_data cb' = Some (v @ concat ws @ NUL # d)"
proof (induction ws arbitrary: cnt v cb n)
  case Nil
  obtain cb' d where "chunk_step alloc len cnt (eh, cb) (''0'' @ CRLF @ rest, 3 + m) = Go (eh, cb') (Inl (size_sub len m))"
    "cb_data cb' = Some (v @ NUL # d)"
    using chunk_step_last[OF Nil.prems(2) assms(2)] by blast
  then show ?case using Nil.prems(4) by (subst chunk_loop.simps) (simp add: encode_chunks_def)
next
  case (Cons w ws)
  define N where "N = n - length (encode_chunk w)"
  let ?r = "encode_chunks ws @ ''0'' @ CRLF @ rest"
  have n: "n = length (encode_chunk w) + N" "0 < n" "Suc N + length ws = length (encode_chunks ws) + (3 + m)"
    using Cons.prems(4) length_encode_chunks(1)[of ws] length_encode_chunks(3)[of w]
    by (auto simp: N_def length_encode_chunks(2))
  obtain cb1 where s: "chunk_step alloc len cnt (eh, cb) (encode_chunk w @ ?r, n)
      = Go (eh, cb1) (Inr ((?r, Suc N), cnt + length w))"
    "body_at (cnt + length w) (v @ w) cb1" "cb_size cb1 \<le> cb_size cb + length w + SCRATCH_BUF_SIZE + 1"
    unfolding n(1) using chunk_step_encoded[where w = w and cnt = cnt and v = v and cb = cb and alloc = alloc and m = N and len = len and eh = eh and rest = ?r] Cons.prems assms(1) by auto
  have "cb_size cb1 + sum_list (map (\<lambda>w. length w + SCRATCH_BUF_SIZE + 1) ws) < 2 ^ 63"
    using s(3) Cons.prems(3) by simp
  then obtain cb' d where i: "chunk_loop alloc len (cnt + length w) (eh, cb1) (?r, Suc N) = Go (eh, cb') (size_sub len m)"
      "cb_data cb' = Some ((v @ w) @ concat ws @ NUL # d)"
    using Cons.IH[OF _ s(2) _ n(3)] Cons.prems(1) by auto
  then have "chunk_loop alloc len cnt (eh, cb) (encode_chunk w @ ?r, n) = Go (eh, cb') (size_sub len m)"
    using n(2) by (subst chunk_loop.simps) (simp add: s(1) del: append.simps)
  then show ?case using i(2) by (simp add: length_encode_chunks(2))
qed

text \<open>What the decoder finds before the loop: no white space in front of an encoded body.\<close>

lemma encoded_start:
  assumes "0 < n" shows "scan isspace (encode_chunks ws @ ''0'' @ rest) n = Some ([], encode_chunks ws @ ''0'' @ rest, n)"
proof -
  obtain c cs where c: "encode_chunks ws @ ''0'' @ rest = c # cs" "\<not> isspace c"
  proof (cases ws)
    case Nil
    then show ?thesis using that by (simp add: encode_chunks_def isspace_def)
  next
    case (Cons w ws')
    obtain x xs where "show_hex (length w) = x # xs" by (cases "show_hex (length w)") auto
    moreover have "\<not> isspace x" using show_hex_digits[of "length w"] is_hexD calculation by auto
    ultimately show ?thesis using that Cons by (simp add: encode_chunks_def encode_chunk_def)
  qed
  then show ?thesis using assms unfolding c(1) by (cases n) simp_all
qed

lemma chunks_decoded:
  assumes "list_all good_chunk ws" "\<forall>k. alloc k" "cb_data cb \<noteq> None" "0 < cb_size cb"
    "cb_size cb + sum_list (map (\<lambda>w. length w + SCRATCH_BUF_SIZE + 1) ws) < 2 ^ 63"
    "len + length ws = length (encode_chunks ws) + (3 + m)" "0 < m"
  shows "\<exists>cb' d. ParseChunkedMsgBody alloc (Some (encode_chunks ws @ last_chunk @ rest)) len (eh, cb)
     = Go (eh, cb') (size_sub len m) \<and> cb_data cb' = Some (concat ws @ NUL # d)"
proof -
  have b: "body_at 0 [] cb" using assms(3,4) by (auto simp: body_at_def)
  have p: "0 < len" using assms(6,7) length_encode_chunks(1)[of ws] by linarith
  from chunk_loop_encoded[OF assms(2,7,1) b assms(5,6), where len = len and eh = eh and rest = "CRLF @ rest"] assms(3)
  show ?thesis using encoded_start[OF p, of ws "CRLF @ CRLF @ rest"]
    by (auto simp: ParseChunkedMsgBody_def last_chunk_def simp del: append.simps(2))
qed

text \<open>
  C19. A chunked body is decoded: for any non-empty chunks whose data have no carriage return, encoded as
  RFC 2616 prescribes, the decoder stores exactly the concatenation of the chunks in the caller's buffer,
  grown as needed, terminates it with a NUL, records no error and returns true. The number of bytes it
  reports as used, however, is short by one for each chunk, as it does not count the line feed that ends
  the chunk's data, and by two for the empty line at the end. A carriage return in the data would end
  the chunk early, as the decoder looks for it instead of counting.
\<close>

theorem chunked_body_decoded:
  assumes "list_all good_chunk ws" "\<forall>k. alloc k" "cb_data cb \<noteq> None" "0 < cb_size cb"
    "cb_size cb + sum_list (map (\<lambda>w. length w + SCRATCH_BUF_SIZE + 1) ws) < 2 ^ 63"
    "len = length (encode_chunks ws @ last_chunk)" "len < 2 ^ 64"
  shows "\<exists>cb' d. ParseChunkedMsgBody alloc (Some (encode_chunks ws @ last_chunk @ rest)) len (eh, cb)
     = Go (eh, cb') (len - 2 - length ws) \<and> cb_data cb' = Some (concat ws @ NUL # d)"
proof -
  let ?m = "2 + length ws"
  have n: "len + length ws = length (encode_chunks ws) + (3 + ?m)" "0 < ?m" using assms(6) by (simp_all add: last_chunk_def)
  have "length ws \<le> length (encode_chunks ws)" by (rule length_encode_chunks)
  then have "size_sub len ?m = len - 2 - length ws"
    using assms(7) n by (simp add: size_sub_exact)
  with chunks_decoded[OF assms(1-5) n, where rest = rest and eh = eh] show ?thesis by simp
qed

theorem chunked_body_decoded_witness:
  "\<exists>cb' d. ParseChunkedMsgBody (\<lambda>_. True)
      (Some (encode_chunks [''Wiki'', ''pedia''] @ last_chunk)) 24 (ErrorHandler, \<lparr>cb_data = Some [], cb_size = 4096\<rparr>)
     = Go (ErrorHandler, cb') 20 \<and> cb_data cb' = Some (''Wikipedia'' @ NUL # d)"
proof -
  have "length (encode_chunks [''Wiki'', ''pedia''] @ last_chunk) = 24"
    by (simp add: encode_chunks_def encode_chunk_def last_chunk_def show_hex.simps)
  then show ?thesis
    using chunked_body_decoded[of "[''Wiki'', ''pedia'']" "\<lambda>_. True" "\<lparr>cb_data = Some [], cb_size = 4096\<rparr>" 24 "[]"]
    by (simp add: good_chunk_def SCRATCH_BUF_SIZE_def)
qed

text \<open>
  The decoder copies the data of a chunk up to the next carriage return and never compares it
  with the chunk's declared size, for which alone it grows the buffer: data longer than the
  buffer, under any smaller declared size, is written past the end of the heap buffer.
\<close>

theorem chunk_overflows_buffer:
  assumes "CR \<notin> set w" "cb_size cb < length w" "0 < k" "k < cb_size cb" "cb_size cb < 2 ^ 60"
    "cb_data cb = Some d" "n = length (show_hex k @ CRLF @ w @ CRLF)"
  shows "ParseChunkedMsgBody alloc (Some (show_hex k @ CRLF @ w @ CRLF @ rest)) n (eh, cb) = Fault"
proof -
  let ?mem = "show_hex k @ CRLF @ w @ CRLF @ rest"
  obtain x xs where x: "show_hex k = x # xs" "\<not> isspace x"
    using show_hex_digits[of k] is_hexD by (cases "show_hex k") auto
  have n: "n = length (show_hex k) + (2 + (length w + 2))" using assms(7) by simp
  have s: "scan isspace ?mem n = Some ([], ?mem, n)" unfolding n x(1) using x(2) by simp
  have l: "chunk_size_line n (eh, cb) (?mem, n) = Go (eh, cb) (int k, (w @ CRLF @ rest, length w + 2))"
    unfolding n using chunk_size_line_encoded[of k "length w + 2" _ "(eh, cb)" "w @ CRLF @ rest"] assms(4,5) by simp
  have "to_size_t (int k) = k" using assms(4,5) by (simp add: to_size_t_def)
  then have g: "chunk_grow alloc (int k) 0 (eh, cb) = Go (eh, cb) ()"
    using assms(4) by (simp add: chunk_grow_def)
  have "scan (\<lambda>c. c \<noteq> CR) (w @ CR # LF # rest) (length w + 2) = Some (w, CR # LF # rest, 2)"
    using assms(1) by (intro scan_stop) auto
  then have "chunk_data n 0 (eh, cb) (w @ CRLF @ rest, length w + 2) = Fault"
    using assms(2,6) by (simp add: chunk_data_def cb_write_def)
  then have "chunk_step alloc n 0 (eh, cb) (?mem, n) = Fault"
    using assms(3) by (simp add: chunk_step_def l g del: append.simps)
  then have "chunk_loop alloc n 0 (eh, cb) (?mem, n) = Fault"
    using n by (subst chunk_loop.simps) simp
  with s show ?thesis using assms(6) by (simp add: ParseChunkedMsgBody_def)
qed

theorem chunk_overflows_buffer_witness:
  "ParseChunkedMsgBody (\<lambda>_. True) (Some (show_hex 1 @ CRLF @ replicate 5000 (CHR ''a'') @ CRLF @ []))
     (length (show_hex 1 @ CRLF @ replicate 5000 (CHR ''a'') @ CRLF))
     (ErrorHandler, \<lparr>cb_data = Some [], cb_size = 4096\<rparr>) = Fault"
  by (rule chunk_overflows_buffer[where d = "[]"]) simp_all

end
