(* ===== verification/Http_Parse.thy ===== *)
theory Http_Parse
  imports Http_Chunked
begin

text \<open>
  The HTTP header parser of HTTPFraming.cc: ParseMsgHdr for one message header, ParseRequestHdr,
  ParseResponseHdr with its chunked tail, and InitFromBuf, which chooses between them. Each parser
  works on the HTTP object together with the error object; a return false, with or without an
  error recorded, is Stop.
\<close>

abbreviation http_err :: "(errh \<Rightarrow> errh) \<Rightarrow> http_st \<Rightarrow> http_st" where
  "http_err \<equiv> apsnd"

definition http_fail :: "string \<Rightarrow> http_st \<Rightarrow> http_st" where
  "http_fail m = http_err (error_Init EX_SOFTWARE (Some m))"

definition expected :: "string \<Rightarrow> string \<Rightarrow> string \<Rightarrow> string" where
  "expected fn what got = fn @ ''expected '' @ what @ '', '' @ got @ '': ''"

definition quoted :: "char \<Rightarrow> string" where
  "quoted c = [CHR 0x27, c, CHR 0x27]"

section \<open>One message header\<close>

definition fn_msg_hdr :: string where "fn_msg_hdr = ''HTTPFraming::ParseMsgHdr(): TODO(aka) ''"

definition value_byte :: "char \<Rightarrow> bool" where
  "value_byte c \<longleftrightarrow> c \<noteq> CHR '';'' \<and> c \<noteq> CR"

definition is_blank :: "char \<Rightarrow> bool" where
  "is_blank c \<longleftrightarrow> c = CHR 0x09 \<or> c = SP"

text \<open>The body of the parameter loop: the byte skipped, the key, the value, trailing blanks.\<close>

definition ParseParam :: "http_st \<Rightarrow> pos \<Rightarrow> (http_st, rfc822_parameter \<times> pos) run" where
  "ParseParam st p =
     bind_run (skip1 st p) (\<lambda>st p.
     bind_run (skip_ws st p) (\<lambda>st p.
     bind_run (take_field (\<lambda>c. c \<noteq> CHR ''='') st p) (\<lambda>st (k, p).
     bind_run (skip1 st p) (\<lambda>st p.
     bind_run (skip_ws st p) (\<lambda>st p.
     bind_run (take_field value_byte st p) (\<lambda>st (v, (mem, n)).
       case scan is_blank mem n of
         None \<Rightarrow> Fault
       | Some (_, mem', n') \<Rightarrow>
           if n' = 0 then Stop st else Go st (\<lparr>pkey = k, pvalue = v\<rparr>, (mem', n'))))))))"

lemma goes_ParseParam:
  "(\<And>x p'. snd p' < snd p \<Longrightarrow> Q st (x, p')) \<Longrightarrow> goes (ParseParam st p) Q"
  unfolding ParseParam_def
  by (auto intro!: goes_intro split: option.splits prod.splits dest!: scan_le)

lemma ParseParam_GoD: "ParseParam st (mem, n) = Go st' (x, (mem', n')) \<Longrightarrow> n' < n \<and> st' = st"
proof -
  assume r: "ParseParam st (mem, n) = Go st' (x, (mem', n'))"
  have "goes (ParseParam st (mem, n)) (\<lambda>st' (x, p'). snd p' < n \<and> st' = st)"
    by (rule goes_ParseParam) simp
  from goesD[OF this r] show ?thesis by simp
qed

function ParseParams :: "http_st \<Rightarrow> pos \<Rightarrow> rfc822_parameter list \<Rightarrow> (http_st, rfc822_parameter list \<times> pos) run" where
  "ParseParams st p ps = (case fst p of
      [] \<Rightarrow> Fault
    | c # _ \<Rightarrow> if c = CR then Go st (ps, p)
              else bind_run (ParseParam st p) (\<lambda>st' (x, p'). ParseParams st' p' (ps @ [x])))"
  by pat_completeness auto
termination
  by (relation "measure (\<lambda>(st, p, ps). snd p)") (auto dest: ParseParam_GoD)

declare ParseParams.simps [simp del]

text \<open>The end of a header line: at the carriage return everything of the line is known.\<close>

definition ParseFieldEnd :: "string \<Rightarrow> string \<Rightarrow> rfc822_parameter list \<Rightarrow> nat \<Rightarrow> http_st \<Rightarrow> pos \<Rightarrow> (http_st, nat) run" where
  "ParseFieldEnd name val ps len st p =
     bind_run (skip1 st p) (\<lambda>st (mem', n).
       case mem' of
         [] \<Rightarrow> Fault
       | d # _ \<Rightarrow>
           if d \<noteq> LF
           then fail_at http_err (expected fn_msg_hdr (quoted LF) ''got char'') len st (mem', n)
           else Go ((fst st)\<lparr>msg_hdrs := msg_hdrs (fst st) @
                      [\<lparr>field_name = name, field_value = val, parameters = ps\<rparr>]\<rparr>, snd st)
                  (size_sub len (n - 1)))"

text \<open>The header line from its name on; the object changes only at the end.\<close>

definition ParseField :: "nat \<Rightarrow> http_st \<Rightarrow> pos \<Rightarrow> (http_st, nat) run" where
  "ParseField len st p =
     bind_run (take_field (\<lambda>c. c \<noteq> CHR '':'') st p) (\<lambda>st (name, p).
     bind_run (skip1 st p) (\<lambda>st p.
     bind_run (skip_ws st p) (\<lambda>st p.
     bind_run (take_field value_byte st p) (\<lambda>st (val, p).
     bind_run (ParseParams st p []) (\<lambda>st (ps, p).
     ParseFieldEnd name val ps len st p)))))"

definition ParseMsgHdr :: "string \<Rightarrow> nat \<Rightarrow> http_st \<Rightarrow> (http_st, nat) run" where
  "ParseMsgHdr mem len st =
     (if len = 0 then Stop st
      else (case mem of
        [] \<Rightarrow> Fault
      | c # _ \<Rightarrow>
          if isspace c
          then (case read_cstr mem of
              None \<Rightarrow> Fault
            | Some s \<Rightarrow> Stop (http_fail (fn_msg_hdr @ ''found space signaling line continuation at buf[0]: '' @ s) st))
          else ParseField len st (mem, len)))"

lemma ParseParams_GoD:
  "ParseParams st p ps = Go st' (qs, p') \<Longrightarrow> snd p' \<le> snd p \<and> st' = st"
proof (induction st p ps rule: ParseParams.induct)
  case (1 st p ps)
  show ?case
  proof (cases "fst p")
    case Nil
    then show ?thesis using 1(2) by (simp add: ParseParams.simps)
  next
    case (Cons c cs)
    show ?thesis
    proof (cases "c = CR")
      case True
      then show ?thesis using 1(2) Cons by (simp add: ParseParams.simps[of st p])
    next
      case False
      then obtain x p1 s1 where r: "ParseParam st p = Go s1 (x, p1)" "ParseParams s1 p1 (ps @ [x]) = Go st' (qs, p')"
        using 1(2) Cons by (auto simp: ParseParams.simps[of st p] bind_run_Go)
      have "snd p1 < snd p \<and> s1 = st"
        using ParseParam_GoD[of st "fst p" "snd p" s1 x "fst p1" "snd p1"] r(1) by simp
      then show ?thesis using 1(1)[OF Cons False r(1) _ r(2)] by auto
    qed
  qed
qed

lemma goes_ParseParams [goes_intro]:
  "(\<And>qs p'. snd p' \<le> snd p \<Longrightarrow> Q st (qs, p')) \<Longrightarrow> goes (ParseParams st p ps) Q"
  using ParseParams_GoD[of st p ps] by (fastforce simp: goes_def)

lemma goes_ParseMsgHdr [goes_intro]:
  assumes "\<And>h k. 0 < n \<Longrightarrow> k \<le> n \<Longrightarrow> Q (h, snd st) k"
  shows "goes (ParseMsgHdr mem n st) Q"
proof (cases "n = 0")
  case False
  have "size_sub n (m - 1) \<le> n" if "m \<le> n" for m using size_sub_le[of "m - 1" n] that
    by (meson diff_le_self le_trans)
  with False assms show ?thesis
    unfolding ParseMsgHdr_def ParseField_def ParseFieldEnd_def
    by (auto intro!: goes_intro split: list.splits option.splits)
qed (simp add: ParseMsgHdr_def)

lemma ParseMsgHdr_used: "ParseMsgHdr mem n st = Go st' k \<Longrightarrow> k \<le> n"
  using goesD[OF goes_ParseMsgHdr[of n "\<lambda>_ k. k \<le> n"]] by blast

interpretation hdr_parser: buf_parser ParseMsgHdr
  by unfold_locales (rule ParseMsgHdr_used)

section \<open>Parts the two header parsers share\<close>

definition clear_hdrs :: "http_st \<Rightarrow> http_st" where
  "clear_hdrs st = ((fst st)\<lparr>msg_hdrs := []\<rparr>, snd st)"

fun on_stop :: "('s \<Rightarrow> 's) \<Rightarrow> ('s, 'a) run \<Rightarrow> ('s, 'a) run" where
  "on_stop f Fault = Fault"
| "on_stop f (Stop s) = Stop (f s)"
| "on_stop f (Go s a) = Go s a"

fun map_state :: "('s \<Rightarrow> 't) \<Rightarrow> ('s, 'a) run \<Rightarrow> ('t, 'a) run" where
  "map_state f Fault = Fault"
| "map_state f (Stop s) = Stop (f s)"
| "map_state f (Go s a) = Go (f s) a"

text \<open>A decimal number, converted from long to int.\<close>

definition ParseNumber :: "http_st \<Rightarrow> pos \<Rightarrow> (http_st, int \<times> pos) run" where
  "ParseNumber st p = bind_run (take_field isdigit st p) (\<lambda>st (s, p). Go st (to_int (strtol 10 s), p))"

definition kHTTPSlash :: string where "kHTTPSlash = ''HTTP/''"

definition known_version :: "int \<Rightarrow> int \<Rightarrow> bool" where
  "known_version ma mi \<longleftrightarrow> ma = 1 \<and> mi = 1 \<or> ma = 1 \<and> mi = 0 \<or> ma = 0 \<and> mi = 9"

text \<open>
  \<^verbatim>\<open>HTTP/<major>.<minor>\<close>; the two arguments are the texts that open the error
  messages for a missing dot and for an unknown version.
\<close>

definition ParseVersion :: "string \<Rightarrow> string \<Rightarrow> nat \<Rightarrow> http_st \<Rightarrow> pos \<Rightarrow> (http_st, pos) run" where
  "ParseVersion dot_msg ver_msg len st p =
     (if snd p > length kHTTPSlash \<and> strncaseeq kHTTPSlash (fst p) (length kHTTPSlash)
      then
        bind_run (ParseNumber st (drop (length kHTTPSlash) (fst p), snd p - length kHTTPSlash)) (\<lambda>st (ma, p).
        bind_run (expect http_err dot_msg CHR ''.'' len ((fst st)\<lparr>major := ma\<rparr>, snd st) p) (\<lambda>st p.
        bind_run (ParseNumber st p) (\<lambda>st (mi, p).
        let st = ((fst st)\<lparr>minor := mi\<rparr>, snd st) in
        if known_version (major (fst st)) mi then Go st p
        else Stop (http_fail (ver_msg @ show_int (major (fst st)) @ ''.'' @ show_int mi) st))))
      else Stop st)"

text \<open>
  The header loop. ParseMsgHdr returns at most the count it is given, so the subtraction is
  exact; note is what the caller adds to an error.
\<close>

function ParseMsgHdrs :: "(http_st \<Rightarrow> http_st) \<Rightarrow> http_st \<Rightarrow> pos \<Rightarrow> (http_st, pos) run" where
  "ParseMsgHdrs note st p = (case fst p of
      [] \<Rightarrow> Fault
    | c # _ \<Rightarrow>
        if c = CR then Go st p
        else (case ParseMsgHdr (fst p) (snd p) st of
            Fault \<Rightarrow> Fault
          | Stop st' \<Rightarrow> Stop (clear_hdrs (note st'))
          | Go st' m \<Rightarrow>
              if m = 0 \<or> snd p - m = 0 then Stop (clear_hdrs (note st'))
              else ParseMsgHdrs note st' (drop m (fst p), snd p - m)))"
  by pat_completeness auto
termination
  by (relation "measure (\<lambda>(note, st, p). snd p)") auto

declare ParseMsgHdrs.simps [simp del]

section \<open>Requests\<close>

definition fn_request :: string where "fn_request = ''HTTPFraming::ParseRequestHdr(): ''"

definition skip_method :: "int \<Rightarrow> nat \<Rightarrow> http_st \<Rightarrow> pos \<Rightarrow> (http_st, pos) run" where
  "skip_method m k st p = Go (set_method m (fst st), snd st) (drop k (fst p), snd p - k)"

definition ParseMethod :: "http_st \<Rightarrow> pos \<Rightarrow> (http_st, pos) run" where
  "ParseMethod st p =
     (if snd p < 16 then Stop st
      else if strncaseeq ''GET'' (fst p) 3 then skip_method GET 3 st p
      else if strncaseeq ''PUT'' (fst p) 3 then skip_method PUT 3 st p
      else if strncaseeq ''HEAD'' (fst p) 4 then skip_method HEAD 4 st p
      else if strncaseeq ''POST'' (fst p) 4 then skip_method POST 4 st p
      else if strncaseeq ''DELETE'' (fst p) 6 then skip_method DELETE 6 st p
      else (case read_cstr (fst p) of
          None \<Rightarrow> Fault
        | Some s \<Rightarrow> Stop (http_fail (fn_request @ ''unknown method: '' @ s) st)))"

definition ParseUri :: "16 word \<Rightarrow> http_st \<Rightarrow> pos \<Rightarrow> (http_st, pos) run" where
  "ParseUri default_port st p =
     (case url_InitFromBuf default_port (Some (fst p)) (snd p) (uri (fst st), snd st) of
        Fault \<Rightarrow> Fault
      | Stop (u, eh) \<Rightarrow> Stop ((fst st)\<lparr>uri := u\<rparr>, eh)
      | Go (u, eh) m \<Rightarrow>
          (let st = ((fst st)\<lparr>uri := u\<rparr>, eh)
           in if m = 0 \<or> snd p - m = 0 then Stop st else Go st (drop m (fst p), snd p - m)))"

definition ParseRequestLine :: "16 word \<Rightarrow> nat \<Rightarrow> http_st \<Rightarrow> pos \<Rightarrow> (http_st, pos) run" where
  "ParseRequestLine default_port len st p =
     bind_run (ParseMethod st p) (\<lambda>st p.
     bind_run (expect http_err (expected fn_request ''SP'' ''got char'') SP len st p) (\<lambda>st p.
     bind_run (ParseUri default_port st p) (\<lambda>st p.
     bind_run (expect http_err (expected fn_request ''SP'' ''got char'') SP len st p) (\<lambda>st p.
     bind_run (ParseVersion (expected (fn_request @ ''TODO(aka) '') (quoted CHR ''.'') ''got char'')
         ''HTTPFraming::Parse_Request_Hdr(): received unknown HTTP header version: '' len st p) (\<lambda>st p.
     bind_run (expect http_err (expected fn_request (quoted CR) ''got'') CR len st p) (\<lambda>st p.
     expect http_err (expected fn_request (quoted LF) ''got'') LF len st p))))))"

text \<open>The empty line after the message headers; every return without success forgets the headers.\<close>

definition ParseRequestEnd :: "nat \<Rightarrow> http_st \<Rightarrow> pos \<Rightarrow> (http_st, nat) run" where
  "ParseRequestEnd len st p = on_stop clear_hdrs
     (bind_run (expect http_err (expected fn_request (quoted CR) ''got'') CR len st p) (\<lambda>st p.
      bind_run (expect http_err (expected fn_request (quoted LF) ''got'') LF len st p) (\<lambda>st p.
      Go ((fst st)\<lparr>msg_type := REQUEST\<rparr>, snd st) (size_sub len (snd p)))))"

definition ParseRequestHdr :: "16 word \<Rightarrow> string option \<Rightarrow> nat \<Rightarrow> http_st \<Rightarrow> (http_st, nat) run" where
  "ParseRequestHdr default_port buf len st = (case buf of
      None \<Rightarrow> Stop (http_fail (fn_request @ ''buf is NULL'') st)
    | Some mem \<Rightarrow>
        (case scan isspace mem len of
           None \<Rightarrow> Fault
         | Some (_, mem', n') \<Rightarrow>
             bind_run (ParseRequestLine default_port len st (mem', n')) (\<lambda>st p.
             bind_run (ParseMsgHdrs id st p) (\<lambda>st p.
             ParseRequestEnd len st p))))"

section \<open>Responses\<close>

definition fn_response :: string where "fn_response = ''HTTPFraming::ParseResponseHdr(): TODO(aka) ''"

definition response_note :: "http_st \<Rightarrow> http_st" where
  "response_note st = (if event_flag (snd st)
     then http_err (error_AppendMsg (Some ''HTTPFraming::ParseResponseHdr(): '')) st else st)"

definition ParseResponseMsgHdrs :: "http_st \<Rightarrow> pos \<Rightarrow> (http_st, pos) run" where
  "ParseResponseMsgHdrs = ParseMsgHdrs response_note"

definition ParseStatusLine :: "nat \<Rightarrow> http_st \<Rightarrow> pos \<Rightarrow> (http_st, pos) run" where
  "ParseStatusLine len st p =
     bind_run (ParseVersion (expected fn_response (quoted CHR ''.'') ''got char'')
         (fn_response @ ''received unknown HTTP header version: '') len st p) (\<lambda>st p.
     bind_run (expect http_err (expected fn_response ''SP'' ''got char'') SP len st p) (\<lambda>st p.
     bind_run (ParseNumber st p) (\<lambda>st (code, p).
     bind_run (expect http_err (expected fn_response ''SP'' ''got char'') SP len
                 (set_status_code code (fst st), snd st) p) (\<lambda>st p.
     bind_run (take_field (\<lambda>c. c \<noteq> CR) st p) (\<lambda>st (status_phrase, p).
     bind_run (expect http_err (expected fn_response (quoted CR) ''got'') CR len st p) (\<lambda>st p.
     expect http_err (expected fn_response (quoted LF) ''got'') LF len st p))))))"

text \<open>The last line feed of the header is stepped over without a test of the count.\<close>

definition ParseHdrEnd :: "nat \<Rightarrow> http_st \<Rightarrow> pos \<Rightarrow> (http_st, pos) run" where
  "ParseHdrEnd len st p = on_stop clear_hdrs
     (bind_run (skip1 st p) (\<lambda>st (mem, n). case mem of
         [] \<Rightarrow> Fault
       | d # mem' \<Rightarrow>
           if d \<noteq> LF then fail_at http_err (expected fn_response (quoted LF) ''got'') len st (mem, n)
           else Go ((fst st)\<lparr>msg_type := RESPONSE\<rparr>, snd st) (mem', n - 1)))"

type_synonym http_cb = "http_st \<times> chunk_buf"

definition is_chunked :: "http \<Rightarrow> bool" where
  "is_chunked h \<longleftrightarrow> same_name MIME_CHUNKED (transfer_encoding h)"

text \<open>
  The chunked tail. The decoder is given \<^verbatim>\<open>len - n\<close>, the bytes used so far, as the
  length of the body.
\<close>

definition ParseResponseBody :: "(nat \<Rightarrow> bool) \<Rightarrow> nat \<Rightarrow> http_cb \<Rightarrow> pos \<Rightarrow> (http_cb, nat) run" where
  "ParseResponseBody alloc len st p =
     (let h = fst (fst st); eh = snd (fst st); cb = snd st; n = snd p in
      if n > 0
      then if is_chunked h
           then (case ParseChunkedMsgBody alloc (Some (fst p)) (size_sub len n) (eh, cb) of
               Fault \<Rightarrow> Fault
             | Stop (eh', cb') \<Rightarrow> Stop (clear_hdrs (response_note (h, eh')), cb')
             | Go (eh', cb') used \<Rightarrow> Go ((h, eh'), cb') (size_sub len (size_sub n used)))
           else Go st (size_sub len n)
      else if is_chunked h then Stop (clear_hdrs (fst st), cb)
      else Go st (size_sub len n))"

definition ParseResponseHdr :: "(nat \<Rightarrow> bool) \<Rightarrow> string option \<Rightarrow> nat \<Rightarrow> http_cb \<Rightarrow> (http_cb, nat) run" where
  "ParseResponseHdr alloc buf len st = (case buf of
      None \<Rightarrow> Stop (http_fail (fn_response @ ''buf is NULL'') (fst st), snd st)
    | Some mem \<Rightarrow>
        (case scan isspace mem len of
           None \<Rightarrow> Fault
         | Some (_, mem', n') \<Rightarrow>
             bind_run (map_state (\<lambda>s. (s, snd st))
               (bind_run (ParseStatusLine len (fst st) (mem', n')) (\<lambda>st p.
                bind_run (ParseResponseMsgHdrs st p) (\<lambda>st p. ParseHdrEnd len st p))))
             (\<lambda>st p. ParseResponseBody alloc len st p)))"

section \<open>InitFromBuf\<close>

definition finish_parse :: "nat \<Rightarrow> nat \<Rightarrow> (http_cb, nat) run \<Rightarrow> (http_cb, nat) run" where
  "finish_parse len n r =
     (let failed = (\<lambda>st. event_flag (snd (fst st)));
          note = (\<lambda>st. (http_err (error_AppendMsg (Some ''HTTPFraming::InitFromBuf(): '')) (fst st), snd st))
      in case r of
           Fault \<Rightarrow> Fault
         | Stop st \<Rightarrow> Stop (if failed st then note st else st)
         | Go st k \<Rightarrow> if failed st then Stop (note st) else Go st ((size_sub len n + k) mod 2 ^ 64))"

definition begins :: "string \<Rightarrow> pos \<Rightarrow> bool" where
  "begins kw p \<longleftrightarrow> snd p \<ge> length kw \<and> strncaseeq kw (fst p) (length kw)"

definition http_InitFromBuf ::
  "(nat \<Rightarrow> bool) \<Rightarrow> 16 word \<Rightarrow> string option \<Rightarrow> nat \<Rightarrow> http_cb \<Rightarrow> (http_cb, nat) run" where
  "http_InitFromBuf alloc default_port buf len st =
     (let st = ((http_clear (fst (fst st)), snd (fst st)), snd st) in
      case buf of
        None \<Rightarrow> Stop (http_fail ''HTTPFraming::InitFromBuf(): buf is NULL'' (fst st), snd st)
      | Some mem \<Rightarrow>
          (case scan isspace mem len of
             None \<Rightarrow> Fault
           | Some (_, mem', n) \<Rightarrow>
               if begins ''GET'' (mem', n) \<or> begins ''HEAD'' (mem', n) \<or> begins ''POST'' (mem', n)
                  \<or> begins ''PUT'' (mem', n) \<or> begins ''DELETE'' (mem', n)
               then finish_parse len n
                      (map_state (\<lambda>s. (s, snd st)) (ParseRequestHdr default_port (Some mem') n (fst st)))
               else if begins kHTTPSlash (mem', n)
               then finish_parse len n (ParseResponseHdr alloc (Some mem') n st)
               else if n \<ge> length ''DELETE''
               then (case read_cstr mem' of
                   None \<Rightarrow> Fault
                 | Some s \<Rightarrow> Stop (http_fail (''HTTPFraming::InitFromBuf(): unknown status-line: '' @ s) (fst st), snd st))
               else Stop st))"

section \<open>Safety\<close>

lemma safe_ParseParam [safe_intro]:
  assumes "in_buf p" "0 < snd p" "\<And>x p'. in_buf p' \<Longrightarrow> 0 < snd p' \<Longrightarrow> snd p' < snd p \<Longrightarrow> Q st (x, p')"
  shows "safe (ParseParam st p) Q"
proof -
  have blank: "safe (case scan is_blank mem n of None \<Rightarrow> Fault
       | Some (_, mem', n') \<Rightarrow> if n' = 0 then Stop st else Go st (x, (mem', n'))) Q"
    if n: "in_buf (mem, n)" "n < snd p" for mem n x
  proof -
    obtain w mem' n' where "scan is_blank mem n = Some (w, mem', n')" "in_buf (mem', n')" "n' \<le> n"
      using scan_in_buf[OF n(1), of is_blank] by (metis fst_conv snd_conv)
    then show ?thesis using assms(3)[of "(mem', n')" x] n(2) by auto
  qed
  show ?thesis unfolding ParseParam_def
    by (auto intro!: safe_intro blank assms(1,2))
qed

lemma safe_ParseParams [safe_intro]:
  "\<lbrakk>in_buf p; 0 < snd p;
    \<And>qs p'. in_buf p' \<Longrightarrow> 0 < snd p' \<Longrightarrow> snd p' \<le> snd p \<Longrightarrow> Q st (qs, p')\<rbrakk> \<Longrightarrow> safe (ParseParams st p ps) Q"
proof (induction st p ps rule: ParseParams.induct)
  case (1 st p ps)
  obtain c cs where c: "fst p = c # cs" using in_buf_Cons[OF 1(2)] by blast
  show ?case
  proof (cases "c = CR")
    case True
    then show ?thesis using 1(4)[OF 1(2,3)] c by (simp add: ParseParams.simps)
  next
    case False
    have "safe (ParseParam st p) (\<lambda>st' (x, p'). safe (ParseParams st' p' (ps @ [x])) Q)"
    proof (cases "ParseParam st p")
      case Fault
      have "safe (ParseParam st p) (\<lambda>_ _. True)" by (intro safe_intro 1(2,3)) simp
      with Fault show ?thesis by simp
    next
      case (Go s1 xp)
      obtain x p1 where xp: "xp = (x, p1)" by (cases xp)
      have "safe (ParseParam st p) (\<lambda>s (x, p'). s = st \<and> in_buf p' \<and> 0 < snd p' \<and> snd p' < snd p)"
        by (intro safe_intro 1(2,3)) simp
      then have p1: "s1 = st" "in_buf p1" "0 < snd p1" "snd p1 < snd p" using Go xp by simp_all
      have "safe (ParseParams s1 p1 (ps @ [x])) Q"
        using p1 1(4) by (intro 1(1)[OF c False Go xp[symmetric]]) auto
      with Go xp show ?thesis by simp
    qed simp
    then show ?thesis using c False
      by (subst ParseParams.simps) (auto intro!: safe_bind elim: safe_mono split: prod.splits)
  qed
qed

lemma safe_ParseMsgHdr [safe_intro]:
  assumes "in_buf (mem, n)" "\<And>h k. k \<le> n \<Longrightarrow> Q (h, snd st) k"
  shows "safe (ParseMsgHdr mem n st) Q"
proof (cases "n = 0")
  case False
  obtain c cs where c: "mem = c # cs" using in_buf_Cons[OF assms(1)] by auto
  have used: "size_sub n (m - 1) \<le> n" if "m \<le> n" for m
    using size_sub_le[of "m - 1" n] that by (meson diff_le_self le_trans)
  have last: "safe (case mem' of [] \<Rightarrow> Fault
      | d # _ \<Rightarrow> if d \<noteq> LF then fail_at http_err (expected fn_msg_hdr (quoted LF) ''got char'') n st (mem', m)
                else Go ((fst st)\<lparr>msg_hdrs := hs\<rparr>, snd st) (size_sub n (m - 1))) Q"
    if "in_buf (mem', m)" "m \<le> n" for mem' m hs
    using in_buf_Cons[OF that(1)] safe_fail_at[OF that(1)] assms(2) used[OF that(2)] by auto
  show ?thesis
    using False c in_buf_nul[OF assms(1)] assms(1) unfolding ParseMsgHdr_def ParseField_def ParseFieldEnd_def
    by (auto simp: read_cstr_def intro!: safe_intro last)
qed (simp add: ParseMsgHdr_def)

lemma safe_ParseMsgHdrs [safe_intro]:
  "\<lbrakk>in_buf p; 0 < snd p;
    \<And>h p'. in_buf p' \<Longrightarrow> 0 < snd p' \<Longrightarrow> snd p' \<le> snd p \<Longrightarrow> Q (h, snd st) p'\<rbrakk> \<Longrightarrow> safe (ParseMsgHdrs nt st p) Q"
proof (induction nt st p rule: ParseMsgHdrs.induct)
  case (1 nt st p)
  obtain c cs where c: "fst p = c # cs" using in_buf_Cons[OF 1(2)] by blast
  show ?case
  proof (cases "c = CR")
    case True
    then show ?thesis using 1(4)[of p "fst st"] 1(2,3) c by (simp add: ParseMsgHdrs.simps)
  next
    case False
    have s: "safe (ParseMsgHdr (fst p) (snd p) st) (\<lambda>s k. snd s = snd st \<and> k \<le> snd p)"
      using 1(2) by (intro safe_intro) auto
    show ?thesis
    proof (cases "ParseMsgHdr (fst p) (snd p) st")
      case Fault
      with s show ?thesis by simp
    next
      case (Go st' m)
      have st': "snd st' = snd st" "m \<le> snd p" using s Go by simp_all
      have "in_buf (drop m (fst p), snd p - m)" using in_buf_dropn[of "fst p" "snd p" m] 1(2) st' by simp
      then have "safe (ParseMsgHdrs nt st' (drop m (fst p), snd p - m)) Q"
        if "m \<noteq> 0" "snd p - m \<noteq> 0"
        using that 1(4) st' by (intro 1(1)[OF c False Go]) auto
      then show ?thesis using c False Go by (subst ParseMsgHdrs.simps) auto
    next
      case (Stop st')
      then show ?thesis using c False by (subst ParseMsgHdrs.simps) simp
    qed
  qed
qed

lemma safe_ParseNumber [safe_intro]:
  "\<lbrakk>in_buf p; \<And>v p'. in_buf p' \<Longrightarrow> 0 < snd p' \<Longrightarrow> snd p' \<le> snd p \<Longrightarrow> Q st (v, p')\<rbrakk> \<Longrightarrow> safe (ParseNumber st p) Q"
  unfolding ParseNumber_def by (auto intro!: safe_intro)

lemma safe_ParseVersion [safe_intro]:
  assumes "in_buf p" "\<And>h p'. in_buf p' \<Longrightarrow> 0 < snd p' \<Longrightarrow> snd p' \<le> snd p \<Longrightarrow> Q (h, snd st) p'"
  shows "safe (ParseVersion dm vm len st p) Q"
proof -
  have "in_buf (drop (length kHTTPSlash) (fst p), snd p - length kHTTPSlash)" if "snd p > length kHTTPSlash"
    using in_buf_dropn[of "fst p" "snd p" "length kHTTPSlash"] that assms(1) by simp
  then show ?thesis unfolding ParseVersion_def Let_def
    by (auto intro!: safe_intro assms(2))
qed

lemma safe_ParseMethod [safe_intro]:
  assumes "in_buf p" "\<And>h p'. in_buf p' \<Longrightarrow> 0 < snd p' \<Longrightarrow> snd p' \<le> snd p \<Longrightarrow> Q (h, snd st) p'"
  shows "safe (ParseMethod st p) Q"
proof -
  have skip: "safe (skip_method m k st p) Q" if "k \<le> 6" "\<not> snd p < 16" for m k
    using in_buf_dropn[of "fst p" "snd p" k] that assms by (auto simp: skip_method_def)
  have "NUL \<in> set (fst p)" using in_buf_nul[of "fst p" "snd p"] assms(1) by simp
  then show ?thesis unfolding ParseMethod_def by (auto simp: read_cstr_def intro!: skip)
qed

lemma safe_ParseUri [safe_intro]:
  assumes "in_buf p" "\<And>s p'. in_buf p' \<Longrightarrow> 0 < snd p' \<Longrightarrow> snd p' \<le> snd p \<Longrightarrow> Q s p'"
  shows "safe (ParseUri d st p) Q"
proof -
  have s: "url_InitFromBuf d (Some (fst p)) (snd p) u \<noteq> Fault \<and>
    (\<forall>st' k. url_InitFromBuf d (Some (fst p)) (snd p) u = Go st' k \<longrightarrow> k \<le> snd p)" for u
    using assms(1) in_buf_nul[of "fst p" "snd p"]
    by (intro url_InitFromBuf_safe) (auto simp: in_buf_def SCRATCH_BUF_SIZE_def kURLMaxSize_def)
  show ?thesis
  proof (cases "url_InitFromBuf d (Some (fst p)) (snd p) (uri (fst st), snd st)")
    case (Go u m)
    then have m: "m \<le> snd p" using s by blast
    have "in_buf (drop m (fst p), snd p - m)" using in_buf_dropn[of "fst p" "snd p" m] m assms(1) by simp
    then show ?thesis using Go assms(2) by (auto simp: ParseUri_def Let_def split: prod.splits)
  qed (use s in \<open>auto simp: ParseUri_def split: prod.splits\<close>)
qed

lemma safe_ParseRequestLine [safe_intro]:
  assumes "in_buf p" "\<And>s p'. in_buf p' \<Longrightarrow> 0 < snd p' \<Longrightarrow> snd p' \<le> snd p \<Longrightarrow> Q s p'"
  shows "safe (ParseRequestLine d len st p) Q"
  unfolding ParseRequestLine_def by (auto intro!: safe_intro assms)

lemma safe_on_stop [safe_intro]: "safe r Q \<Longrightarrow> safe (on_stop f r) Q"
  by (cases r) auto

lemma ParseRequestHdr_safe:
  assumes "in_buf (mem, len)"
  shows "safe (ParseRequestHdr d (Some mem) len st) (\<lambda>_ k. k < len)"
proof -
  obtain w mem' n' where s: "scan isspace mem len = Some (w, mem', n')" "in_buf (mem', n')" "n' \<le> len"
    using scan_in_buf[OF assms, of isspace] by (metis fst_conv snd_conv)
  have used: "size_sub len m < len" if "0 < m" "m \<le> len" for m
    using size_sub_le[of m len] that by linarith
  show ?thesis
    using s unfolding ParseRequestHdr_def ParseRequestEnd_def
    by (auto intro!: safe_intro used)
qed

text \<open>The count never rises, whatever the buffer holds.\<close>

lemma goes_ParseMsgHdrs [goes_intro]:
  "(\<And>h p'. snd p' \<le> snd p \<Longrightarrow> Q (h, snd st) p') \<Longrightarrow> goes (ParseMsgHdrs nt st p) Q"
proof (induction nt st p rule: ParseMsgHdrs.induct)
  case (1 nt st p)
  show ?case
  proof (cases "fst p")
    case Nil
    then show ?thesis by (simp add: ParseMsgHdrs.simps)
  next
    case (Cons c cs)
    show ?thesis
    proof (cases "c = CR")
      case True
      then show ?thesis using 1(2)[of p "fst st"] Cons by (simp add: ParseMsgHdrs.simps)
    next
      case False
      show ?thesis
      proof (cases "ParseMsgHdr (fst p) (snd p) st")
        case (Go s1 m)
        have "goes (ParseMsgHdr (fst p) (snd p) st) (\<lambda>s k. snd s = snd st)" by (intro goes_intro) simp
        then have "snd s1 = snd st" using Go by simp
        then have "goes (ParseMsgHdrs nt s1 (drop m (fst p), snd p - m)) Q" if "m \<noteq> 0" "snd p - m \<noteq> 0"
          using that 1(2) by (intro 1(1)[OF Cons False Go]) auto
        then show ?thesis using Cons False Go by (subst ParseMsgHdrs.simps) auto
      qed (simp_all add: ParseMsgHdrs.simps Cons False)
    qed
  qed
qed

lemma goes_ParseNumber [goes_intro]:
  "(\<And>v p'. snd p' \<le> snd p \<Longrightarrow> 0 < snd p' \<Longrightarrow> Q st (v, p')) \<Longrightarrow> goes (ParseNumber st p) Q"
  unfolding ParseNumber_def by (auto intro!: goes_intro)

lemma goes_ParseVersion [goes_intro]:
  assumes "\<And>h p'. snd p' \<le> snd p \<Longrightarrow> Q (h, snd st) p'"
  shows "goes (ParseVersion dm vm len st p) Q"
  unfolding ParseVersion_def Let_def by (auto intro!: goes_intro assms)

lemma goes_ParseMethod [goes_intro]:
  "(\<And>h p'. snd p' \<le> snd p \<Longrightarrow> Q (h, snd st) p') \<Longrightarrow> goes (ParseMethod st p) Q"
  unfolding ParseMethod_def skip_method_def by (auto split: option.splits)

lemma goes_ParseUri [goes_intro]:
  "(\<And>s p'. snd p' \<le> snd p \<Longrightarrow> Q s p') \<Longrightarrow> goes (ParseUri d st p) Q"
  unfolding ParseUri_def Let_def by (auto split: run.splits prod.splits)

lemma goes_ParseRequestLine [goes_intro]:
  assumes "\<And>s p'. snd p' \<le> snd p \<Longrightarrow> Q s p'"
  shows "goes (ParseRequestLine d len st p) Q"
  unfolding ParseRequestLine_def by (auto intro!: goes_intro assms)

lemma goes_on_stop [goes_intro]: "goes r Q \<Longrightarrow> goes (on_stop f r) Q"
  by (cases r) auto

lemma ParseRequestHdr_used: "goes (ParseRequestHdr d (Some mem) len st) (\<lambda>_ k. k < len)"
proof -
  have used: "size_sub len m < len" if "0 < m" "m \<le> len" for m
    using size_sub_le[of m len] that by linarith
  show ?thesis
    unfolding ParseRequestHdr_def ParseRequestEnd_def
    by (auto split: option.splits prod.splits dest!: scan_le intro!: goes_intro used)
qed

interpretation request_parser: buf_parser "\<lambda>mem n. ParseRequestHdr d (Some mem) n"
proof
  fix mem n s t k
  assume "ParseRequestHdr d (Some mem) n s = Go t k"
  then have "k < n" by (rule goesD[OF ParseRequestHdr_used])
  then show "k \<le> n" by simp
qed

text \<open>
  C10. ParseRequestHdr has no undefined behaviour on a buffer that is NUL-terminated at or after
  the count it is given, for counts below the 4096 bytes of its scratch buffer: it never reads
  past the buffer, overflows a scratch buffer or lets its counter run below 0, whatever the bytes.
\<close>

theorem request_parse_safe:
  assumes "len < length mem" "NUL \<in> set (drop len mem)" "len < SCRATCH_BUF_SIZE"
  shows "ParseRequestHdr default_port (Some mem) len st \<noteq> Fault"
  by (rule safe_no_fault, rule ParseRequestHdr_safe) (simp add: in_buf_def assms)

theorem request_parse_safe_witness:
  "ParseRequestHdr 80 (Some (''GET http://a/ HTTP/1.1'' @ [NUL])) 22 (HTTPFraming, ErrorHandler) \<noteq> Fault"
  using request_parse_safe[of 22 "''GET http://a/ HTTP/1.1'' @ [NUL]" 80 "(HTTPFraming, ErrorHandler)"]
  by (simp add: SCRATCH_BUF_SIZE_def eval_nat_numeral)

text \<open>
  C40. A request header is only accepted when at least one byte follows it: whenever ParseRequestHdr
  succeeds it has used strictly less than the bytes it was given. A request without a body that
  ends with its blank line (any plain GET) is therefore reported as incomplete for ever.
\<close>

theorem request_needs_following_byte:
  "ParseRequestHdr default_port (Some mem) len st = Go st' k \<Longrightarrow> k < len"
  by (rule goesD[OF ParseRequestHdr_used])

section \<open>Printing and parsing headers\<close>

definition wf_param :: "rfc822_parameter \<Rightarrow> bool" where
  "wf_param x \<longleftrightarrow> no_nul (pkey x) \<and> CHR ''='' \<notin> set (pkey x) \<and> (pkey x \<noteq> [] \<longrightarrow> \<not> isspace (hd (pkey x)))
     \<and> no_nul (pvalue x) \<and> list_all value_byte (pvalue x) \<and> pvalue x \<noteq> [] \<and> \<not> isspace (hd (pvalue x))"

definition wf_hdr :: "rfc822_msg_hdr \<Rightarrow> bool" where
  "wf_hdr m \<longleftrightarrow> no_nul (field_name m) \<and> CHR '':'' \<notin> set (field_name m) \<and> field_name m \<noteq> []
     \<and> \<not> isspace (hd (field_name m))
     \<and> no_nul (field_value m) \<and> list_all value_byte (field_value m) \<and> field_value m \<noteq> []
     \<and> \<not> isspace (hd (field_value m))
     \<and> list_all wf_param (parameters m)"

fun params_text :: "rfc822_parameter list \<Rightarrow> string" where
  "params_text [] = []"
| "params_text (x # xs) = ''; '' @ pkey x @ ''='' @ pvalue x @ params_text xs"

definition hdr_text :: "rfc822_msg_hdr \<Rightarrow> string" where
  "hdr_text m = field_name m @ '': '' @ field_value m @ params_text (parameters m) @ CRLF"

lemma print_params_text:
  "list_all wf_param ps \<Longrightarrow> ps \<noteq> [] \<Longrightarrow> ''; '' @ concat (print_params ps) = params_text ps @ CRLF"
  by (induction ps rule: print_params.induct) (auto simp: wf_param_def)

lemma print_one_hdr_text: "wf_hdr m \<Longrightarrow> concat (print_one_hdr m) = hdr_text m"
  using print_params_text[of "parameters m"]
  by (auto simp: print_one_hdr_def hdr_text_def wf_hdr_def)

lemma take_field_step:
  assumes "list_all f w" "rest \<noteq> []" "\<not> f (hd rest)" "length w < SCRATCH_BUF_SIZE" "0 < m" "no_nul w"
    "n = length w + m"
  shows "take_field f st (w @ rest, n) = Go st (w, (rest, m))"
  using take_field_Go[of w f rest m st] assms by (simp add: list_all_iff)

lemma skip_ws_none:
  "rest \<noteq> [] \<Longrightarrow> \<not> isspace (hd rest) \<Longrightarrow> 0 < m \<Longrightarrow> skip_ws st (rest, m) = Go st (rest, m)"
  using skip_ws_Go[of "[]" rest m st] by simp

lemma skip_ws_one:
  "rest \<noteq> [] \<Longrightarrow> \<not> isspace (hd rest) \<Longrightarrow> 0 < m \<Longrightarrow> skip_ws st (SP # rest, Suc m) = Go st (rest, m)"
  using skip_ws_Go[of "[SP]" rest m st] by (simp add: isspace_def)

lemma ParseParam_text:
  assumes "wf_param x" "length (pkey x) < SCRATCH_BUF_SIZE" "length (pvalue x) < SCRATCH_BUF_SIZE"
    "rest \<noteq> []" "hd rest = CHR '';'' \<or> hd rest = CR" "0 < m"
    "n = 2 + (length (pkey x) + (1 + (length (pvalue x) + m)))"
  shows "ParseParam st (''; '' @ pkey x @ ''='' @ pvalue x @ rest, n) = Go st (x, (rest, m))"
proof -
  note w = assms(1)[unfolded wf_param_def]
  let ?v = "pvalue x @ rest" and ?kv = "pkey x @ CHR ''='' # pvalue x @ rest"
  define mv where "mv = length (pvalue x) + m"
  define mk where "mk = length (pkey x) + Suc mv"
  have hk: "\<not> isspace (hd ?kv)" using w by (cases "pkey x") (auto simp: isspace_def)
  have hv: "\<not> isspace (hd ?v)" "?v \<noteq> []" using w by auto
  have 1: "skip_ws st (SP # ?kv, Suc mk) = Go st (?kv, mk)"
    using hk by (intro skip_ws_one) (auto simp: mk_def)
  have 2: "take_field (\<lambda>c. c \<noteq> CHR ''='') st (?kv, mk) = Go st (pkey x, (CHR ''='' # ?v, Suc mv))"
    using w assms(2) by (intro take_field_step) (auto simp: mk_def list_all_iff)
  have 3: "skip_ws st (?v, mv) = Go st (?v, mv)"
    using hv assms(6) by (intro skip_ws_none) (auto simp: mv_def)
  have 4: "take_field value_byte st (?v, mv) = Go st (pvalue x, (rest, m))"
    using w assms(3-6) by (intro take_field_step) (auto simp: mv_def value_byte_def)
  obtain d r where r: "rest = d # r" using assms(4) by (cases rest) auto
  have 5: "scan is_blank rest m = Some ([], rest, m)"
    using assms(5,6) r by (cases m) (auto simp: is_blank_def)
  have n: "n = Suc (Suc mk)" "0 < mk" "0 < mv" using assms(6,7) by (simp_all add: mk_def mv_def)
  have "\<lparr>pkey = pkey x, pvalue = pvalue x\<rparr> = x" by (cases x) simp
  then show ?thesis using n assms(6) by (simp add: ParseParam_def 1 2 3 4 5)
qed

lemma ParseParams_text:
  "\<lbrakk>list_all wf_param ps; length (params_text ps) < SCRATCH_BUF_SIZE; 0 < m; n = length (params_text ps) + m\<rbrakk> \<Longrightarrow>
   ParseParams st (params_text ps @ CR # rest, n) acc = Go st (acc @ ps, (CR # rest, m))"
proof (induction ps arbitrary: acc n)
  case Nil
  then show ?case by (simp add: ParseParams.simps)
next
  case (Cons x xs)
  let ?r = "params_text xs @ CR # rest"
  have hd: "hd ?r = CHR '';'' \<or> hd ?r = CR" by (cases xs) auto
  have "ParseParam st (''; '' @ pkey x @ ''='' @ pvalue x @ ?r, n) = Go st (x, (?r, length (params_text xs) + m))"
    using Cons.prems hd by (intro ParseParam_text) auto
  moreover have "ParseParams st (?r, length (params_text xs) + m) (acc @ [x]) = Go st ((acc @ [x]) @ xs, (CR # rest, m))"
    using Cons.prems by (intro Cons.IH) auto
  ultimately show ?case by (subst ParseParams.simps) simp
qed

lemma ParseMsgHdr_text:
  assumes "wf_hdr m" "length (hdr_text m) < SCRATCH_BUF_SIZE" "n = length (hdr_text m) + k" "n < 2 ^ 64"
  shows "ParseMsgHdr (hdr_text m @ rest) n st
    = Go ((fst st)\<lparr>msg_hdrs := msg_hdrs (fst st) @ [m]\<rparr>, snd st) (length (hdr_text m))"
proof -
  note w = assms(1)[unfolded wf_hdr_def]
  let ?P = "params_text (parameters m) @ CR # LF # rest"
  let ?V = "field_value m @ ?P"
  define mp where "mp = length (params_text (parameters m)) + Suc (Suc k)"
  define mv where "mv = length (field_value m) + mp"
  have t: "hdr_text m @ rest = field_name m @ CHR '':'' # SP # ?V" by (simp add: hdr_text_def)
  have n: "n = length (field_name m) + Suc (Suc mv)" "0 < mv" "0 < mp"
    using assms(3) by (simp_all add: hdr_text_def mv_def mp_def)
  have l: "length (field_name m) < SCRATCH_BUF_SIZE" "length (field_value m) < SCRATCH_BUF_SIZE"
    "length (params_text (parameters m)) < SCRATCH_BUF_SIZE"
    using assms(2) by (auto simp: hdr_text_def)
  have hP: "?P \<noteq> []" "\<not> value_byte (hd ?P)" by (cases "parameters m"; simp add: value_byte_def)+
  have 1: "take_field (\<lambda>c. c \<noteq> CHR '':'') st (field_name m @ CHR '':'' # SP # ?V, n)
      = Go st (field_name m, (CHR '':'' # SP # ?V, Suc (Suc mv)))"
    using w l n(1) by (intro take_field_step) (auto simp: list_all_iff)
  have 2: "skip_ws st (SP # ?V, Suc mv) = Go st (?V, mv)"
    using w n by (intro skip_ws_one) auto
  have 3: "take_field value_byte st (?V, mv) = Go st (field_value m, (?P, mp))"
    using w l n hP by (intro take_field_step) (auto simp: mv_def)
  have 4: "ParseParams st (?P, mp) [] = Go st (parameters m, (CR # LF # rest, Suc (Suc k)))"
    using ParseParams_text[of "parameters m" "Suc (Suc k)" mp st "LF # rest" "[]"] w l by (simp add: mp_def)
  obtain c cs where c: "field_name m = c # cs" using w by (cases "field_name m") auto
  have "\<not> isspace c" using w c by simp
  have s: "size_sub n k = length (hdr_text m)" using assms(3,4) by (simp add: size_sub_exact)
  have e: "\<lparr>field_name = field_name m, field_value = field_value m, parameters = parameters m\<rparr> = m"
    by (cases m) simp
  have "ParseMsgHdr (hdr_text m @ rest) n st = ParseField n st (field_name m @ CHR '':'' # SP # ?V, n)"
    unfolding t using \<open>\<not> isspace c\<close> n(1) by (simp add: ParseMsgHdr_def c)
  also have "\<dots> = Go ((fst st)\<lparr>msg_hdrs := msg_hdrs (fst st) @ [m]\<rparr>, snd st) (length (hdr_text m))"
    using n(2,3) by (simp only: ParseField_def ParseFieldEnd_def 1 bind_run.simps split) (simp add: 2 3 4 s e)
  finally show ?thesis .
qed

lemma ParseMsgHdrs_text:
  "\<lbrakk>list_all wf_hdr ms; list_all (\<lambda>m. length (hdr_text m) < SCRATCH_BUF_SIZE) ms; 0 < k;
    n = length (concat (map hdr_text ms)) + k; n < 2 ^ 64\<rbrakk> \<Longrightarrow>
   ParseMsgHdrs nt st (concat (map hdr_text ms) @ CR # rest, n)
     = Go ((fst st)\<lparr>msg_hdrs := msg_hdrs (fst st) @ ms\<rparr>, snd st) (CR # rest, k)"
proof (induction ms arbitrary: st n)
  case Nil
  then show ?case by (simp add: ParseMsgHdrs.simps)
next
  case (Cons m ms)
  let ?r = "concat (map hdr_text ms) @ CR # rest" and ?n = "length (concat (map hdr_text ms)) + k"
  let ?st = "((fst st)\<lparr>msg_hdrs := msg_hdrs (fst st) @ [m]\<rparr>, snd st)"
  have w: "wf_hdr m" using Cons.prems by simp
  obtain c cs where c: "hdr_text m = c # cs" "c \<noteq> CR"
  proof -
    have "isspace CR" by (simp add: isspace_def)
    then show ?thesis using w that by (cases "field_name m") (auto simp: hdr_text_def wf_hdr_def)
  qed
  have h: "ParseMsgHdr (hdr_text m @ ?r) n st = Go ?st (length (hdr_text m))"
    using Cons.prems w by (intro ParseMsgHdr_text) auto
  have i: "ParseMsgHdrs nt ?st (?r, ?n) = Go ((fst ?st)\<lparr>msg_hdrs := msg_hdrs (fst ?st) @ ms\<rparr>, snd ?st) (CR # rest, k)"
    using Cons.prems by (intro Cons.IH) auto
  have "n - length (hdr_text m) = ?n" "length (hdr_text m) < n" using Cons.prems by simp_all
  then have "ParseMsgHdrs nt st (hdr_text m @ ?r, n) = ParseMsgHdrs nt ?st (?r, ?n)"
    using h c Cons.prems(3) by (subst ParseMsgHdrs.simps) simp
  then show ?case using i by simp
qed

lemma ParseNumber_text:
  assumes "k < 1000" "rest \<noteq> []" "\<not> isdigit (hd rest)" "0 < m" "n = length (show_nat k) + m"
  shows "ParseNumber st (show_nat k @ rest, n) = Go st (int k, (rest, m))"
proof -
  have "length (show_nat k) \<le> 3" using assms(1) by (intro length_show_nat) auto
  then have l: "length (show_nat k) < SCRATCH_BUF_SIZE" by (simp add: SCRATCH_BUF_SIZE_def)
  have "take_field isdigit st (show_nat k @ rest, n) = Go st (show_nat k, (rest, m))"
    using assms show_nat_digits[of k] l by (intro take_field_step) (auto simp: list_all_iff)
  moreover have "to_int (strtol 10 (show_nat k)) = int k"
    using assms(1) by (simp add: strtol_show_nat LONG_MAX_def to_int_id)
  ultimately show ?thesis by (simp add: ParseNumber_def)
qed

definition http_1_1 :: string where "http_1_1 = ''HTTP/1.1''"

lemma ParseVersion_text:
  assumes "rest \<noteq> []" "\<not> isdigit (hd rest)" "0 < m"
  shows "ParseVersion dm vm len st (http_1_1 @ rest, 8 + m)
    = Go ((fst st)\<lparr>major := 1, minor := 1\<rparr>, snd st) (rest, m)"
proof -
  have one: "show_nat (Suc 0) = ''1''" by (simp add: show_nat.simps)
  have d: "\<not> isdigit CHR ''.''" by (simp add: isdigit_def)
  have 1: "ParseNumber st (''1'' @ CHR ''.'' # ''1'' @ rest, 3 + m) = Go st (1, (CHR ''.'' # ''1'' @ rest, 2 + m))"
    using ParseNumber_text[of 1 "CHR ''.'' # ''1'' @ rest" "2 + m" "3 + m" st] d by (simp add: one)
  have 2: "ParseNumber s (''1'' @ rest, 1 + m) = Go s (1, (rest, m))" for s
    using ParseNumber_text[of 1 rest m "1 + m" s] assms by (simp add: one)
  have k: "strncaseeq kHTTPSlash (http_1_1 @ rest) (length kHTTPSlash)"
    by (simp add: strncaseeq_def kHTTPSlash_def http_1_1_def c_str_def)
  show ?thesis
    using 1 2 k assms(3)
    by (simp add: ParseVersion_def kHTTPSlash_def http_1_1_def expect_def known_version_def Let_def eval_nat_numeral)
qed

definition methods :: "int list" where
  "methods = [GET, HEAD, POST, PUT, DELETE]"

definition method_text :: "int \<Rightarrow> string" where
  "method_text m = method_names ! nat m"

lemma methods_cases:
  "m \<in> set methods \<Longrightarrow> (m = 1 \<and> method_text m = ''GET'') \<or> (m = 2 \<and> method_text m = ''HEAD'')
    \<or> (m = 3 \<and> method_text m = ''POST'') \<or> (m = 4 \<and> method_text m = ''PUT'') \<or> (m = 5 \<and> method_text m = ''DELETE'')"
  by (auto simp: methods_def GET_def HEAD_def POST_def PUT_def DELETE_def method_text_def method_names_def)

lemma tolower_letters [simp]:
  "tolower CHR ''A'' = CHR ''a''" "tolower CHR ''D'' = CHR ''d''" "tolower CHR ''E'' = CHR ''e''" "tolower CHR ''G'' = CHR ''g''" "tolower CHR ''H'' = CHR ''h''" "tolower CHR ''L'' = CHR ''l''" "tolower CHR ''O'' = CHR ''o''" "tolower CHR ''P'' = CHR ''p''" "tolower CHR ''S'' = CHR ''s''" "tolower CHR ''T'' = CHR ''t''" "tolower CHR ''U'' = CHR ''u''"
  by (simp_all add: tolower_def char_of_def bit_0)

lemma strncaseeq_append:
  "k \<le> length b \<Longrightarrow> no_nul b \<Longrightarrow>
   strncaseeq a (b @ rest) k \<longleftrightarrow> map tolower (take k (c_str a)) = map tolower (take k b)"
  by (simp add: strncaseeq_def c_str_append_no_nul)

lemma ParseMethod_text:
  assumes "m \<in> set methods" "16 \<le> n" "n = length (method_text m) + k"
  shows "ParseMethod st (method_text m @ rest, n) = Go ((fst st)\<lparr>http_method := m\<rparr>, snd st) (rest, k)"
proof -
  consider "m = 1" "method_text m = ''GET''" | "m = 2" "method_text m = ''HEAD''"
    | "m = 3" "method_text m = ''POST''" | "m = 4" "method_text m = ''PUT''" | "m = 5" "method_text m = ''DELETE''"
    using methods_cases[OF assms(1)] by blast
  then have r: "ParseMethod st (method_text m @ rest, n) = skip_method m (length (method_text m)) st (method_text m @ rest, n)"
  proof cases
    case 1
    then show ?thesis using assms(2) by (simp add: ParseMethod_def strncaseeq_append[of _ "''GET''", simplified] GET_def) (simp add: eval_nat_numeral)
  next
    case 2
    then show ?thesis using assms(2)
      by (simp add: ParseMethod_def strncaseeq_append[of _ "''HEAD''", simplified] HEAD_def) (simp add: eval_nat_numeral)
  next
    case 3
    then show ?thesis using assms(2)
      by (simp add: ParseMethod_def strncaseeq_append[of _ "''POST''", simplified] POST_def) (simp add: eval_nat_numeral)
  next
    case 4
    then show ?thesis using assms(2)
      by (simp add: ParseMethod_def strncaseeq_append[of _ "''PUT''", simplified] PUT_def) (simp add: eval_nat_numeral)
  next
    case 5
    then show ?thesis using assms(2)
      by (simp add: ParseMethod_def strncaseeq_append[of _ "''DELETE''", simplified] DELETE_def) (simp add: eval_nat_numeral)
  qed
  then show ?thesis using assms(3) by (simp add: skip_method_def set_method_def)
qed

lemma ParseUri_text:
  assumes "wf_url d u" "url_end rest m" "0 < m" "length (uri_text u) + m < 2 ^ 64"
  shows "ParseUri d st (uri_text u @ rest, length (uri_text u) + m) = Go ((fst st)\<lparr>uri := u\<rparr>, snd st) (rest, m)"
proof -
  have "0 < length (uri_text u)"
    using assms(1) by (auto simp: wf_url_def uri_text_def authority_text_def)
  then show ?thesis
    using url_InitFromBuf_text[OF assms(1,2,4)] assms(3) by (simp add: ParseUri_def Let_def)
qed

definition request_line :: "http \<Rightarrow> string" where
  "request_line h = method_text (http_method h) @ SP # uri_text (uri h) @ SP # http_1_1 @ CRLF"

definition request_text :: "http \<Rightarrow> string" where
  "request_text h = request_line h @ concat (map hdr_text (msg_hdrs h)) @ CRLF"

lemma ParseRequestLine_text:
  assumes "http_method h \<in> set methods" "wf_url d (uri h)" "NUL \<in> set rest" "0 < m"
    "n = length (request_line h) + m" "n < 2 ^ 64"
  shows "ParseRequestLine d len st (request_line h @ rest, n)
    = Go ((fst st)\<lparr>http_method := http_method h, uri := uri h, major := 1, minor := 1\<rparr>, snd st) (rest, m)"
proof -
  let ?st1 = "((fst st)\<lparr>http_method := http_method h\<rparr>, snd st)"
  let ?st2 = "((fst st)\<lparr>http_method := http_method h, uri := uri h\<rparr>, snd st)"
  let ?V = "http_1_1 @ CRLF @ rest"
  define mu where "mu = Suc (8 + Suc (Suc m))"
  define nu where "nu = length (uri_text (uri h)) + mu"
  have n: "n = length (method_text (http_method h)) + Suc nu"
    using assms(5) by (simp add: request_line_def mu_def nu_def http_1_1_def)
  have t: "request_line h @ rest = method_text (http_method h) @ SP # uri_text (uri h) @ SP # ?V"
    by (simp add: request_line_def)
  have "5 \<le> length (uri_text (uri h))"
    using assms(2) by (cases "scheme (uri h)"; cases "host (uri h)")
      (auto simp: wf_url_def uri_text_def authority_text_def clean_def)
  moreover have "3 \<le> length (method_text (http_method h))" using methods_cases[OF assms(1)] by auto
  ultimately have n16: "16 \<le> n" unfolding n nu_def mu_def by simp
  have nu: "nu < 2 ^ 64" "0 < nu" "0 < mu" using assms(6) n by (simp_all add: nu_def mu_def)
  have 1: "ParseMethod st (method_text (http_method h) @ SP # uri_text (uri h) @ SP # ?V, n)
      = Go ?st1 (SP # uri_text (uri h) @ SP # ?V, Suc nu)"
    by (rule ParseMethod_text[OF assms(1) n16 n])
  have e: "url_end (SP # ?V) mu" using assms(3) by (simp add: url_end_def isspace_def)
  have 2: "ParseUri d ?st1 (uri_text (uri h) @ SP # ?V, nu) = Go ?st2 (SP # ?V, mu)"
    unfolding nu_def using ParseUri_text[OF assms(2) e, of ?st1] nu by (simp add: nu_def)
  have 3: "ParseVersion dm vm len ?st2 (?V, 8 + Suc (Suc m))
      = Go ((fst st)\<lparr>http_method := http_method h, uri := uri h, major := 1, minor := 1\<rparr>, snd st) (CRLF @ rest, Suc (Suc m))"
    for dm vm
    using ParseVersion_text[of "CRLF @ rest" "Suc (Suc m)" dm vm len ?st2] by (simp add: isdigit_def)
  have x1: "expect http_err ms SP len ?st1 (SP # uri_text (uri h) @ SP # ?V, Suc nu)
      = Go ?st1 (uri_text (uri h) @ SP # ?V, nu)" for ms
    using nu(2) by (simp add: expect_def)
  have x2: "expect http_err ms SP len ?st2 (SP # ?V, mu) = Go ?st2 (?V, 8 + Suc (Suc m))" for ms
    by (simp add: expect_def mu_def)
  show ?thesis
    unfolding t by (simp only: ParseRequestLine_def 1 x1 2 x2 3 bind_run.simps)
      (simp add: expect_def assms(4))
qed

lemma no_nul_params_text: "list_all wf_param ps \<Longrightarrow> no_nul (params_text ps)"
  by (induction ps) (auto simp: wf_param_def)

lemma no_nul_hdr_text: "wf_hdr m \<Longrightarrow> no_nul (hdr_text m)"
  by (auto simp: wf_hdr_def hdr_text_def dest: no_nul_params_text)

lemma print_hdrs_text:
  "list_all wf_hdr hs \<Longrightarrow> concat (concat (map print_one_hdr hs)) = concat (map hdr_text hs)
     \<and> no_nul (concat (map hdr_text hs))"
  by (induction hs) (auto simp: print_one_hdr_text dest: no_nul_hdr_text)

lemma ParseRequestHdr_text:
  assumes "http_method h \<in> set methods" "wf_url d (uri h)" "list_all wf_hdr (msg_hdrs h)"
    "length (request_text h) < SCRATCH_BUF_SIZE" "NUL \<in> set rest" "0 < m"
    "n = length (request_text h) + m" "n < 2 ^ 64" "msg_hdrs (fst st) = []"
  shows "ParseRequestHdr d (Some (request_text h @ rest)) n st =
    Go ((fst st)\<lparr>http_method := http_method h, uri := uri h, major := 1, minor := 1,
          msg_hdrs := msg_hdrs h, msg_type := REQUEST\<rparr>, snd st) (length (request_text h))"
proof -
  let ?H = "concat (map hdr_text (msg_hdrs h))"
  let ?st1 = "((fst st)\<lparr>http_method := http_method h, uri := uri h, major := 1, minor := 1\<rparr>, snd st)"
  define k where "k = length ?H + Suc (Suc m)"
  have n: "n = length (request_line h) + k" using assms(7) by (simp add: request_text_def k_def)
  have t: "request_text h @ rest = request_line h @ ?H @ CRLF @ rest" by (simp add: request_text_def)
  obtain c cs where c: "request_text h @ rest = c # cs" "\<not> isspace c"
    using methods_cases[OF assms(1)] by (auto simp: request_text_def request_line_def isspace_def)
  have "0 < n" using assms(6,7) by simp
  then have s: "scan isspace (request_text h @ rest) n = Some ([], request_text h @ rest, n)"
    using c by (cases n) auto
  have 1: "ParseRequestLine d n st (request_line h @ ?H @ CRLF @ rest, n) = Go ?st1 (?H @ CRLF @ rest, k)"
    using assms n by (intro ParseRequestLine_text) (auto simp: k_def)
  have l: "list_all (\<lambda>m. length (hdr_text m) < SCRATCH_BUF_SIZE) hs"
    if "length (concat (map hdr_text hs)) < SCRATCH_BUF_SIZE" for hs
    using that by (induction hs) auto
  have "length ?H < SCRATCH_BUF_SIZE" using assms(4) by (simp add: request_text_def)
  then have 2: "ParseMsgHdrs id ?st1 (?H @ CRLF @ rest, k)
      = Go ((fst ?st1)\<lparr>msg_hdrs := msg_hdrs (fst ?st1) @ msg_hdrs h\<rparr>, snd ?st1) (CRLF @ rest, Suc (Suc m))"
    using ParseMsgHdrs_text[OF assms(3) l, of "Suc (Suc m)" k id ?st1 "LF # rest"] n assms(8) by (simp add: k_def)
  have u: "size_sub n m = length (request_text h)" using assms(7,8) by (simp add: size_sub_exact)
  show ?thesis
    apply (simp only: ParseRequestHdr_def ParseRequestEnd_def option.case s split)
    apply (simp only: t 1 2 bind_run.simps)
    by (simp add: expect_def assms(6,9) u)
qed

lemma http_InitFromBuf_request:
  assumes "http_method h \<in> set methods" "wf_url d (uri h)" "list_all wf_hdr (msg_hdrs h)"
    "msg_type h = REQUEST" "major h = 1" "minor h = 1" "status_code h = 0"
    "length (request_text h) < SCRATCH_BUF_SIZE" "0 < m \<and> NUL \<in> set rest" "m < 2 ^ 60" "\<not> event_flag eh"
  shows "http_InitFromBuf alloc d (Some (request_text h @ rest)) (length (request_text h) + m)
      ((h0, eh), cb) = Go ((h, eh), cb) (length (request_text h))"
proof -
  let ?mem = "request_text h @ rest" and ?n = "length (request_text h) + m"
  obtain c cs where c: "?mem = c # cs" "\<not> isspace c"
    using methods_cases[OF assms(1)] by (auto simp: request_text_def request_line_def isspace_def)
  have n: "0 < ?n" "?n < 2 ^ 64" using assms(8,9,10) by (auto simp: SCRATCH_BUF_SIZE_def)
  then have s: "scan isspace ?mem ?n = Some ([], ?mem, ?n)"
    using c by (cases ?n) auto
  have "length (method_text (http_method h)) \<le> ?n" by (simp add: request_text_def request_line_def)
  then have b: "begins ''GET'' (?mem, ?n) \<or> begins ''HEAD'' (?mem, ?n) \<or> begins ''POST'' (?mem, ?n)
      \<or> begins ''PUT'' (?mem, ?n) \<or> begins ''DELETE'' (?mem, ?n)"
    using methods_cases[OF assms(1)]
    by (auto simp: begins_def request_text_def request_line_def strncaseeq_def c_str_def)
  have h: "(http_clear h0)\<lparr>http_method := http_method h, uri := uri h, major := 1, minor := 1,
          msg_hdrs := msg_hdrs h, msg_type := REQUEST\<rparr> = h"
    using assms(4-7) by (cases h; cases h0) (simp add: http_clear_def)
  have "ParseRequestHdr d (Some ?mem) ?n (http_clear h0, eh) = Go (h, eh) (length (request_text h))"
    using ParseRequestHdr_text[OF assms(1-3,8), of rest m ?n "(http_clear h0, eh)"] n assms(9) h
    by (simp add: http_clear_def)
  then show ?thesis
    using s b assms(8,11) n size_sub_exact[of ?n ?n]
    by (simp add: http_InitFromBuf_def finish_parse_def Let_def SCRATCH_BUF_SIZE_def del: append.simps)
qed

lemma print_request:
  assumes "http_method h \<in> set methods" "list_all wf_hdr (msg_hdrs h)" "major h = 1" "minor h = 1"
    "length (request_text h) < SCRATCH_BUF_SIZE"
  shows "\<exists>hdr. print_hdr 0 False h = Some hdr \<and> c_str hdr = request_text h"
proof -
  let ?L = "method_text (http_method h) @ SP # uri_text (uri h) @ SP # http_1_1"
  have len: "length ?L < SCRATCH_BUF_SIZE" "length (concat (map hdr_text (msg_hdrs h))) < SCRATCH_BUF_SIZE"
    "length (uri_text (uri h)) < SCRATCH_BUF_SIZE"
    using assms(5) by (auto simp: request_text_def request_line_def http_1_1_def)
  have m: "http_method h \<noteq> METHOD_NULL" "table_at method_names (http_method h) = Some (method_text (http_method h))"
    using assms(1) by (auto simp: methods_def GET_def HEAD_def POST_def PUT_def DELETE_def METHOD_NULL_def
        table_at_def method_names_def method_text_def)
  have u: "c_str (print_absoluteURI (uri h)) = uri_text (uri h)"
    using len(3) by (simp add: print_absoluteURI_eq SCRATCH_BUF_SIZE_def kURLMaxSize_def)
  have one: "show_int 1 = ''1''" by (simp add: show_int_def show_nat.simps)
  have nn: "no_nul ?L" using methods_cases[OF assms(1)] by (auto simp: http_1_1_def)
  have L: "print_start_line False h = Some (zfill SCRATCH_BUF_SIZE ?L)"
    using m u len(1) assms(3,4) by (simp add: print_start_line_def Let_def one sn_print_concat http_1_1_def)
  have M: "c_str (print_msg_hdrs h) = concat (map hdr_text (msg_hdrs h))"
    using print_hdrs_text[OF assms(2)] len(2) by (simp add: print_msg_hdrs_def sn_print_concat)
  have nt: "no_nul (request_text h)"
    using print_hdrs_text[OF assms(2)] nn by (simp add: request_text_def request_line_def)
  have "?L @ CRLF @ concat (map hdr_text (msg_hdrs h)) @ CRLF = request_text h"
    by (simp add: request_text_def request_line_def)
  then have "sn_print SCRATCH_BUF_SIZE [c_str (zfill SCRATCH_BUF_SIZE ?L) @ CRLF @ c_str (print_msg_hdrs h) @ CRLF]
      = request_text h"
    using assms(5) unfolding sn_print_concat M c_str_zfill[OF nn] by simp
  then have "print_hdr 0 False h = Some (zfill SCRATCH_BUF_SIZE (request_text h))"
    unfolding print_hdr_def L by (simp add: to_size_t_def Let_def)
  then show ?thesis using nt by simp
qed

text \<open>
  C2. A well-formed request survives printing and parsing: the header print_hdr writes for a request of
  version 1.1 (GET, HEAD, POST, PUT or DELETE, a well-formed absolute URI, well-formed message headers
  with parameters, shorter in all than the scratch buffer), followed by at least one body byte, is
  parsed by InitFromBuf into the same object (type, version, method, URI, headers in order), using
  exactly the header's bytes and with no error when none was set before.
\<close>

theorem request_roundtrip:
  assumes "http_method h \<in> set methods" "wf_url default_port (uri h)" "list_all wf_hdr (msg_hdrs h)"
    "msg_type h = REQUEST" "major h = 1" "minor h = 1" "status_code h = 0"
    "length (request_text h) < SCRATCH_BUF_SIZE" "body \<noteq> []" "length body < 2 ^ 60" "\<not> event_flag eh"
  shows "\<exists>hdr. print_hdr 0 False h = Some hdr \<and>
    http_InitFromBuf alloc default_port (Some (c_str hdr @ body @ [NUL])) (length (c_str hdr) + length body)
      ((h0, eh), cb) = Go ((h, eh), cb) (length (c_str hdr))"
proof -
  obtain hdr where hdr: "print_hdr 0 False h = Some hdr" "c_str hdr = request_text h"
    using print_request[OF assms(1,3,5,6,8)] by blast
  have "http_InitFromBuf alloc default_port (Some (request_text h @ body @ [NUL]))
      (length (request_text h) + length body) ((h0, eh), cb) = Go ((h, eh), cb) (length (request_text h))"
    using http_InitFromBuf_request[of h default_port "length body" "body @ [NUL]" eh alloc h0 cb] assms by simp
  with hdr show ?thesis by simp
qed

definition sample_request :: http where
  "sample_request = \<lparr>msg_type = REQUEST, major = 1, minor = 1, http_method = POST, status_code = 0,
     uri = \<lparr>scheme = ''http'', host = ''a'', port = 80, path = ''p'', query = [], fragment = []\<rparr>,
     msg_hdrs = [\<lparr>field_name = ''Content-Length'', field_value = ''1'', parameters = []\<rparr>]\<rparr>"

lemma sample_request_text:
  "request_text sample_request = ''POST http://a:80/p HTTP/1.1'' @ CRLF @ ''Content-Length: 1'' @ CRLF @ CRLF"
  by (simp add: sample_request_def request_text_def request_line_def method_text_def method_names_def POST_def
      uri_text_def authority_text_def abs_path_text_def URL_PORT_NULL_def show_nat.simps http_1_1_def hdr_text_def c_str_def)

lemma sample_request_wf:
  "http_method sample_request \<in> set methods" "wf_url 80 (uri sample_request)" "list_all wf_hdr (msg_hdrs sample_request)"
  by (simp_all add: sample_request_def methods_def wf_url_def clean_def is_str_tainted_def isspace_def host_char_def
      path_char_def wf_query_def URL_PORT_NULL_def uri_text_def authority_text_def abs_path_text_def show_nat.simps
      c_str_def kURLMaxSize_def wf_hdr_def value_byte_def)

theorem request_roundtrip_witness:
  "http_InitFromBuf (\<lambda>_. True) 80
     (Some (''POST http://a:80/p HTTP/1.1'' @ CRLF @ ''Content-Length: 1'' @ CRLF @ CRLF @ ''x'' @ [NUL]))
     (length (request_text sample_request) + 1) ((HTTPFraming, ErrorHandler), \<lparr>cb_data = None, cb_size = 0\<rparr>)
   = Go ((sample_request, ErrorHandler), \<lparr>cb_data = None, cb_size = 0\<rparr>) (length (request_text sample_request))"
proof -
  have len: "length (request_text sample_request) < SCRATCH_BUF_SIZE"
    unfolding sample_request_text by (simp add: SCRATCH_BUF_SIZE_def)
  obtain hdr where hdr: "print_hdr 0 False sample_request = Some hdr" "c_str hdr = request_text sample_request"
    using print_request[OF sample_request_wf(1,3) _ _ len] by (auto simp: sample_request_def)
  have "\<exists>hdr. print_hdr 0 False sample_request = Some hdr \<and>
    http_InitFromBuf (\<lambda>_. True) 80 (Some (c_str hdr @ ''x'' @ [NUL])) (length (c_str hdr) + length ''x'')
      ((HTTPFraming, ErrorHandler), \<lparr>cb_data = None, cb_size = 0\<rparr>)
      = Go ((sample_request, ErrorHandler), \<lparr>cb_data = None, cb_size = 0\<rparr>) (length (c_str hdr))"
    by (rule request_roundtrip[OF sample_request_wf])
       (use len in \<open>simp_all add: sample_request_def ErrorHandler_def\<close>)
  with hdr show ?thesis by (simp add: sample_request_text)
qed

theorem request_needs_following_byte_witness:
  "\<exists>st' k. ParseRequestHdr 80 (Some (request_text sample_request @ ''x'' @ [NUL]))
     (length (request_text sample_request) + 1) (HTTPFraming, ErrorHandler) = Go st' k
     \<and> k < length (request_text sample_request) + 1"
proof -
  have "length (request_text sample_request) < SCRATCH_BUF_SIZE"
    unfolding sample_request_text by (simp add: SCRATCH_BUF_SIZE_def)
  then obtain st' k where r: "ParseRequestHdr 80 (Some (request_text sample_request @ ''x'' @ [NUL]))
     (length (request_text sample_request) + 1) (HTTPFraming, ErrorHandler) = Go st' k"
    using ParseRequestHdr_text[OF sample_request_wf, of "''x'' @ [NUL]" 1 _ "(HTTPFraming, ErrorHandler)"]
    by (auto simp: SCRATCH_BUF_SIZE_def HTTPFraming_def)
  from request_needs_following_byte[OF r] r show ?thesis by blast
qed

text \<open>
  A header with an empty value takes the next line for its value: the white space skipped after
  the colon includes the line's own CRLF, so the bytes of the following header line (its name and
  colon included) become the value, and that header is lost.
\<close>

theorem empty_value_takes_next_line:
  assumes "no_nul name" "CHR '':'' \<notin> set name" "name \<noteq> []" "\<not> isspace (hd name)" "length name < SCRATCH_BUF_SIZE"
    "no_nul line" "list_all value_byte line" "line \<noteq> []" "\<not> isspace (hd line)" "length line < SCRATCH_BUF_SIZE"
    "n = length (name @ '':'' @ CRLF @ line @ CRLF) + k" "n < 2 ^ 64"
  shows "ParseMsgHdr (name @ '':'' @ CRLF @ line @ CRLF @ rest) n st =
    Go ((fst st)\<lparr>msg_hdrs := msg_hdrs (fst st) @ [\<lparr>field_name = name, field_value = line, parameters = []\<rparr>]\<rparr>, snd st)
       (n - k)"
proof -
  let ?L = "line @ CR # LF # rest"
  define ml where "ml = length line + Suc (Suc k)"
  have n: "n = length name + Suc (Suc (Suc ml))" "0 < ml" using assms(11) by (simp_all add: ml_def)
  have 1: "take_field (\<lambda>c. c \<noteq> CHR '':'') st (name @ CHR '':'' # CR # LF # ?L, n)
      = Go st (name, (CHR '':'' # CR # LF # ?L, Suc (Suc (Suc ml))))"
    using assms n by (intro take_field_step) (auto simp: list_all_iff)
  have 2: "skip_ws st (CR # LF # ?L, Suc (Suc ml)) = Go st (?L, ml)"
    using skip_ws_Go[of "CRLF" ?L ml st] assms n by (simp add: isspace_def)
  have 3: "take_field value_byte st (?L, ml) = Go st (line, (CR # LF # rest, Suc (Suc k)))"
    using assms by (intro take_field_step) (auto simp: ml_def value_byte_def)
  obtain c cs where c: "name = c # cs" using assms by (cases name) auto
  have s: "size_sub n k = n - k" using assms(11,12) by (simp add: size_sub_exact)
  have "ParseMsgHdr (name @ '':'' @ CRLF @ line @ CRLF @ rest) n st = ParseField n st (name @ CHR '':'' # CR # LF # ?L, n)"
    using assms(4) n by (simp add: ParseMsgHdr_def c)
  also have "\<dots> = Go ((fst st)\<lparr>msg_hdrs := msg_hdrs (fst st) @
      [\<lparr>field_name = name, field_value = line, parameters = []\<rparr>]\<rparr>, snd st) (n - k)"
    using n(2) by (simp only: ParseField_def ParseFieldEnd_def 1 bind_run.simps split) (simp add: 2 3 s ParseParams.simps)
  finally show ?thesis .
qed

theorem empty_value_takes_next_line_witness:
  "msg_hdrs (fst (HTTPFraming, ErrorHandler)) = [] \<and>
   ParseMsgHdr (''Accept'' @ '':'' @ CRLF @ ''Host: a'' @ CRLF @ CRLF) 18 (HTTPFraming, ErrorHandler) =
    Go (HTTPFraming\<lparr>msg_hdrs := [\<lparr>field_name = ''Accept'', field_value = ''Host: a'', parameters = []\<rparr>]\<rparr>, ErrorHandler) 18"
  using empty_value_takes_next_line[of "''Accept''" "''Host: a''" 18 0 CRLF "(HTTPFraming, ErrorHandler)"]
  by (simp add: HTTPFraming_def isspace_def SCRATCH_BUF_SIZE_def value_byte_def)

end
