(* ===== verification/Http_Response.thy ===== *)
theory Http_Response
  imports Http_Parse
begin

text \<open>
  The round trip of a response header (HTTPFraming::print_hdr, HTTPFraming::ParseResponseHdr and
  HTTPFraming::InitFromBuf), next to that of a request in Http_Parse, on the same lemmas for numbers,
  versions and message headers.
\<close>

section \<open>The text of a response\<close>

definition status_line :: "http \<Rightarrow> string" where
  "status_line h = http_1_1 @ SP # show_nat (nat (status_code h)) @ SP # the (status_code_phrase (status_code h)) @ CRLF"

definition response_text :: "http \<Rightarrow> string" where
  "response_text h = status_line h @ concat (map hdr_text (msg_hdrs h)) @ CRLF"

definition plain_text :: "string \<Rightarrow> bool" where
  "plain_text s \<longleftrightarrow> no_nul s \<and> CR \<notin> set s \<and> length s < 64"

lemma status_code_phrase_plain:
  "\<exists>p. status_code_phrase c = Some p \<and> plain_text p"
proof -
  have t: "list_all plain_text code_200_phrases" "list_all plain_text code_400_phrases" "list_all plain_text code_500_phrases"
    by (simp_all add: plain_text_def code_200_phrases_def code_400_phrases_def code_500_phrases_def)
  have l: "length code_200_phrases = 5" "length code_400_phrases = 5" "length code_500_phrases = 6"
    by (simp_all add: code_200_phrases_def code_400_phrases_def code_500_phrases_def)
  have at: "\<exists>p. table_at ps i = Some p \<and> plain_text p" if "list_all plain_text ps" "0 \<le> i" "i < int (length ps)" for ps i
    using that by (auto simp: table_at_def list_all_length nat_less_iff)
  show ?thesis
    using at[OF t(1), of "c - 200"] at[OF t(2), of "c - 400"] at[OF t(3), of "c - 500"] l
    by (auto simp: status_code_phrase_def plain_text_def)
qed

lemma ParseStatusLine_text:
  assumes "0 \<le> status_code h" "status_code h < 1000" "0 < m" "n = length (status_line h) + m"
  shows "ParseStatusLine len st (status_line h @ rest, n)
    = Go ((fst st)\<lparr>major := 1, minor := 1, status_code := status_code h\<rparr>, snd st) (rest, m)"
proof -
  obtain ph where ph: "status_code_phrase (status_code h) = Some ph" "plain_text ph"
    using status_code_phrase_plain by blast
  define k where "k = nat (status_code h)"
  then have k: "status_code h = int k" "k < 1000" using assms(1,2) by simp_all
  let ?P = "ph @ CRLF @ rest"
  let ?N = "show_nat k @ SP # ?P"
  define mp where "mp = length ph + Suc (Suc m)"
  define mn where "mn = length (show_nat k) + Suc mp"
  have line: "status_line h = http_1_1 @ SP # show_nat k @ SP # ph @ CRLF"
    using ph(1) by (simp add: status_line_def k_def)
  have t: "status_line h @ rest = http_1_1 @ SP # ?N" by (simp add: line)
  have n: "n = 8 + Suc mn" using assms(4) by (simp add: line mn_def mp_def http_1_1_def)
  let ?st1 = "((fst st)\<lparr>major := 1, minor := 1\<rparr>, snd st)"
  let ?st2 = "((fst st)\<lparr>major := 1, minor := 1, status_code := int k\<rparr>, snd st)"
  have 1: "ParseVersion dm vm len st (http_1_1 @ SP # ?N, n) = Go ?st1 (SP # ?N, Suc mn)" for dm vm
    unfolding n by (rule ParseVersion_text) (simp_all add: isdigit_def)
  have 2: "ParseNumber ?st1 (?N, mn) = Go ?st1 (int k, (SP # ?P, Suc mp))"
    by (rule ParseNumber_text[OF k(2)]) (simp_all add: isdigit_def mn_def)
  have 3: "take_field (\<lambda>c. c \<noteq> CR) ?st2 (?P, mp) = Go ?st2 (ph, (CRLF @ rest, Suc (Suc m)))"
    using ph(2) by (intro take_field_step) (auto simp: plain_text_def mp_def list_all_iff SCRATCH_BUF_SIZE_def)
  have x1: "expect http_err ms SP len ?st1 (SP # ?N, Suc mn) = Go ?st1 (?N, mn)" for ms
    by (simp add: expect_def mn_def)
  have x2: "expect http_err ms SP len ?st2 (SP # ?P, Suc mp) = Go ?st2 (?P, mp)" for ms
    by (simp add: expect_def mp_def)
  have s: "(set_status_code (int k) (fst ?st1), snd ?st1) = ?st2" by (simp add: set_status_code_def)
  show ?thesis
    unfolding t by (simp only: ParseStatusLine_def 1 x1 2 s x2 3 bind_run.simps split)
      (simp add: expect_def assms(3) k(1))
qed

text \<open>The parser up to the body, whose treatment depends on the transfer encoding.\<close>

definition response_of :: "http \<Rightarrow> http \<Rightarrow> http" where
  "response_of h h0 = h0\<lparr>major := 1, minor := 1, status_code := status_code h, msg_hdrs := msg_hdrs h, msg_type := RESPONSE\<rparr>"

lemma response_of_simps [simp]: "is_chunked (response_of h h0) = is_chunked h" "msg_hdrs (response_of h h0) = msg_hdrs h"
  by (simp_all add: response_of_def is_chunked_def transfer_encoding_def)

lemma ParseResponseHdr_body:
  assumes "0 \<le> status_code h" "status_code h < 1000" "list_all wf_hdr (msg_hdrs h)"
    "length (response_text h) < SCRATCH_BUF_SIZE" "n = length (response_text h) + m" "n < 2 ^ 64"
    "msg_hdrs (fst (fst st)) = []"
  shows "ParseResponseHdr alloc (Some (response_text h @ rest)) n st
    = ParseResponseBody alloc n ((response_of h (fst (fst st)), snd (fst st)), snd st) (rest, m)"
proof -
  let ?H = "concat (map hdr_text (msg_hdrs h))" and ?s = "fst st"
  let ?st1 = "((fst ?s)\<lparr>major := 1, minor := 1, status_code := status_code h\<rparr>, snd ?s)"
  let ?st2 = "((fst ?st1)\<lparr>msg_hdrs := msg_hdrs h\<rparr>, snd ?s)"
  define k where "k = length ?H + Suc (Suc m)"
  have n: "n = length (status_line h) + k" using assms(5) by (simp add: response_text_def k_def)
  have t: "response_text h @ rest = status_line h @ ?H @ CRLF @ rest" by (simp add: response_text_def)
  obtain cs where c: "response_text h @ rest = CHR ''H'' # cs"
    by (simp add: response_text_def status_line_def http_1_1_def)
  have s: "scan isspace (response_text h @ rest) n = Some ([], response_text h @ rest, n)"
    using n unfolding c by (cases n) (simp_all add: k_def isspace_def)
  have 1: "ParseStatusLine n ?s (status_line h @ ?H @ CRLF @ rest, n) = Go ?st1 (?H @ CRLF @ rest, k)"
    using assms n by (intro ParseStatusLine_text) (auto simp: k_def)
  have l: "list_all (\<lambda>m. length (hdr_text m) < SCRATCH_BUF_SIZE) hs"
    if "length (concat (map hdr_text hs)) < SCRATCH_BUF_SIZE" for hs
    using that by (induction hs) auto
  have "length ?H < SCRATCH_BUF_SIZE" using assms(4) by (simp add: response_text_def)
  then have 2: "ParseMsgHdrs response_note ?st1 (?H @ CRLF @ rest, k) = Go ?st2 (CRLF @ rest, Suc (Suc m))"
    using ParseMsgHdrs_text[OF assms(3) l, of "Suc (Suc m)" k response_note ?st1 "LF # rest"] n assms(6,7) by (simp add: k_def)
  have 3: "ParseHdrEnd n ?st2 (CRLF @ rest, Suc (Suc m)) = Go ((fst ?st2)\<lparr>msg_type := RESPONSE\<rparr>, snd ?st2) (rest, m)"
    by (simp add: ParseHdrEnd_def)
  show ?thesis
    by (simp only: ParseResponseHdr_def ParseResponseMsgHdrs_def option.case s split)
       (simp only: t 1 2 3 bind_run.simps map_state.simps, simp add: response_of_def)
qed

lemma ParseResponseHdr_text:
  assumes "0 \<le> status_code h" "status_code h < 1000" "list_all wf_hdr (msg_hdrs h)"
    "length (response_text h) < SCRATCH_BUF_SIZE" "n = length (response_text h) + m" "n < 2 ^ 64"
    "msg_hdrs (fst (fst st)) = []" "\<not> is_chunked h"
  shows "ParseResponseHdr alloc (Some (response_text h @ rest)) n st =
    Go (((fst (fst st))\<lparr>major := 1, minor := 1, status_code := status_code h, msg_hdrs := msg_hdrs h,
          msg_type := RESPONSE\<rparr>, snd (fst st)), snd st) (length (response_text h))"
proof -
  have u: "size_sub n m = length (response_text h)" using assms(5,6) by (simp add: size_sub_exact)
  show ?thesis unfolding ParseResponseHdr_body[OF assms(1-7)]
    using assms(8) u by (cases "m = 0") (simp_all add: ParseResponseBody_def Let_def response_of_def[symmetric])
qed

lemma http_InitFromBuf_response:
  assumes "0 \<le> status_code h" "status_code h < 1000" "list_all wf_hdr (msg_hdrs h)" "msg_type h = RESPONSE"
    "major h = 1" "minor h = 1" "http_method h = METHOD_NULL" "uri h = URL" "\<not> is_chunked h"
    "length (response_text h) < SCRATCH_BUF_SIZE" "m < 2 ^ 60" "\<not> event_flag eh"
  shows "http_InitFromBuf alloc d (Some (response_text h @ rest)) (length (response_text h) + m)
      ((h0, eh), cb) = Go ((h, eh), cb) (length (response_text h))"
proof -
  let ?mem = "response_text h @ rest" and ?n = "length (response_text h) + m"
  obtain cs where c: "?mem = ''HTTP/'' @ cs"
    by (simp add: response_text_def status_line_def http_1_1_def)
  have n: "5 \<le> ?n" "?n < 2 ^ 64" using assms(10,11)
    by (auto simp: SCRATCH_BUF_SIZE_def response_text_def status_line_def http_1_1_def)
  have s: "scan isspace ?mem ?n = Some ([], ?mem, ?n)"
    using n(1) unfolding c by (cases ?n) (simp_all add: isspace_def)
  have b: "\<not> begins ''GET'' (?mem, ?n)" "\<not> begins ''HEAD'' (?mem, ?n)" "\<not> begins ''POST'' (?mem, ?n)"
      "\<not> begins ''PUT'' (?mem, ?n)" "\<not> begins ''DELETE'' (?mem, ?n)" "begins kHTTPSlash (?mem, ?n)"
    unfolding c using n(1) by (auto simp: begins_def strncaseeq_def c_str_def kHTTPSlash_def tolower_def)
  have h: "(http_clear h0)\<lparr>major := 1, minor := 1, status_code := status_code h, msg_hdrs := msg_hdrs h,
      msg_type := RESPONSE\<rparr> = h"
    using assms(4-8) by (cases h; cases h0) (simp add: http_clear_def url_clear_URL)
  have "ParseResponseHdr alloc (Some ?mem) ?n ((http_clear h0, eh), cb) = Go ((h, eh), cb) (length (response_text h))"
    using ParseResponseHdr_text[OF assms(1-3,10), of ?n m "((http_clear h0, eh), cb)" alloc rest] n(2) assms(9) h
    by (simp add: http_clear_def)
  then show ?thesis
    using s b assms(10,12) n size_sub_exact[of ?n ?n]
    by (simp add: http_InitFromBuf_def finish_parse_def Let_def SCRATCH_BUF_SIZE_def del: append.simps)
qed

lemma print_response:
  assumes "0 \<le> status_code h" "list_all wf_hdr (msg_hdrs h)" "major h = 1" "minor h = 1" "http_method h = METHOD_NULL"
    "length (response_text h) < SCRATCH_BUF_SIZE"
  shows "\<exists>hdr. print_hdr 0 False h = Some hdr \<and> c_str hdr = response_text h"
proof -
  obtain ph where ph: "status_code_phrase (status_code h) = Some ph" "plain_text ph"
    using status_code_phrase_plain by blast
  let ?L = "http_1_1 @ SP # show_nat (nat (status_code h)) @ SP # ph"
  have line: "status_line h = ?L @ CRLF" using ph(1) by (simp add: status_line_def)
  have len: "length ?L < SCRATCH_BUF_SIZE" "length (concat (map hdr_text (msg_hdrs h))) < SCRATCH_BUF_SIZE"
    using assms(6) by (auto simp: response_text_def line)
  have num: "show_int (status_code h) = show_nat (nat (status_code h))" "show_int 1 = ''1''"
    using assms(1) by (simp_all add: show_int_def show_nat.simps)
  have nn: "no_nul ?L" using ph(2) by (simp add: plain_text_def http_1_1_def)
  have L: "print_start_line False h = Some (zfill SCRATCH_BUF_SIZE ?L)"
    using ph(1) len(1) assms(3-5) by (simp add: print_start_line_def Let_def num sn_print_concat http_1_1_def)
  have M: "c_str (print_msg_hdrs h) = concat (map hdr_text (msg_hdrs h))"
    using print_hdrs_text[OF assms(2)] len(2) by (simp add: print_msg_hdrs_def sn_print_concat)
  have nt: "no_nul (response_text h)"
    using print_hdrs_text[OF assms(2)] nn by (simp add: response_text_def line)
  have "?L @ CRLF @ concat (map hdr_text (msg_hdrs h)) @ CRLF = response_text h"
    by (simp add: response_text_def line)
  then have "sn_print SCRATCH_BUF_SIZE [c_str (zfill SCRATCH_BUF_SIZE ?L) @ CRLF @ c_str (print_msg_hdrs h) @ CRLF]
      = response_text h"
    using assms(6) unfolding sn_print_concat M c_str_zfill[OF nn] by simp
  then have "print_hdr 0 False h = Some (zfill SCRATCH_BUF_SIZE (response_text h))"
    unfolding print_hdr_def L by (simp add: to_size_t_def Let_def)
  then show ?thesis using nt by simp
qed

text \<open>
  C4. A well-formed response that is not chunked survives printing and parsing: the header print_hdr
  writes for a response (version 1.1, a status code below 1000 with its phrase, well-formed message
  headers with parameters, no chunked transfer encoding, shorter in all than the scratch buffer) is
  parsed by InitFromBuf into the same object, using exactly the header's bytes and with no error when
  none was set before, whatever body follows; unlike a request, nothing has to follow.
\<close>

theorem response_roundtrip:
  assumes "0 \<le> status_code h" "status_code h < 1000" "list_all wf_hdr (msg_hdrs h)" "msg_type h = RESPONSE"
    "major h = 1" "minor h = 1" "http_method h = METHOD_NULL" "uri h = URL" "\<not> is_chunked h"
    "length (response_text h) < SCRATCH_BUF_SIZE" "length body < 2 ^ 60" "\<not> event_flag eh"
  shows "\<exists>hdr. print_hdr 0 False h = Some hdr \<and>
    http_InitFromBuf alloc default_port (Some (c_str hdr @ body @ [NUL])) (length (c_str hdr) + length body)
      ((h0, eh), cb) = Go ((h, eh), cb) (length (c_str hdr))"
proof -
  obtain hdr where hdr: "print_hdr 0 False h = Some hdr" "c_str hdr = response_text h"
    using print_response[OF assms(1,3,5-7,10)] by blast
  with http_InitFromBuf_response[OF assms(1-11,12), of alloc default_port "body @ [NUL]" h0 cb] show ?thesis by simp
qed

definition sample_response :: http where
  "sample_response = \<lparr>msg_type = RESPONSE, major = 1, minor = 1, http_method = METHOD_NULL, status_code = 404, uri = URL,
     msg_hdrs = [\<lparr>field_name = ''Content-Length'', field_value = ''0'', parameters = []\<rparr>]\<rparr>"

lemma sample_response_text:
  "response_text sample_response = ''HTTP/1.1 404 Method Not Allowed'' @ CRLF @ ''Content-Length: 0'' @ CRLF @ CRLF"
  by (simp add: sample_response_def response_text_def status_line_def http_1_1_def show_nat.simps status_code_phrase_def
      table_at_def code_400_phrases_def hdr_text_def)

theorem response_roundtrip_witness:
  "http_InitFromBuf (\<lambda>_. True) 80
     (Some (''HTTP/1.1 404 Method Not Allowed'' @ CRLF @ ''Content-Length: 0'' @ CRLF @ CRLF @ [NUL]))
     (length (response_text sample_response)) ((HTTPFraming, ErrorHandler), \<lparr>cb_data = None, cb_size = 0\<rparr>)
   = Go ((sample_response, ErrorHandler), \<lparr>cb_data = None, cb_size = 0\<rparr>) (length (response_text sample_response))"
proof -
  have f: "0 \<le> status_code sample_response" "status_code sample_response < 1000" "list_all wf_hdr (msg_hdrs sample_response)"
      "msg_type sample_response = RESPONSE" "major sample_response = 1" "minor sample_response = 1"
      "http_method sample_response = METHOD_NULL" "uri sample_response = URL" "\<not> is_chunked sample_response"
    by (simp_all add: sample_response_def wf_hdr_def value_byte_def isspace_def is_chunked_def transfer_encoding_def
        same_name_iff MIME_CHUNKED_def MIME_TRANSFER_ENCODING_def c_str_def)
  have len: "length (response_text sample_response) < SCRATCH_BUF_SIZE"
    unfolding sample_response_text by (simp add: SCRATCH_BUF_SIZE_def)
  obtain hdr where hdr: "print_hdr 0 False sample_response = Some hdr" "c_str hdr = response_text sample_response"
    using print_response[OF f(1,3,5-7) len] by blast
  have "\<exists>hdr. print_hdr 0 False sample_response = Some hdr \<and>
    http_InitFromBuf (\<lambda>_. True) 80 (Some (c_str hdr @ [] @ [NUL])) (length (c_str hdr) + length ([] :: string))
      ((HTTPFraming, ErrorHandler), \<lparr>cb_data = None, cb_size = 0\<rparr>)
      = Go ((sample_response, ErrorHandler), \<lparr>cb_data = None, cb_size = 0\<rparr>) (length (c_str hdr))"
    by (rule response_roundtrip[OF f len]) (simp_all add: ErrorHandler_def)
  with hdr show ?thesis by (simp add: sample_response_text)
qed

section \<open>Headers that come back\<close>

text \<open>
  The interface on which sessions rely: for the headers that satisfy wf, print_hdr writes bytes, and
  InitFromBuf reads it back when at least a number of bytes follow. Requests and responses provide it.
\<close>

locale hdr_codec =
  fixes wf :: "http \<Rightarrow> bool" and bytes :: "http \<Rightarrow> string" and least :: nat
  assumes printed: "wf h \<Longrightarrow> \<exists>hdr. print_hdr 0 False h = Some hdr \<and> c_str hdr = bytes h"
    and parsed: "\<lbrakk>wf h; least \<le> m; NUL \<in> set rest; m < 2 ^ 60; \<not> event_flag eh\<rbrakk> \<Longrightarrow>
      http_InitFromBuf alloc URL_PORT_NULL (Some (bytes h @ rest)) (length (bytes h) + m) ((h0, eh), cb)
      = Go ((h, eh), cb) (length (bytes h))"
    and fits: "wf h \<Longrightarrow> length (bytes h) < SCRATCH_BUF_SIZE"
    and some: "wf h \<Longrightarrow> bytes h \<noteq> []"
begin

lemma printed_eq: "wf h \<Longrightarrow> print_hdr 0 False h = Some hdr \<Longrightarrow> c_str hdr = bytes h"
  using printed by fastforce

lemma hdr_len_codec: "wf h \<Longrightarrow> hdr_len False h = Some (length (bytes h))"
  using printed by (fastforce simp: hdr_len_def)

end

definition wf_request :: "http \<Rightarrow> bool" where
  "wf_request h \<longleftrightarrow> http_method h \<in> set methods \<and> wf_url URL_PORT_NULL (uri h) \<and> list_all wf_hdr (msg_hdrs h)
     \<and> msg_type h = REQUEST \<and> major h = 1 \<and> minor h = 1 \<and> status_code h = 0 \<and> length (request_text h) < SCRATCH_BUF_SIZE"

definition wf_response :: "http \<Rightarrow> bool" where
  "wf_response h \<longleftrightarrow> 0 \<le> status_code h \<and> status_code h < 1000 \<and> list_all wf_hdr (msg_hdrs h)
     \<and> msg_type h = RESPONSE \<and> major h = 1 \<and> minor h = 1 \<and> http_method h = METHOD_NULL \<and> uri h = URL
     \<and> \<not> is_chunked h \<and> length (response_text h) < SCRATCH_BUF_SIZE"

lemma sample_response_wf: "wf_response sample_response"
  unfolding wf_response_def sample_response_text
  by (simp add: sample_response_def wf_hdr_def value_byte_def isspace_def is_chunked_def transfer_encoding_def
      same_name_iff MIME_CHUNKED_def MIME_TRANSFER_ENCODING_def c_str_def SCRATCH_BUF_SIZE_def)

interpretation requests: hdr_codec wf_request request_text 1
proof
  fix h h0 :: http and m :: nat and eh :: errh and rest alloc cb
  assume w: "wf_request h"
  then show "\<exists>hdr. print_hdr 0 False h = Some hdr \<and> c_str hdr = request_text h" "length (request_text h) < SCRATCH_BUF_SIZE"
    using print_request by (simp_all add: wf_request_def)
  show "request_text h \<noteq> []" by (simp add: request_text_def)
  assume "1 \<le> m" "NUL \<in> set rest" "m < 2 ^ 60" "\<not> event_flag eh"
  with w show "http_InitFromBuf alloc URL_PORT_NULL (Some (request_text h @ rest)) (length (request_text h) + m) ((h0, eh), cb)
      = Go ((h, eh), cb) (length (request_text h))"
    by (intro http_InitFromBuf_request) (simp_all add: wf_request_def)
qed

interpretation responses: hdr_codec wf_response response_text 0
proof
  fix h h0 :: http and m :: nat and eh :: errh and rest alloc cb
  assume w: "wf_response h"
  then show "\<exists>hdr. print_hdr 0 False h = Some hdr \<and> c_str hdr = response_text h" "length (response_text h) < SCRATCH_BUF_SIZE"
    using print_response by (simp_all add: wf_response_def)
  show "response_text h \<noteq> []" by (simp add: response_text_def)
  assume "m < 2 ^ 60" "\<not> event_flag eh"
  with w show "http_InitFromBuf alloc URL_PORT_NULL (Some (response_text h @ rest)) (length (response_text h) + m) ((h0, eh), cb)
      = Go ((h, eh), cb) (length (response_text h))"
    by (intro http_InitFromBuf_response) (simp_all add: wf_response_def)
qed

end
