(* ===== verification/Http_Chunked_Response.thy ===== *)
theory Http_Chunked_Response
  imports Http_Response
begin

text \<open>
  Responses with a chunked body. HTTPFraming::ParseResponseHdr decodes the body together with the header,
  but gives the decoder the number of bytes of the header as the length of the body: the theory shows
  what the decoder does when its count ends within the body, and which responses are accepted.
\<close>

section \<open>A count that ends within the body\<close>

lemma scan_short: "\<forall>c\<in>set w. p c \<Longrightarrow> n \<le> length w \<Longrightarrow> scan p (w @ mem) n = Some (take n w, drop n w @ mem, 0)"
proof (induction w arbitrary: n)
  case (Cons c w)
  then show ?case by (cases n) auto
qed simp

lemma take_field_short:
  assumes "\<forall>c\<in>set w. p c" "n \<le> length w" "length w \<le> SCRATCH_BUF_SIZE"
  shows "take_field p st (w @ rest, n) = Stop st"
  using assms by (simp add: take_field_def copy_while_def scan_short)

lemma chunk_size_line_short:
  assumes "k < 2 ^ 60" "n \<le> length (show_hex k) + 2"
  shows "chunk_size_line len st (show_hex k @ CRLF @ rest, n) = Stop st"
proof -
  let ?h = "show_hex k"
  have "length ?h \<le> 15" using assms(1) by (intro length_show_hex) auto
  then have l: "length ?h < SCRATCH_BUF_SIZE" by (simp add: SCRATCH_BUF_SIZE_def)
  have c: "\<forall>x\<in>set ?h. x \<noteq> CR" "no_nul ?h" using show_hex_digits[of k] is_hexD by blast+
  show ?thesis
  proof (cases "n \<le> length ?h")
    case True
    have "take_field (\<lambda>c. c \<noteq> CR) st (?h @ CRLF @ rest, n) = Stop st"
      using True c(1) l by (intro take_field_short) auto
    then show ?thesis by (simp add: chunk_size_line_def)
  next
    case False
    define m where "m = n - length ?h"
    have m: "n = length ?h + m" "0 < m" "m \<le> 2" using False assms(2) by (auto simp: m_def)
    have "take_field (\<lambda>c. c \<noteq> CR) st (?h @ CRLF @ rest, n) = Go st (?h, (CRLF @ rest, m))"
      unfolding m(1) using c l m(2) by (intro take_field_Go) auto
    then show ?thesis using m(2,3) by (cases "m = 1") (simp_all add: chunk_size_line_def expect_def)
  qed
qed

lemma chunk_data_short:
  assumes "good_chunk w" "body_at cnt v cb" "cnt + length w < cb_size cb" "n \<le> length w + 1"
  obtains cb' where "chunk_data len cnt (eh, cb) (w @ CRLF @ rest, n) = Stop (eh, cb')"
proof -
  define u where "u = take n w"
  have "cnt + length u \<le> cb_size cb" using assms(3) by (simp add: u_def)
  then obtain cb' where cb': "cb_write cnt u cb = Some cb'" using cb_write_at[OF assms(2)] by blast
  have w: "\<forall>c\<in>set w. c \<noteq> CR" using assms(1) by (auto simp: good_chunk_def)
  show thesis
  proof (cases "n \<le> length w")
    case True
    have "scan (\<lambda>c. c \<noteq> CR) (w @ CRLF @ rest) n = Some (u, drop n w @ CRLF @ rest, 0)"
      unfolding u_def using w True by (intro scan_short) auto
    then show thesis using that[of cb'] cb' by (simp add: chunk_data_def)
  next
    case False
    then have u: "u = w" "n = length w + 1" using assms(4) by (simp_all add: u_def)
    have "scan (\<lambda>c. c \<noteq> CR) (w @ CR # LF # rest) n = Some (w, CR # LF # rest, 1)"
      using w u(2) by (intro scan_stop) auto
    then show thesis using that[of cb'] cb' u(1) by (simp add: chunk_data_def expect_def Let_def)
  qed
qed

lemma chunk_step_short:
  assumes "good_chunk w" "body_at cnt v cb" "\<forall>k. alloc k" "cb_size cb + length w + SCRATCH_BUF_SIZE + 1 < 2 ^ 63"
    "n < length (encode_chunk w)"
  obtains cb' where "chunk_step alloc len cnt (eh, cb) (encode_chunk w @ rest, n) = Stop (eh, cb')"
proof -
  have w: "0 < length w" "length w < 2 ^ 60" using assms(1) by (auto simp: good_chunk_def)
  have e: "encode_chunk w @ rest = show_hex (length w) @ CRLF @ (w @ CRLF @ rest)" by (simp add: encode_chunk_def)
  show thesis
  proof (cases "n \<le> length (show_hex (length w)) + 2")
    case True
    from chunk_size_line_short[OF w(2) True, of len "(eh, cb)" "w @ CRLF @ rest"]
    show thesis using that[of cb] unfolding e by (simp add: chunk_step_def del: append.simps)
  next
    case False
    define m where "m = n - (length (show_hex (length w)) + 2)"
    have m: "n = length (show_hex (length w)) + (2 + m)" "0 < m" "m \<le> length w + 1"
      using False assms(5) by (auto simp: m_def length_encode_chunks(3))
    have l: "chunk_size_line len (eh, cb) (encode_chunk w @ rest, n) = Go (eh, cb) (int (length w), (w @ CRLF @ rest, m))"
      unfolding e m(1) by (rule chunk_size_line_encoded[OF w(2) m(2)])
    obtain cb1 where g: "chunk_grow alloc (int (length w)) cnt (eh, cb) = Go (eh, cb1) ()" "body_at cnt v cb1"
      "cnt + length w < cb_size cb1"
      using chunk_grow_ok[OF assms(2,3) w(1) assms(4)] by blast
    obtain cb' where "chunk_data len cnt (eh, cb1) (w @ CRLF @ rest, m) = Stop (eh, cb')"
      using chunk_data_short[OF assms(1) g(2,3) m(3)] by blast
    then show thesis using that[of cb'] w(1) by (simp add: chunk_step_def l g(1) del: append.simps)
  qed
qed

lemma chunk_loop_short:
  assumes "\<forall>k. alloc k"
  shows "\<lbrakk>list_all good_chunk ws; body_at cnt v cb;
    cb_size cb + sum_list (map (\<lambda>w. length w + SCRATCH_BUF_SIZE + 1) ws) < 2 ^ 63;
    n + length ws \<le> length (encode_chunks ws) + 3\<rbrakk>
   \<Longrightarrow> \<exists>cb'. chunk_loop alloc len cnt (eh, cb) (encode_chunks ws @ ''0'' @ CRLF @ rest, n) = Stop (eh, cb')"
proof (induction ws arbitrary: cnt v cb n)
  case Nil
  have h: "show_hex 0 = ''0''" by (simp add: show_hex.simps hex_char_def)
  have "n \<le> length (show_hex 0) + 2" using Nil.prems(4) by (simp add: h encode_chunks_def)
  from chunk_size_line_short[OF _ this, of len "(eh, cb)" rest]
  have "chunk_step alloc len cnt (eh, cb) (''0'' @ CRLF @ rest, n) = Stop (eh, cb)"
    by (simp add: chunk_step_def h del: append.simps(2))
  then show ?case by (subst chunk_loop.simps) (simp add: encode_chunks_def)
next
  case (Cons w ws)
  let ?r = "encode_chunks ws @ ''0'' @ CRLF @ rest"
  have sz: "good_chunk w" "cb_size cb + length w + SCRATCH_BUF_SIZE + 1 < 2 ^ 63" "list_all good_chunk ws"
    using Cons.prems by simp_all
  show ?case
  proof (cases "n < length (encode_chunk w)")
    case True
    obtain cb' where "chunk_step alloc len cnt (eh, cb) (encode_chunk w @ ?r, n) = Stop (eh, cb')"
      using chunk_step_short[OF sz(1) Cons.prems(2) assms sz(2) True] by blast
    then show ?thesis by (subst chunk_loop.simps) (simp add: length_encode_chunks(2) del: append.simps(2))
  next
    case False
    define N where "N = n - length (encode_chunk w)"
    have n: "n = length (encode_chunk w) + N" "0 < n" "Suc N + length ws \<le> length (encode_chunks ws) + 3"
      using False Cons.prems(4) by (auto simp: N_def length_encode_chunks(2,3))
    obtain cb1 where s: "chunk_step alloc len cnt (eh, cb) (encode_chunk w @ ?r, n)
        = Go (eh, cb1) (Inr ((?r, Suc N), cnt + length w))"
      "body_at (cnt + length w) (v @ w) cb1" "cb_size cb1 \<le> cb_size cb + length w + SCRATCH_BUF_SIZE + 1"
      unfolding n(1) using chunk_step_encoded[OF sz(1) Cons.prems(2) assms sz(2)] by blast
    have "cb_size cb1 + sum_list (map (\<lambda>w. length w + SCRATCH_BUF_SIZE + 1) ws) < 2 ^ 63"
      using s(3) Cons.prems(3) by simp
    from Cons.IH[OF sz(3) s(2) this n(3)] show ?thesis using n(2)
      by (subst chunk_loop.simps) (simp add: s(1) length_encode_chunks(2) del: append.simps(2))
  qed
qed

lemma chunks_cut_short:
  assumes "list_all good_chunk ws" "\<forall>k. alloc k" "cb_data cb \<noteq> None" "0 < cb_size cb"
    "cb_size cb + sum_list (map (\<lambda>w. length w + SCRATCH_BUF_SIZE + 1) ws) < 2 ^ 63"
    "0 < len" "len + length ws \<le> length (encode_chunks ws) + 3"
  shows "\<exists>cb'. ParseChunkedMsgBody alloc (Some (encode_chunks ws @ last_chunk @ rest)) len (eh, cb) = Stop (eh, cb')"
proof -
  have b: "body_at 0 [] cb" using assms(3,4) by (auto simp: body_at_def)
  from chunk_loop_short[OF assms(2,1) b assms(5,7), where len = len and eh = eh and rest = "CRLF @ rest"] assms(3)
  show ?thesis using encoded_start[OF assms(6), of ws "CRLF @ CRLF @ rest"]
    by (auto simp: ParseChunkedMsgBody_def last_chunk_def simp del: append.simps(2))
qed

section \<open>Which chunked responses are accepted\<close>

text \<open>
  C20. A chunked response whose chunks are not empty and have no carriage return in their data is accepted
  only if its header is about as long as its body: on such a response of which everything has arrived,
  header, complete chunked body and whatever follows, ParseResponseHdr decodes the body and returns true
  when the header has at least as many bytes as the chunks before the last one and four more,
  less one for each chunk. With a shorter header it returns false without an error, as if data were
  missing, and forgets the message headers, however much more data comes.
\<close>

theorem chunked_response_needs_long_header:
  assumes "0 \<le> status_code h" "status_code h < 1000" "list_all wf_hdr (msg_hdrs h)"
    "length (response_text h) < SCRATCH_BUF_SIZE" "is_chunked h" "msg_hdrs h0 = []" "\<not> event_flag eh"
    "list_all good_chunk ws" "\<forall>k. alloc k" "cb_data cb \<noteq> None" "0 < cb_size cb"
    "cb_size cb + sum_list (map (\<lambda>w. length w + SCRATCH_BUF_SIZE + 1) ws) < 2 ^ 63"
    "length (response_text h @ encode_chunks ws @ last_chunk) \<le> n" "n < 2 ^ 64"
  shows "if length (encode_chunks ws) + 4 \<le> length (response_text h) + length ws
    then \<exists>cb' d. ParseResponseHdr alloc (Some (response_text h @ encode_chunks ws @ last_chunk @ rest)) n ((h0, eh), cb)
        = Go ((response_of h h0, eh), cb') (length (response_text h) + length (encode_chunks ws) + 3 - length ws) \<and> cb_data cb' = Some (concat ws @ NUL # d)
    else \<exists>cb'. ParseResponseHdr alloc (Some (response_text h @ encode_chunks ws @ last_chunk @ rest)) n ((h0, eh), cb)
        = Stop (((response_of h h0)\<lparr>msg_hdrs := []\<rparr>, eh), cb')"
proof -
  let ?H = "length (response_text h)" and ?E = "length (encode_chunks ws)"
  define m where "m = n - ?H"
  have n: "n = ?H + m" "?E + 5 \<le> m" using assms(13) by (simp_all add: m_def last_chunk_def)
  have H: "0 < ?H" by (simp add: response_text_def status_line_def http_1_1_def)
  have k: "length ws \<le> ?E" by (rule length_encode_chunks)
  have body: "ParseResponseHdr alloc (Some (response_text h @ r)) n ((h0, eh), cb)
      = ParseResponseBody alloc n ((response_of h h0, eh), cb) (r, m)" for r
    using ParseResponseHdr_body[OF assms(1-4) n(1) assms(14), of "((h0, eh), cb)"] assms(6) by simp
  have sz: "size_sub n m = ?H" using assms(14) n(1) by (simp add: size_sub_exact)
  have m: "0 < m" "m < 2 ^ 64" using assms(14) n by simp_all
  let ?R = "encode_chunks ws @ last_chunk @ rest"
  show ?thesis
  proof (cases "?E + 4 \<le> ?H + length ws")
    case True
    define q where "q = ?H + length ws - (?E + 3)"
    have q: "?H + length ws = ?E + (3 + q)" "0 < q" "q \<le> ?H" using True k by (auto simp: q_def)
    obtain cb' d where c: "ParseChunkedMsgBody alloc (Some ?R) ?H (eh, cb) = Go (eh, cb') (size_sub ?H q)"
        "cb_data cb' = Some (concat ws @ NUL # d)"
      using chunks_decoded[OF assms(8-12) q(1,2), of rest eh] by blast
    have "size_sub ?H q = ?E + 3 - length ws" using q assms(14) n(1) by (simp add: size_sub_exact)
    then have "size_sub m (size_sub ?H q) = m - (?E + 3 - length ws)" using n(2) m(2) by (simp add: size_sub_exact)
    moreover have "size_sub n (m - (?E + 3 - length ws)) = ?H + ?E + 3 - length ws"
      using k n assms(14) by (simp add: size_sub_exact)
    ultimately have "ParseResponseBody alloc n ((response_of h h0, eh), cb) (?R, m)
        = Go ((response_of h h0, eh), cb') (length (response_text h) + length (encode_chunks ws) + 3 - length ws)"
      using assms(5) m(1) c(1) by (simp add: ParseResponseBody_def Let_def sz)
    with True c(2) body[of ?R] show ?thesis by simp
  next
    case False
    then have "?H + length ws \<le> ?E + 3" by simp
    then obtain cb' where c: "ParseChunkedMsgBody alloc (Some ?R) ?H (eh, cb) = Stop (eh, cb')"
      using chunks_cut_short[OF assms(8-12) H, of rest eh] by blast
    have "ParseResponseBody alloc n ((response_of h h0, eh), cb) (?R, m) = Stop (((response_of h h0)\<lparr>msg_hdrs := []\<rparr>, eh), cb')"
      using assms(5,7) m(1) c by (simp add: ParseResponseBody_def Let_def sz response_note_def clear_hdrs_def)
    with False body[of ?R] show ?thesis by simp
  qed
qed

definition chunked_response :: http where
  "chunked_response = HTTPFraming\<lparr>msg_type := RESPONSE, major := 1, minor := 1, status_code := 200,
     msg_hdrs := [\<lparr>field_name = ''Transfer-Encoding'', field_value = ''chunked'', parameters = []\<rparr>]\<rparr>"

lemma chunked_response_text:
  "response_text chunked_response = ''HTTP/1.1 200 OK'' @ CRLF @ ''Transfer-Encoding: chunked'' @ CRLF @ CRLF"
  by (simp add: chunked_response_def response_text_def status_line_def http_1_1_def show_nat.simps status_code_phrase_def
      table_at_def code_200_phrases_def hdr_text_def)

lemma chunked_response_facts:
  "0 \<le> status_code chunked_response" "status_code chunked_response < 1000" "list_all wf_hdr (msg_hdrs chunked_response)"
  "length (response_text chunked_response) < SCRATCH_BUF_SIZE" "is_chunked chunked_response"
  "length (response_text chunked_response) = 47"
  unfolding chunked_response_text
  by (simp_all add: chunked_response_def wf_hdr_def value_byte_def isspace_def is_chunked_def transfer_encoding_def
      same_name_iff MIME_CHUNKED_def MIME_TRANSFER_ENCODING_def c_str_def SCRATCH_BUF_SIZE_def)

text \<open>A chunk of four bytes after a header of 47 bytes, and one of sixty.\<close>

theorem chunked_response_needs_long_header_witness:
  "(\<exists>cb' d used. ParseResponseHdr (\<lambda>_. True) (Some (response_text chunked_response @ encode_chunks [''Wiki''] @ last_chunk @ [])) 61
      ((HTTPFraming, ErrorHandler), \<lparr>cb_data = Some [], cb_size = 4096\<rparr>)
      = Go ((response_of chunked_response HTTPFraming, ErrorHandler), cb') used \<and> cb_data cb' = Some (''Wiki'' @ NUL # d))
   \<and> (\<exists>st. ParseResponseHdr (\<lambda>_. True) (Some (response_text chunked_response @ encode_chunks [replicate 60 (CHR ''a'')] @ last_chunk @ [])) 118
      ((HTTPFraming, ErrorHandler), \<lparr>cb_data = Some [], cb_size = 4096\<rparr>) = Stop st)"
proof -
  note f = chunked_response_facts
  let ?cb = "\<lparr>cb_data = Some [], cb_size = 4096\<rparr>"
  have e: "msg_hdrs HTTPFraming = []" "\<not> event_flag ErrorHandler" by (simp_all add: HTTPFraming_def ErrorHandler_def)
  have x: "length (show_hex (Suc (Suc (Suc (Suc 0))))) = 1" "length (show_hex 60) = 2" by (simp_all add: show_hex.simps)
  have l1: "length (encode_chunks [''Wiki'']) = 9" by (simp add: encode_chunks_def encode_chunk_def x)
  have l2: "length (encode_chunks [replicate 60 (CHR ''a'')]) = 66" by (simp add: encode_chunks_def encode_chunk_def x)
  have g: "list_all good_chunk [''Wiki'']" "list_all good_chunk [replicate 60 (CHR ''a'')]" by (simp_all add: good_chunk_def)
  have "\<exists>cb' d. ParseResponseHdr (\<lambda>_. True) (Some (response_text chunked_response @ encode_chunks [''Wiki''] @ last_chunk @ [])) 61
      ((HTTPFraming, ErrorHandler), ?cb)
      = Go ((response_of chunked_response HTTPFraming, ErrorHandler), cb') (length (response_text chunked_response) + length (encode_chunks [''Wiki'']) + 3 - length [''Wiki''])
      \<and> cb_data cb' = Some (concat [''Wiki''] @ NUL # d)"
    using chunked_response_needs_long_header[OF f(1-5) e g(1), of "\<lambda>_. True" ?cb 61 "[]"] f(6) l1
    by (simp add: SCRATCH_BUF_SIZE_def last_chunk_def)
  moreover have "\<exists>cb'. ParseResponseHdr (\<lambda>_. True)
      (Some (response_text chunked_response @ encode_chunks [replicate 60 (CHR ''a'')] @ last_chunk @ [])) 118
      ((HTTPFraming, ErrorHandler), ?cb) = Stop (((response_of chunked_response HTTPFraming)\<lparr>msg_hdrs := []\<rparr>, ErrorHandler), cb')"
    using chunked_response_needs_long_header[OF f(1-5) e g(2), of "\<lambda>_. True" ?cb 118 "[]"] f(6) l2
    by (simp add: SCRATCH_BUF_SIZE_def last_chunk_def)
  ultimately show ?thesis by auto
qed

end
