(* ===== verification/Msg_Hdr.thy ===== *)
theory Msg_Hdr
  imports Http_Parse
begin

text \<open>
  The framing-independent message header (MsgHdr.h, MsgHdr.cc, BasicFraming.h): a header is of one
  of two types, the fixed binary BasicFramingHdr or HTTPFraming, and every operation switches on
  the type; the default branch of a switch logs or records an error. Logging has no effect on the
  state and is left out.
\<close>

record basic_hdr =
  bid :: "8 word"
  btype :: "8 word"
  btype_id :: "8 word"
  bopt :: "8 word"
  bmsg_id :: "16 word"
  blamport :: "16 word"
  blen :: "16 word"

definition kBasicHdrSize :: nat where "kBasicHdrSize = 10"

definition zero_basic :: basic_hdr where
  "zero_basic = \<lparr>bid = 0, btype = 0, btype_id = 0, bopt = 0, bmsg_id = 0, blamport = 0, blen = 0\<rparr>"

record hdr_storage =
  basic :: basic_hdr
  http_framing :: http

record msghdr =
  msg_id :: "16 word"
  mtype :: "8 word"
  storage_hdr :: hdr_storage

definition TYPE_NONE :: "8 word" where "TYPE_NONE = 0"
definition TYPE_BASIC :: "8 word" where "TYPE_BASIC = 1"
definition TYPE_HTTP :: "8 word" where "TYPE_HTTP = 2"

definition HdrStorage :: hdr_storage where
  "HdrStorage = \<lparr>basic = zero_basic, http_framing = HTTPFraming\<rparr>"

definition set_basic :: "basic_hdr \<Rightarrow> hdr_storage \<Rightarrow> hdr_storage" where
  "set_basic b s = s\<lparr>basic := b\<rparr>"

definition set_http :: "http \<Rightarrow> hdr_storage \<Rightarrow> hdr_storage" where
  "set_http h s = s\<lparr>http_framing := h\<rparr>"

definition storage_clear :: "hdr_storage \<Rightarrow> hdr_storage" where
  "storage_clear s = s\<lparr>basic := zero_basic, http_framing := http_clear (http_framing s)\<rparr>"

definition MsgHdr :: "8 word \<Rightarrow> msghdr" where
  "MsgHdr t = \<lparr>msg_id = 0, mtype = t, storage_hdr = HdrStorage\<rparr>"

text \<open>Copies: whatever the type, both the binary header and the HTTP header are copied.\<close>

definition hs_copy :: "hdr_storage \<Rightarrow> hdr_storage" where
  "hs_copy src = \<lparr>basic = basic src, http_framing = http_copy (http_framing src)\<rparr>"

definition hs_assign :: "hdr_storage \<Rightarrow> hdr_storage \<Rightarrow> hdr_storage" where
  "hs_assign s src = s\<lparr>basic := basic src, http_framing := http_assign (http_framing s) (http_framing src)\<rparr>"

definition mh_copy :: "msghdr \<Rightarrow> msghdr" where
  "mh_copy src = \<lparr>msg_id = msg_id src, mtype = mtype src, storage_hdr = hs_copy (storage_hdr src)\<rparr>"

definition mh_assign :: "msghdr \<Rightarrow> msghdr \<Rightarrow> msghdr" where
  "mh_assign m src = m\<lparr>msg_id := msg_id src, mtype := mtype src,
     storage_hdr := hs_assign (storage_hdr m) (storage_hdr src)\<rparr>"

lemma mh_copies [simp]: "mh_copy src = src" "mh_assign m src = src"
  by (simp_all add: mh_copy_def mh_assign_def hs_copy_def hs_assign_def)

abbreviation mh_http :: "msghdr \<Rightarrow> http" where
  "mh_http m \<equiv> http_framing (storage_hdr m)"

abbreviation mh_basic :: "msghdr \<Rightarrow> basic_hdr" where
  "mh_basic m \<equiv> basic (storage_hdr m)"

section \<open>Accessors\<close>

definition mh_hdr_len :: "msghdr \<Rightarrow> nat option" where
  "mh_hdr_len m =
     (if mtype m = TYPE_BASIC then Some kBasicHdrSize
      else if mtype m = TYPE_HTTP then hdr_len False (mh_http m)
      else Some 0)"

definition mh_body_len :: "msghdr \<Rightarrow> nat" where
  "mh_body_len m =
     (if mtype m = TYPE_BASIC then unat (blen (mh_basic m))
      else if mtype m = TYPE_HTTP then msg_len (mh_http m)
      else 0)"

definition basic_hdr_of :: "msghdr \<Rightarrow> basic_hdr" where
  "basic_hdr_of m = (if mtype m \<noteq> TYPE_BASIC then zero_basic else mh_basic m)"

definition http_hdr_of :: "msghdr \<Rightarrow> http" where
  "http_hdr_of m = (if mtype m \<noteq> TYPE_HTTP then HTTPFraming else mh_http m)"

text \<open>
  The extension for a media type. Both comparisons are \<^verbatim>\<open>strncasecmp\<close> over the
  length of the constant, without a test of the other length.
\<close>

definition media_types :: "(string \<times> string) list" where
  "media_types = [(''video/mpeg'', ''mpg''), (''video/mp4'', ''mp4''), (''video/quicktime'', ''mov''),
     (''video/ogg'', ''ogg''), (''application/x-tar'', ''tar''), (''image/gif'', ''gif''),
     (''image/png'', ''png''), (''text/plain'', ''txt''), (''text/xml'', ''xml'')]"

fun find_media_type :: "rfc822_msg_hdr list \<Rightarrow> string" where
  "find_media_type [] = []"
| "find_media_type (h # hs) =
     (if strncaseeq (field_name h) MIME_CONTENT_TYPE (length MIME_CONTENT_TYPE)
      then field_value h else find_media_type hs)"

fun media_ext :: "string \<Rightarrow> (string \<times> string) list \<Rightarrow> string" where
  "media_ext t [] = ''dat''"
| "media_ext t ((m, e) # ms) = (if strncaseeq t m (length m) then e else media_ext t ms)"

definition GetMediaTypeExt :: "msghdr \<Rightarrow> string" where
  "GetMediaTypeExt m =
     (if mtype m = TYPE_HTTP
      then (let media_type = find_media_type (msg_hdrs (mh_http m))
            in if c_str media_type = [] then replicate 1024 NUL else media_ext media_type media_types)
      else replicate 1024 NUL)"

section \<open>Mutators\<close>

definition set_msg_id :: "16 word \<Rightarrow> msghdr \<Rightarrow> msghdr" where "set_msg_id i m = m\<lparr>msg_id := i\<rparr>"
definition set_type :: "8 word \<Rightarrow> msghdr \<Rightarrow> msghdr" where "set_type t m = m\<lparr>mtype := t\<rparr>"
definition set_hdr :: "hdr_storage \<Rightarrow> msghdr \<Rightarrow> msghdr" where "set_hdr s m = m\<lparr>storage_hdr := s\<rparr>"

definition put_http :: "http \<Rightarrow> msghdr \<Rightarrow> msghdr" where
  "put_http h m = set_hdr (set_http h (storage_hdr m)) m"

definition put_basic :: "basic_hdr \<Rightarrow> msghdr \<Rightarrow> msghdr" where
  "put_basic b m = set_hdr (set_basic b (storage_hdr m)) m"

text \<open>
  set_body_len: a 16-bit store for BASIC; for HTTP the length is cast to int, printed with %d and
  appended as a Content-Length header.
\<close>

definition set_body_len :: "nat \<Rightarrow> msghdr \<times> errh \<Rightarrow> msghdr \<times> errh" where
  "set_body_len n st =
     (let m = fst st in
      if mtype m = TYPE_BASIC then (put_basic ((mh_basic m)\<lparr>blen := of_nat n\<rparr>) m, snd st)
      else if mtype m = TYPE_HTTP
      then (let r = AppendMsgHdr_fields (Some MIME_CONTENT_LENGTH)
                      (Some (take 63 (show_int (to_int (int n))))) None None (mh_http m, snd st)
            in (put_http (fst r) m, snd r))
      else st)"

definition mh_clear :: "msghdr \<Rightarrow> msghdr" where
  "mh_clear m = m\<lparr>msg_id := 0, mtype := TYPE_NONE, storage_hdr := storage_clear (storage_hdr m)\<rparr>"

section \<open>Printing\<close>

definition mh_print :: "msghdr \<Rightarrow> string option" where
  "mh_print m =
     (if mtype m = TYPE_BASIC
      then (let b = mh_basic m in Some (zfill 1024 (sn_print 1024
        [''msg_id('' @ show_nat (unat (msg_id m)) @ ''):hdr.id('' @ show_nat (unat (bid b)) @
         ''):hdr.type('' @ show_nat (unat (btype b)) @ ''):hdr.type_id('' @ show_nat (unat (btype_id b)) @
         ''):hdr.time('' @ show_nat (unat (blamport b)) @ ''):hdr.len('' @ show_nat (unat (blen b)) @ '')''])))
      else if mtype m = TYPE_HTTP
      then map_option (\<lambda>l. zfill 1024 (sn_print 1024 [show_nat (unat (msg_id m)) @ '':'' @ c_str l]))
             (print_start_line False (mh_http m))
      else Some (replicate 1024 NUL))"

definition mh_print_hdr :: "int \<Rightarrow> msghdr \<Rightarrow> string option" where
  "mh_print_hdr offset m =
     (if mtype m = TYPE_BASIC then mh_print m
      else if mtype m = TYPE_HTTP then print_hdr offset False (mh_http m)
      else Some [])"

section \<open>Initialisation\<close>

definition mh_Init_http :: "16 word \<Rightarrow> http \<Rightarrow> msghdr \<times> errh \<Rightarrow> msghdr \<times> errh" where
  "mh_Init_http i h st =
     (if mtype (fst st) \<noteq> TYPE_HTTP
      then (fst st, error_Init EX_SOFTWARE (Some ''MsgHdr::Init(): type is not HTTP'') (snd st))
      else (put_http h (set_msg_id i (fst st)), snd st))"

definition mh_Init_basic :: "16 word \<Rightarrow> basic_hdr \<Rightarrow> msghdr \<times> errh \<Rightarrow> msghdr \<times> errh" where
  "mh_Init_basic i b st =
     (if mtype (fst st) \<noteq> TYPE_BASIC
      then (fst st, error_Init EX_SOFTWARE (Some ''MsgHdr::Init(): type is not BASIC'') (snd st))
      else (put_basic b (set_msg_id i (fst st)), snd st))"

text \<open>
  What the parser works on: the header, the global counter msg_id_hash, the error object and the
  caller's buffer for a chunked body.
\<close>

record msg_env =
  env_hdr :: msghdr
  msg_id_hash :: "16 word"
  env_err :: errh
  env_chunk :: chunk_buf

text \<open>
  InitFromBuf. The result is the return value true with what was stored in bytes_used, None if
  nothing was. For TYPE_BASIC the source copies from the address of the pointer
  (\<^verbatim>\<open>&buf\<close>) and not from the buffer: the header read is ptr_bytes, the content of the
  parameter's stack slot and what follows it.
\<close>

definition mh_InitFromBuf ::
  "basic_hdr \<Rightarrow> (nat \<Rightarrow> bool) \<Rightarrow> string option \<Rightarrow> nat \<Rightarrow> msg_env \<Rightarrow> (msg_env, nat option) run" where
  "mh_InitFromBuf ptr_bytes alloc buf len e =
     (let m = env_hdr e in
      if mtype m = TYPE_BASIC
      then (if len < kBasicHdrSize then Stop e
            else Go (e\<lparr>env_hdr := set_msg_id (bmsg_id ptr_bytes) (put_basic ptr_bytes m)\<rparr>) (Some kBasicHdrSize))
      else if mtype m = TYPE_HTTP
      then (case http_InitFromBuf alloc URL_PORT_NULL buf len ((mh_http m, env_err e), env_chunk e) of
              Fault \<Rightarrow> Fault
            | Stop ((h, eh), cb) \<Rightarrow>
                Stop (e\<lparr>env_hdr := put_http h m, env_chunk := cb,
                  env_err := (if event_flag eh then error_AppendMsg (Some ''MsgHdr::InitFromBuf(): '') eh else eh)\<rparr>)
            | Go ((h, eh), cb) k \<Rightarrow>
                (let i = msg_id_hash e + 1
                 in Go (e\<lparr>env_hdr := set_msg_id i (put_http h m), msg_id_hash := i, env_err := eh, env_chunk := cb\<rparr>)
                       (Some k)))
      else Go (e\<lparr>env_err := error_Init EX_DATAERR
                 (Some (''MsgHdr::InitFromBuf(): unknown type: '' @ show_nat (unat (mtype m)) @ ''.'')) (env_err e)\<rparr>) None)"

definition IsMsgRequest :: "msghdr \<Rightarrow> bool" where
  "IsMsgRequest m \<longleftrightarrow> mtype m = TYPE_HTTP \<and> msg_type (mh_http m) = REQUEST"

definition IsMsgStatusNormal :: "msghdr \<Rightarrow> bool" where
  "IsMsgStatusNormal m \<longleftrightarrow> mtype m = TYPE_HTTP \<and> status_code (mh_http m) = 200"

section \<open>Properties\<close>

lemma put_http_simps [simp]:
  "mh_http (put_http h m) = h" "mtype (put_http h m) = mtype m" "msg_id (put_http h m) = msg_id m"
  "mh_basic (put_http h m) = mh_basic m"
  by (simp_all add: put_http_def set_hdr_def set_http_def)

lemma put_basic_simps [simp]:
  "mh_basic (put_basic b m) = b" "mtype (put_basic b m) = mtype m" "msg_id (put_basic b m) = msg_id m"
  "mh_http (put_basic b m) = mh_http m"
  by (simp_all add: put_basic_def set_hdr_def set_basic_def)

lemma type_distinct [simp]: "TYPE_HTTP \<noteq> TYPE_BASIC" "TYPE_BASIC \<noteq> TYPE_HTTP" "TYPE_NONE \<noteq> TYPE_BASIC"
  "TYPE_NONE \<noteq> TYPE_HTTP"
  by (simp_all add: TYPE_HTTP_def TYPE_BASIC_def TYPE_NONE_def)

lemma find_hdr_append_fields:
  "find_hdr n (msg_hdrs (fst st)) = None \<Longrightarrow>
   find_hdr k (msg_hdrs (fst (AppendMsgHdr_fields (Some n) (Some v) None None st))) =
     (case find_hdr k (msg_hdrs (fst st)) of
        Some m \<Rightarrow> Some m
      | None \<Rightarrow> if same_name n k then Some \<lparr>field_name = c_str n, field_value = c_str v, parameters = []\<rparr> else None)
   \<and> snd (AppendMsgHdr_fields (Some n) (Some v) None None st) = snd st"
  by (auto simp: AppendMsgHdr_fields_def Let_def find_hdr_append same_name_iff split: option.splits)

text \<open>
  C34. The body length set on a header is the one read back, for HTTP lengths below 2^31 when no
  Content-Length header is present yet (and then no error is recorded), and for BASIC lengths
  below 2^16.
\<close>

theorem body_len_roundtrip:
  assumes "mtype m = TYPE_HTTP \<and> find_hdr MIME_CONTENT_LENGTH (msg_hdrs (mh_http m)) = None \<and> n < 2 ^ 31
    \<or> mtype m = TYPE_BASIC \<and> n < 2 ^ 16"
  shows "mh_body_len (fst (set_body_len n (m, eh))) = n \<and> snd (set_body_len n (m, eh)) = eh"
  using assms
proof
  assume h: "mtype m = TYPE_HTTP \<and> find_hdr MIME_CONTENT_LENGTH (msg_hdrs (mh_http m)) = None \<and> n < 2 ^ 31"
  have i: "to_int (int n) = int n" using h by (simp add: to_int_id)
  have "length (show_nat n) \<le> 10" using h by (intro length_show_nat) auto
  then have t: "take 63 (show_int (int n)) = show_nat n" by (simp add: show_int_def)
  have s: "to_size_t (strtol 10 (show_nat n)) = n"
    using h by (simp add: strtol_show_nat LONG_MAX_def to_size_t_def)
  have c: "MIME_CONTENT_LENGTH = c_str MIME_CONTENT_LENGTH" by (simp add: MIME_CONTENT_LENGTH_def)
  show ?thesis
    using h i t s find_hdr_append_fields[of MIME_CONTENT_LENGTH "(mh_http m, eh)" MIME_CONTENT_LENGTH "show_nat n"]
    by (simp add: set_body_len_def mh_body_len_def msg_len_def Let_def)
next
  assume "mtype m = TYPE_BASIC \<and> n < 2 ^ 16"
  then show ?thesis
    by (simp add: set_body_len_def mh_body_len_def Let_def unat_of_nat)
qed

theorem body_len_roundtrip_witness:
  "mh_body_len (fst (set_body_len 5 (MsgHdr TYPE_HTTP, ErrorHandler))) = 5 \<and>
   mh_body_len (fst (set_body_len 7 (MsgHdr TYPE_BASIC, ErrorHandler))) = 7"
  using body_len_roundtrip[of "MsgHdr TYPE_HTTP" 5 ErrorHandler]
    body_len_roundtrip[of "MsgHdr TYPE_BASIC" 7 ErrorHandler]
  by (simp add: MsgHdr_def HdrStorage_def HTTPFraming_def)

text \<open>
  A BASIC header is never read from the buffer: for any two buffers (NULL included) of the same
  length InitFromBuf gives the same result, success as soon as ten bytes are there, with the header
  taken from the bytes of the pointer itself.
\<close>

theorem basic_header_ignores_buffer:
  assumes "mtype (env_hdr e) = TYPE_BASIC"
  shows "mh_InitFromBuf ptr_bytes alloc buf len e = mh_InitFromBuf ptr_bytes alloc buf' len e \<and>
    (kBasicHdrSize \<le> len \<longrightarrow> (\<exists>e'. mh_InitFromBuf ptr_bytes alloc buf len e = Go e' (Some kBasicHdrSize) \<and>
      basic_hdr_of (env_hdr e') = ptr_bytes))"
  using assms by (simp add: mh_InitFromBuf_def Let_def basic_hdr_of_def set_msg_id_def)

theorem basic_header_ignores_buffer_witness:
  "mh_InitFromBuf zero_basic (\<lambda>_. True) (Some ''0123456789'') 10
      \<lparr>env_hdr = MsgHdr TYPE_BASIC, msg_id_hash = 0, env_err = ErrorHandler, env_chunk = \<lparr>cb_data = None, cb_size = 0\<rparr>\<rparr> =
   mh_InitFromBuf zero_basic (\<lambda>_. True) (Some ''abcdefghij'') 10
      \<lparr>env_hdr = MsgHdr TYPE_BASIC, msg_id_hash = 0, env_err = ErrorHandler, env_chunk = \<lparr>cb_data = None, cb_size = 0\<rparr>\<rparr>"
  using basic_header_ignores_buffer[of "\<lparr>env_hdr = MsgHdr TYPE_BASIC, msg_id_hash = 0, env_err = ErrorHandler,
     env_chunk = \<lparr>cb_data = None, cb_size = 0\<rparr>\<rparr>" zero_basic "\<lambda>_. True" "Some ''0123456789''" 10 "Some ''abcdefghij''"]
  by (simp add: MsgHdr_def)

text \<open>
  clear leaves a header that no parser accepts: its type is TYPE_NONE, and InitFromBuf on it,
  whatever the buffer, records an error and yet returns true without setting the bytes used.
\<close>

theorem cleared_header_reports_success:
  "\<exists>e'. mh_InitFromBuf ptr_bytes alloc buf len (e\<lparr>env_hdr := mh_clear (env_hdr e)\<rparr>) = Go e' None
     \<and> event_flag (env_err e') \<and> env_hdr e' = mh_clear (env_hdr e)"
  by (simp add: mh_InitFromBuf_def mh_clear_def Let_def error_Init_def)

end
