(* ===== verification/Checksum.thy ===== *)
theory Checksum
  imports Prelude
begin

text \<open>
  The Internet checksum of IPComm.cc (calculate_cksum): the model on words of the source's widths,
  its relation to the sum of the 16-bit words as a number, and that a receiver's check succeeds.
\<close>

section \<open>The Internet checksum\<close>

text \<open>
  calculate_cksum reads the buffer as 16-bit words of the host (little-endian) and adds them in a
  32-bit accumulator, then folds the carries.
\<close>

unbundle bit_operations_syntax

type_synonym u8 = "8 word"
type_synonym u16 = "16 word"
type_synonym u32 = "32 word"

fun sum_words :: "u32 \<Rightarrow> u8 list \<Rightarrow> u32" where
  "sum_words s (a # b # bs) = sum_words (s + (ucast a + ucast b * 256)) bs"
| "sum_words s [a] = s + ucast a"
| "sum_words s [] = s"

lemma and_ffff: "s AND 0xffff = take_bit 16 (s :: u32)"
  by (simp add: take_bit_eq_mask mask_eq_exp_minus_1)

lemma unat_high: "unat (drop_bit 16 (s :: u32)) = unat s div 2 ^ 16"
  by (simp add: drop_bit_eq_div unat_div_distrib)

lemma unat_low: "unat ((s :: u32) AND 0xffff) = unat s mod 2 ^ 16"
proof -
  have "unat (take_bit 16 s) = take_bit 16 (unat s)" by transfer (simp add: take_bit_nat_eq min_def)
  then show ?thesis by (simp only: and_ffff take_bit_eq_mod)
qed

lemma unat_fold_step:
  "unat ((s AND 0xffff) + drop_bit 16 s :: u32) = unat s mod 2 ^ 16 + unat s div 2 ^ 16"
proof -
  have "unat s < 2 ^ 32" using unsigned_less[of s] by simp
  then have "unat s mod 2 ^ 16 + unat s div 2 ^ 16 < 2 ^ 32" by simp
  then show ?thesis using unat_add_lem[of "s AND 0xffff" "drop_bit 16 s"] by (simp only: unat_low unat_high) simp
qed

function fold_carries :: "u32 \<Rightarrow> u32" where
  "fold_carries s = (if drop_bit 16 s = 0 then s else fold_carries ((s AND 0xffff) + drop_bit 16 s))"
  by pat_completeness auto
termination
proof (relation "measure unat"; clarsimp)
  fix s :: u32
  assume h: "drop_bit 16 s \<noteq> 0"
  let ?q = "unat s div 2 ^ 16"
  have "unat (drop_bit 16 s) \<noteq> 0" using h by (simp only: unat_eq_zero not_False_eq_True)
  then have "0 < ?q" by (simp only: unat_high)
  moreover have "unat s = ?q * 2 ^ 16 + unat s mod 2 ^ 16" by (rule div_mult_mod_eq[symmetric])
  moreover have "0 < q \<Longrightarrow> r + q < q * 2 ^ 16 + r" for q r :: nat by simp
  ultimately have "unat s mod 2 ^ 16 + ?q < unat s" by metis
  then show "unat ((s AND 0xffff) + drop_bit 16 s) < unat s" by (simp only: unat_fold_step)
qed

declare fold_carries.simps [simp del]

definition calculate_cksum :: "u8 list \<Rightarrow> u16" where
  "calculate_cksum buf = ucast (NOT (fold_carries (sum_words 0 buf)))"

text \<open>The 16-bit words of a buffer as a number.\<close>

fun word_sum :: "u8 list \<Rightarrow> nat" where
  "word_sum (a # b # bs) = unat a + 256 * unat b + word_sum bs"
| "word_sum [a] = unat a"
| "word_sum [] = 0"

lemma word_sum_le: "word_sum bs \<le> 65535 * ((length bs + 1) div 2)"
proof (induction bs rule: word_sum.induct)
  case (1 a b bs)
  have "unat a < 2 ^ 8" "unat b < 2 ^ 8" using unsigned_less[of a] unsigned_less[of b] by simp_all
  with 1 show ?case by simp
next
  case (2 a)
  have "unat a < 2 ^ 8" using unsigned_less[of a] by simp
  then show ?case by simp
qed simp

lemma unat_ucast32: "unat (ucast (a :: u8) :: u32) = unat a"
proof -
  have "unat a < 2 ^ 8" using unsigned_less[of a] by simp
  then show ?thesis by (simp add: unsigned_ucast_eq take_bit_nat_eq_self)
qed

lemma unat_byte_pair: "unat (ucast (a :: u8) + ucast (b :: u8) * 256 :: u32) = unat a + 256 * unat b"
proof -
  have lt: "unat a < 2 ^ 8" "unat b < 2 ^ 8" using unsigned_less[of a] unsigned_less[of b] by simp_all
  then show ?thesis using unat_ucast32[of a] unat_ucast32[of b] by (simp add: unat_word_ariths)
qed

lemma sum_words_eq:
  "unat s + word_sum bs < 2 ^ 32 \<Longrightarrow> unat (sum_words s bs) = unat s + word_sum bs"
proof (induction s bs rule: sum_words.induct)
  case (1 s a b bs)
  let ?w = "ucast a + ucast b * 256 :: u32"
  have "unat (s + ?w) = unat s + unat ?w"
    using 1(2) unat_byte_pair[of a b] unat_add_lem[of s ?w] by simp
  then show ?case using 1 unat_byte_pair[of a b] by simp
next
  case (2 s a)
  then show ?case using unat_ucast32[of a] unat_add_lem[of s "ucast a"] by simp
qed simp

lemma fold_carries_mod: "unat (fold_carries s) mod 65535 = unat s mod 65535 \<and> unat (fold_carries s) < 2 ^ 16
    \<and> (unat (fold_carries s) = 0 \<longleftrightarrow> unat s = 0)"
proof (induction s rule: fold_carries.induct)
  case (1 s)
  have e: "unat s = unat s div 2 ^ 16 * 2 ^ 16 + unat s mod 2 ^ 16" by (rule div_mult_mod_eq[symmetric])
  show ?case
  proof (cases "drop_bit 16 s = 0")
    case True
    then have "unat (drop_bit 16 s) = 0" by (simp only: unat_eq_zero)
    then have "unat s div 2 ^ 16 = 0" by (simp only: unat_high)
    then have "unat s < 2 ^ 16" by simp
    with True show ?thesis by (simp only: fold_carries.simps[of s] if_True) simp
  next
    case False
    let ?t = "(s AND 0xffff) + drop_bit 16 s"
    have f: "fold_carries s = fold_carries ?t" using False by (simp only: fold_carries.simps[of s] if_False)
    have t: "unat ?t = unat s mod 2 ^ 16 + unat s div 2 ^ 16" by (rule unat_fold_step)
    have "(q * 2 ^ 16 + r) mod 65535 = (r + q) mod 65535" for q r :: nat
    proof -
      have "q * 2 ^ 16 + r = q * 65535 + (r + q)" by simp
      then show ?thesis by (metis mod_mult_self3)
    qed
    then have m: "unat ?t mod 65535 = unat s mod 65535" unfolding t using e by metis
    have z: "unat ?t = 0 \<longleftrightarrow> unat s = 0"
      unfolding t by (metis e add_is_0 div_0 mod_0 mult_is_0)
    show ?thesis unfolding f using 1[OF False] m z by metis
  qed
qed

lemma unat_not16: "unat s < 2 ^ 16 \<Longrightarrow> unat (ucast (NOT s) :: u16) = 65535 - unat (s :: u32)"
proof -
  assume s: "unat s < 2 ^ 16"
  have "unat (NOT s) = 2 ^ 32 - 1 - unat s"
  proof -
    have "NOT s = - 1 - s" by (simp add: not_eq_complement)
    moreover have "unat (- 1 - s) = unat (- 1 :: u32) - unat s" by (rule unat_sub) simp
    moreover have "unat (- 1 :: u32) = 2 ^ 32 - 1" by (simp add: unsigned_minus_1_eq_mask mask_eq_exp_minus_1)
    ultimately show ?thesis by (simp only:)
  qed
  then have "unat (ucast (NOT s) :: u16) = (2 ^ 32 - 1 - unat s) mod 2 ^ 16"
    by (simp add: unsigned_ucast_eq take_bit_eq_mod)
  also have "\<dots> = 65535 - unat s"
  proof -
    have "2 ^ 32 - 1 - unat s = 65535 * 65536 + (65535 - unat s)" using s by simp
    have "(65535 * 65536 + x) mod 2 ^ 16 = x" if "x < 65536" for x :: nat
    proof -
      have "(65535 * 65536 + x) mod 65536 = x mod 65536" by (rule mod_mult_self3)
      with that show ?thesis by simp
    qed
    moreover have "65535 - unat s < 65536" by (rule le_less_trans[OF diff_le_self]) simp
    ultimately have "(65535 * 65536 + (65535 - unat s)) mod 2 ^ 16 = 65535 - unat s" by blast
    moreover note \<open>2 ^ 32 - 1 - unat s = _\<close>
    ultimately show ?thesis by (simp only:)
  qed
  finally show ?thesis .
qed

lemma unat_cksum:
  "word_sum buf < 2 ^ 32 \<Longrightarrow> unat (calculate_cksum buf) = 65535 - unat (fold_carries (sum_words 0 buf))"
  using fold_carries_mod[of "sum_words 0 buf"] by (simp only: calculate_cksum_def unat_not16)

lemma word_sum_append: "even (length a) \<Longrightarrow> word_sum (a @ b) = word_sum a + word_sum b"
  by (induction a rule: word_sum.induct) auto

definition lo_byte :: "u16 \<Rightarrow> u8" where "lo_byte c = ucast c"
definition hi_byte :: "u16 \<Rightarrow> u8" where "hi_byte c = ucast (drop_bit 8 c)"

lemma word_sum_bytes: "word_sum [lo_byte c, hi_byte c] = unat c"
proof -
  have "unat (lo_byte c) = unat c mod 2 ^ 8"
    by (simp add: lo_byte_def unsigned_ucast_eq take_bit_eq_mod)
  moreover have "unat (drop_bit 8 c) = unat c div 2 ^ 8"
    by (simp add: drop_bit_eq_div unat_div_distrib)
  moreover have "unat c < 2 ^ 16" using unsigned_less[of c] by simp
  then have "unat c div 2 ^ 8 < 2 ^ 8" by simp
  ultimately have "unat (hi_byte c) = unat c div 2 ^ 8"
    by (simp add: hi_byte_def unsigned_ucast_eq take_bit_nat_eq_self)
  with \<open>unat (lo_byte c) = _\<close> show ?thesis by simp
qed

lemma multiple_65535: "n mod 65535 = 0 \<Longrightarrow> n < 2 ^ 16 \<Longrightarrow> n \<noteq> 0 \<Longrightarrow> n = (65535 :: nat)"
proof -
  assume n: "n mod 65535 = 0" "n < 2 ^ 16" "n \<noteq> 0"
  then obtain k where k: "n = 65535 * k" by (auto simp: mod_eq_0_iff_dvd dvd_def)
  have "k < 2" using k n(2) by simp
  moreover have "k \<noteq> 0" using k n(3) by (cases k) simp_all
  ultimately have "k = 1" by linarith
  with k show ?thesis by simp
qed

text \<open>
  C32. The checksum verifies: for a buffer of an even number of bytes, up to 128 KiB with the checksum,
  appending the checksum of the buffer (low byte first, as the host stores it) gives a buffer whose
  checksum is 0, as RFC 1071 requires of the receiver. The 32-bit accumulator does not overflow on the
  way: after every part of the buffer it has the exact sum of the words so far.
\<close>

theorem cksum_verifies:
  assumes "even (length buf)" "length buf + 2 \<le> 2 ^ 17"
  defines "sent \<equiv> buf @ [lo_byte (calculate_cksum buf), hi_byte (calculate_cksum buf)]"
  shows "calculate_cksum sent = 0 \<and> (\<forall>n. unat (sum_words 0 (take n sent)) = word_sum (take n sent))"
proof -
  let ?c = "calculate_cksum buf" and ?f = "fold_carries (sum_words 0 buf)"
  let ?b = "buf @ [lo_byte ?c, hi_byte ?c]"
  have le: "word_sum bs < 2 ^ 32" if "length bs \<le> 2 ^ 17" for bs
  proof -
    have "(length bs + 1) div 2 \<le> 2 ^ 16" using that by simp
    then have "65535 * ((length bs + 1) div 2) < 2 ^ 32" by simp
    with word_sum_le[of bs] show ?thesis by linarith
  qed
  have b: "word_sum buf < 2 ^ 32" "word_sum ?b < 2 ^ 32" using le[of buf] le[of ?b] assms(2) by simp_all
  have f: "unat ?f mod 65535 = word_sum buf mod 65535" "unat ?f < 2 ^ 16" "unat ?f = 0 \<longleftrightarrow> word_sum buf = 0"
    using fold_carries_mod[of "sum_words 0 buf"] sum_words_eq[of 0 buf] b(1) by simp_all
  have s: "word_sum ?b = word_sum buf + (65535 - unat ?f)"
    using word_sum_append[OF assms(1)] word_sum_bytes[of ?c] unat_cksum[OF b(1)] by simp
  have "(word_sum buf + (65535 - unat ?f)) mod 65535 = (unat ?f + (65535 - unat ?f)) mod 65535"
    using f(1) by (metis mod_add_left_eq)
  also have "\<dots> = 0" using f(2) by simp
  finally have m: "word_sum ?b mod 65535 = 0" by (simp only: s)
  have pos: "word_sum ?b \<noteq> 0" unfolding s using f(2,3) by auto
  let ?g = "fold_carries (sum_words 0 ?b)"
  have g: "unat ?g mod 65535 = 0" "unat ?g < 2 ^ 16" "unat ?g \<noteq> 0"
    using fold_carries_mod[of "sum_words 0 ?b"] sum_words_eq[of 0 ?b] b(2) m pos by simp_all
  then have "unat ?g = 65535" by (rule multiple_65535)
  then have "unat (calculate_cksum ?b) = 0" using unat_cksum[OF b(2)] by simp
  then have z: "calculate_cksum sent = 0" by (simp only: unat_eq_zero sent_def)
  have "unat (sum_words 0 (take n sent)) = word_sum (take n sent)" for n
    using sum_words_eq[of 0 "take n sent"] le[of "take n sent"] assms(2) by (simp add: sent_def)
  with z show ?thesis by blast
qed

theorem cksum_verifies_witness:
  "calculate_cksum ([0x45, 0x00, 0x01, 0x02] @ [lo_byte (calculate_cksum [0x45, 0x00, 0x01, 0x02]),
     hi_byte (calculate_cksum [0x45, 0x00, 0x01, 0x02])]) = 0"
  using cksum_verifies[of "[0x45, 0x00, 0x01, 0x02]"] by simp

end
