(* ===== verification/Descriptor.thy ===== *)
theory Descriptor
  imports Error_Handler "HOL-Library.Multiset"
begin

text \<open>
  The descriptors that IPComm and File objects share through a reference count (Descriptor.h,
  Descriptor.cc), and the part of the system they live in. A pointer to a Descriptor is an address
  in a heap, and an access to a freed descriptor is undefined behaviour, None. The theory holds the
  store invariant (exact counts, no file descriptor lost), the laws of allocating and retaining, and
  the interface under which the owners' operations are proved once.
\<close>

section \<open>The store\<close>

definition DESCRIPTOR_NULL :: int where "DESCRIPTOR_NULL = - 1"

record descriptor =
  dfd :: int
  dfp :: "nat option"
  dcnt :: nat

text \<open>
  The heap of descriptors, the numbers passed to \<^verbatim>\<open>close(2)\<close> and the streams passed
  to \<^verbatim>\<open>fclose(3)\<close> in order, the kernel's O_NONBLOCK and FD_CLOEXEC bits per open
  descriptor, and the error object.
\<close>

record world =
  heap :: "nat \<Rightarrow> descriptor option"
  next_ref :: nat
  closed :: "int list"
  fclosed :: "nat list"
  k_nonblock :: "int \<Rightarrow> bool"
  k_cloexec :: "int \<Rightarrow> bool"
  w_err :: errh

definition start_world :: "errh \<Rightarrow> world" where
  "start_world e = \<lparr>heap = Map.empty, next_ref = 0, closed = [], fclosed = [], k_nonblock = \<lambda>_. False,
     k_cloexec = \<lambda>_. False, w_err = e\<rparr>"

text \<open>The constructor of Descriptor, and the increment of the copies.\<close>

definition new_descriptor :: "world \<Rightarrow> nat \<times> world" where
  "new_descriptor w = (next_ref w,
     w\<lparr>heap := (heap w)(next_ref w \<mapsto> \<lparr>dfd = DESCRIPTOR_NULL, dfp = None, dcnt = 1\<rparr>), next_ref := next_ref w + 1\<rparr>)"

definition retain :: "nat \<Rightarrow> world \<Rightarrow> world option" where
  "retain r w = (case heap w r of
      None \<Rightarrow> None
    | Some d \<Rightarrow> Some (w\<lparr>heap := (heap w)(r \<mapsto> d\<lparr>dcnt := dcnt d + 1\<rparr>)\<rparr>))"

text \<open>
  The decrement that the destructor, clear and the assignment of an owner share: with the last
  reference the owner's Close runs when the descriptor is open, and the descriptor is deleted. The
  count is unsigned; 0 has no predecessor here, as a counted descriptor has at least one owner.
\<close>

definition release_with :: "(world \<Rightarrow> world option) \<Rightarrow> nat \<Rightarrow> world \<Rightarrow> world option" where
  "release_with close_it r w = (case heap w r of
      None \<Rightarrow> None
    | Some d \<Rightarrow>
        if dcnt d = 0 then None
        else (let w1 = w\<lparr>heap := (heap w)(r \<mapsto> d\<lparr>dcnt := dcnt d - 1\<rparr>)\<rparr>
              in if dcnt d - 1 \<noteq> 0 then Some w1
                 else map_option (\<lambda>w2. w2\<lparr>heap := (heap w2)(r := None)\<rparr>) (close_it w1)))"

definition w_fail :: "int \<Rightarrow> string \<Rightarrow> world \<Rightarrow> world" where
  "w_fail r m w = w\<lparr>w_err := error_Init r (Some m) (w_err w)\<rparr>"

section \<open>Reference counting\<close>

text \<open>
  The store invariant: the references held by the live objects are a multiset; a descriptor is
  allocated exactly when it is referenced, and its count is the number of references. The file
  descriptors held are those of the allocated descriptors; with the closed ones they are all the
  kernel ever handed out.
\<close>

fun cell_ok :: "nat \<Rightarrow> descriptor option \<Rightarrow> bool" where
  "cell_ok n None = (n = 0)"
| "cell_ok n (Some d) = (dcnt d = n \<and> 0 < n \<and> DESCRIPTOR_NULL \<le> dfd d)"

definition store_inv :: "nat multiset \<Rightarrow> world \<Rightarrow> bool" where
  "store_inv R w \<longleftrightarrow> (\<forall>a. cell_ok (count R a) (heap w a)) \<and> (\<forall>a. next_ref w \<le> a \<longrightarrow> heap w a = None)"

fun cell_fd :: "descriptor option \<Rightarrow> int multiset" where
  "cell_fd None = {#}"
| "cell_fd (Some d) = (if dfd d = DESCRIPTOR_NULL then {#} else {#dfd d#})"

text \<open>
  What a world holds of some resource: what was given back to the system, and what the cells of the
  heap still have. File descriptors are one such resource; the files count their streams as well.
\<close>

definition total_of :: "(descriptor option \<Rightarrow> 'r multiset) \<Rightarrow> (world \<Rightarrow> 'r multiset) \<Rightarrow> world \<Rightarrow> 'r multiset" where
  "total_of cell given w = given w + (\<Sum>a < next_ref w. cell (heap w a))"

definition held :: "world \<Rightarrow> int multiset" where
  "held w = (\<Sum>a < next_ref w. cell_fd (heap w a))"

definition all_fds :: "world \<Rightarrow> int multiset" where
  "all_fds w = mset (closed w) + held w"

lemma all_fds_total: "all_fds = total_of cell_fd (\<lambda>w. mset (closed w))"
  by (simp add: fun_eq_iff all_fds_def held_def total_of_def)

text \<open>The invariant with a further condition on every allocated cell.\<close>

definition store_good :: "(descriptor \<Rightarrow> bool) \<Rightarrow> nat multiset \<Rightarrow> world \<Rightarrow> bool" where
  "store_good good R w \<longleftrightarrow> store_inv R w \<and> (\<forall>a d. heap w a = Some d \<longrightarrow> good d)"

lemma store_good_True: "store_good (\<lambda>_. True) = store_inv"
  by (simp add: fun_eq_iff store_good_def)

lemma sum_cell_update:
  fixes cell :: "'c \<Rightarrow> 'r multiset" and n :: nat
  assumes "r < n"
  shows "(\<Sum>a < n. cell ((h(r := x)) a)) + cell (h r) = (\<Sum>a < n. cell (h a)) + cell x"
proof -
  have s: "(\<Sum>a < n. f a) = f r + (\<Sum>a \<in> {..<n} - {r}. f a)" for f :: "nat \<Rightarrow> 'r multiset"
    using assms by (intro sum.remove) auto
  have "(\<Sum>a \<in> {..<n} - {r}. cell ((h(r := x)) a)) = (\<Sum>a \<in> {..<n} - {r}. cell (h a))"
    by (intro sum.cong) auto
  then show ?thesis by (simp add: s[of "\<lambda>a. cell (h a)"] s)
qed

lemma held_update:
  assumes "r < next_ref w"
  shows "held (w\<lparr>heap := (heap w)(r := x)\<rparr>) + cell_fd (heap w r) = held w + cell_fd x"
  using sum_cell_update[OF assms, of cell_fd "heap w" x] by (simp add: held_def)

lemma store_inv_mem: "store_inv R w \<Longrightarrow> r \<in># R \<Longrightarrow> \<exists>d. heap w r = Some d \<and> dcnt d = count R r
    \<and> 0 < dcnt d \<and> DESCRIPTOR_NULL \<le> dfd d \<and> r < next_ref w"
proof -
  assume i: "store_inv R w" and r: "r \<in># R"
  have c: "cell_ok (count R r) (heap w r)" using i by (simp add: store_inv_def)
  have "count R r \<noteq> 0" using r by simp
  with c obtain d where d: "heap w r = Some d" by (cases "heap w r") simp_all
  moreover have "r < next_ref w" using i d by (metis store_inv_def linorder_not_le option.distinct(1))
  ultimately show ?thesis using c by auto
qed

lemma store_inv_update:
  "store_inv R w \<Longrightarrow> r < next_ref w \<Longrightarrow> cell_ok (count R' r) x \<Longrightarrow> (\<And>a. a \<noteq> r \<Longrightarrow> count R' a = count R a)
    \<Longrightarrow> store_inv R' (w\<lparr>heap := (heap w)(r := x)\<rparr>)"
  by (auto simp: store_inv_def)

lemma store_inv_cong [simp]:
  "store_inv R (w\<lparr>closed := c\<rparr>) = store_inv R w" "store_inv R (w\<lparr>w_err := e\<rparr>) = store_inv R w"
  "store_inv R (w\<lparr>k_nonblock := kn\<rparr>) = store_inv R w" "store_inv R (w\<lparr>k_cloexec := kc\<rparr>) = store_inv R w"
  "store_inv R (w\<lparr>fclosed := fc\<rparr>) = store_inv R w"
  "held (w\<lparr>closed := c\<rparr>) = held w" "held (w\<lparr>w_err := e\<rparr>) = held w"
  "held (w\<lparr>k_nonblock := kn\<rparr>) = held w" "held (w\<lparr>k_cloexec := kc\<rparr>) = held w"
  by (simp_all add: store_inv_def held_def)

lemma store_inv_empty: "store_inv {#} w \<Longrightarrow> heap w = Map.empty"
proof
  fix a assume "store_inv {#} w"
  then have "cell_ok 0 (heap w a)" by (simp add: store_inv_def)
  then show "heap w a = None" by (cases "heap w a") simp_all
qed

text \<open>The references a list of live objects holds.\<close>

definition owners :: "('o \<Rightarrow> nat) \<Rightarrow> 'o list \<Rightarrow> nat multiset" where
  "owners ref xs = mset (map ref xs)"

lemma owners_nth: "i < length xs \<Longrightarrow> ref (xs ! i) \<in># owners ref xs"
  by (auto simp: owners_def)

lemma owners_snoc [simp]: "owners ref (xs @ [x]) = add_mset (ref x) (owners ref xs)"
  by (simp add: owners_def)

lemma owners_Cons [simp]: "owners ref (x # xs) = add_mset (ref x) (owners ref xs)" "owners ref [] = {#}"
  by (simp_all add: owners_def)

lemma owners_update: "i < length xs \<Longrightarrow> owners ref (xs[i := x]) = add_mset (ref x) (owners ref xs - {#ref (xs ! i)#})"
  by (simp add: owners_def map_update mset_update)

lemma owners_drop: "i < length xs \<Longrightarrow> owners ref (take i xs @ drop (Suc i) xs) = owners ref xs - {#ref (xs ! i)#}"
proof -
  assume i: "i < length xs"
  have "owners ref xs = owners ref (take i xs @ xs ! i # drop (Suc i) xs)" by (simp only: id_take_nth_drop[OF i, symmetric])
  then show ?thesis by (simp add: owners_def)
qed

lemma owners_two: "i < length xs \<Longrightarrow> j < length xs \<Longrightarrow> i \<noteq> j \<Longrightarrow> ref (xs ! j) \<in># owners ref xs - {#ref (xs ! i)#}"
proof -
  assume a: "i < length xs" "j < length xs" "i \<noteq> j"
  have "xs ! j \<in> set (take i xs @ drop (Suc i) xs)"
  proof (cases "j < i")
    case True then show ?thesis using a by (simp add: in_set_conv_nth) (metis nth_take)
  next
    case False
    then have "drop (Suc i) xs ! (j - Suc i) = xs ! j" "j - Suc i < length (drop (Suc i) xs)" using a by auto
    then show ?thesis by (metis Un_iff nth_mem set_append)
  qed
  then have "ref (xs ! j) \<in># owners ref (take i xs @ drop (Suc i) xs)" unfolding owners_def by (simp only: set_mset_mset set_map) blast
  then show ?thesis by (simp only: owners_drop[OF a(1)])
qed

section \<open>The store as a service\<close>

text \<open>
  The interface of the descriptor store towards the objects: allocate, retain and release, with
  what each does to the references and that none loses a resource. The objects' own operations are
  clients of it. An object that is released must be fit for it, ok.
\<close>

locale descriptor_store =
  fixes sinv :: "nat multiset \<Rightarrow> 'w \<Rightarrow> bool" and total :: "'w \<Rightarrow> 't"
    and alloc :: "'w \<Rightarrow> nat \<times> 'w" and ret :: "nat \<Rightarrow> 'w \<Rightarrow> 'w option" and rel :: "'o \<Rightarrow> 'w \<Rightarrow> 'w option"
    and ref_of :: "'o \<Rightarrow> nat" and ok :: "'o \<Rightarrow> bool"
  assumes alloc_law: "sinv R w \<Longrightarrow> alloc w = (r, w') \<Longrightarrow> r \<notin># R \<and> sinv (add_mset r R) w' \<and> total w' = total w"
    and ret_law: "sinv R w \<Longrightarrow> r \<in># R \<Longrightarrow> \<exists>w'. ret r w = Some w' \<and> sinv (add_mset r R) w' \<and> total w' = total w"
    and rel_law: "sinv R w \<Longrightarrow> ref_of x \<in># R \<Longrightarrow> ok x
       \<Longrightarrow> \<exists>w'. rel x w = Some w' \<and> sinv (R - {#ref_of x#}) w' \<and> total w' = total w"
begin

lemma swap_ok:
  assumes "sinv R w" "ref_of x \<in># R" "ok x" "s \<in># R - {#ref_of x#}"
  shows "\<exists>w1 w2. rel x w = Some w1 \<and> ret s w1 = Some w2 \<and> sinv (add_mset s (R - {#ref_of x#})) w2 \<and> total w2 = total w"
proof -
  obtain w1 where w1: "rel x w = Some w1" "sinv (R - {#ref_of x#}) w1" "total w1 = total w"
    using rel_law[OF assms(1-3)] by blast
  with ret_law[OF w1(2) assms(4)] show ?thesis by auto
qed

lemma renew_ok:
  assumes "sinv R w" "ref_of x \<in># R" "ok x"
  shows "\<exists>w1 r w2. rel x w = Some w1 \<and> alloc w1 = (r, w2) \<and> sinv (add_mset r (R - {#ref_of x#})) w2 \<and> total w2 = total w"
proof -
  obtain w1 where w1: "rel x w = Some w1" "sinv (R - {#ref_of x#}) w1" "total w1 = total w"
    using rel_law[OF assms] by blast
  with alloc_law[OF w1(2)] show ?thesis by (cases "alloc w1") auto
qed

end

text \<open>
  What releasing needs of the owner's Close: it gives what the cell has up to the system, and
  changes nothing else of the store.
\<close>

definition closes :: "(descriptor \<Rightarrow> bool) \<Rightarrow> (descriptor option \<Rightarrow> 'r multiset) \<Rightarrow> (world \<Rightarrow> 'r multiset)
    \<Rightarrow> (world \<Rightarrow> world option) \<Rightarrow> nat \<Rightarrow> bool" where
  "closes good cell given close_it r \<longleftrightarrow> (\<forall>w d. heap w r = Some d \<longrightarrow> r < next_ref w \<longrightarrow> DESCRIPTOR_NULL \<le> dfd d \<longrightarrow> good d \<longrightarrow>
     (\<exists>w2 d2. close_it w = Some w2 \<and> heap w2 = (heap w)(r \<mapsto> d2) \<and> cell (Some d2) = {#}
        \<and> next_ref w2 = next_ref w \<and> total_of cell given w2 = total_of cell given w))"

text \<open>
  A resource counted in the cells, for owners whose Close is close_of: the laws of the interface,
  proved once for the sockets and the files.
\<close>

locale counted_store =
  fixes good :: "descriptor \<Rightarrow> bool" and cell :: "descriptor option \<Rightarrow> 'r multiset" and given :: "world \<Rightarrow> 'r multiset"
    and close_of :: "'o \<Rightarrow> world \<Rightarrow> world option" and ref_of :: "'o \<Rightarrow> nat" and ok :: "'o \<Rightarrow> bool"
  assumes good_dcnt: "good (d\<lparr>dcnt := n\<rparr>) = good d" and cell_dcnt: "cell (Some (d\<lparr>dcnt := n\<rparr>)) = cell (Some d)"
    and cell_None: "cell None = {#}"
    and fresh_ok: "good \<lparr>dfd = DESCRIPTOR_NULL, dfp = None, dcnt = 1\<rparr>" "cell (Some \<lparr>dfd = DESCRIPTOR_NULL, dfp = None, dcnt = 1\<rparr>) = {#}"
    and given_frame: "given (w\<lparr>heap := h\<rparr>) = given w" "given (w\<lparr>next_ref := k\<rparr>) = given w"
    and close_law: "ok x \<Longrightarrow> closes good cell given (close_of x) (ref_of x)"
begin

lemma total_update:
  "r < next_ref w \<Longrightarrow> total_of cell given (w\<lparr>heap := (heap w)(r := x)\<rparr>) + cell (heap w r) = total_of cell given w + cell x"
  using sum_cell_update[of r "next_ref w" cell "heap w" x] by (simp add: total_of_def given_frame ac_simps)

lemma total_dcnt:
  assumes "heap w r = Some d" "r < next_ref w"
  shows "total_of cell given (w\<lparr>heap := (heap w)(r \<mapsto> d\<lparr>dcnt := n\<rparr>)\<rparr>) = total_of cell given w"
  using total_update[OF assms(2), of "Some (d\<lparr>dcnt := n\<rparr>)"] assms(1) by (simp add: cell_dcnt)

lemma new_descriptor_law:
  assumes "store_good good R w" "new_descriptor w = (r, w')"
  shows "r \<notin># R \<and> store_good good (add_mset r R) w' \<and> total_of cell given w' = total_of cell given w"
proof -
  have w': "r = next_ref w" "w' = w\<lparr>heap := (heap w)(r \<mapsto> \<lparr>dfd = DESCRIPTOR_NULL, dfp = None, dcnt = 1\<rparr>), next_ref := next_ref w + 1\<rparr>"
    using assms(2) by (auto simp: new_descriptor_def)
  have i: "store_inv R w" using assms(1) by (simp add: store_good_def)
  have n: "r \<notin># R" using store_inv_mem[OF i] w'(1) by blast
  have c0: "count R (next_ref w) = 0" using n w'(1) by (simp add: not_in_iff)
  have "total_of cell given w' = total_of cell given w" unfolding total_of_def w' by (simp add: given_frame fresh_ok[simplified])
  moreover have "store_inv (add_mset r R) w'" using i c0 unfolding w' store_inv_def by auto
  moreover have "good d" if "heap w' a = Some d" for a d
    using assms(1) that fresh_ok(1) by (auto simp: store_good_def w' split: if_splits)
  ultimately show ?thesis using n by (simp add: store_good_def)
qed

lemma retain_law:
  assumes "store_good good R w" "r \<in># R"
  shows "\<exists>w'. retain r w = Some w' \<and> store_good good (add_mset r R) w' \<and> total_of cell given w' = total_of cell given w"
proof -
  have i: "store_inv R w" using assms(1) by (simp add: store_good_def)
  obtain d where d: "heap w r = Some d" "dcnt d = count R r" "0 < dcnt d" "DESCRIPTOR_NULL \<le> dfd d" "r < next_ref w"
    using store_inv_mem[OF i assms(2)] by blast
  let ?w = "w\<lparr>heap := (heap w)(r \<mapsto> d\<lparr>dcnt := dcnt d + 1\<rparr>)\<rparr>"
  have "store_inv (add_mset r R) ?w" using i d by (intro store_inv_update) auto
  moreover have "\<forall>a x. heap ?w a = Some x \<longrightarrow> good x" using assms(1) d(1) by (auto simp: store_good_def good_dcnt)
  moreover have "total_of cell given ?w = total_of cell given w" using d(1,5) by (rule total_dcnt)
  ultimately show ?thesis using d(1) by (simp add: retain_def store_good_def)
qed

lemma release_law:
  assumes "store_good good R w" "ref_of x \<in># R" "ok x"
  shows "\<exists>w'. release_with (close_of x) (ref_of x) w = Some w' \<and> store_good good (R - {#ref_of x#}) w'
    \<and> total_of cell given w' = total_of cell given w"
proof -
  define r where "r = ref_of x"
  have i: "store_inv R w" "\<And>a d. heap w a = Some d \<Longrightarrow> good d" using assms(1) by (auto simp: store_good_def)
  obtain d where d: "heap w r = Some d" "dcnt d = count R r" "0 < dcnt d" "DESCRIPTOR_NULL \<le> dfd d" "r < next_ref w"
    using store_inv_mem[OF i(1) assms(2)] unfolding r_def by blast
  let ?T = "total_of cell given"
  define w1 where "w1 = w\<lparr>heap := (heap w)(r \<mapsto> d\<lparr>dcnt := dcnt d - 1\<rparr>)\<rparr>"
  have h1: "?T w1 = ?T w" using total_dcnt[OF d(1,5)] by (simp add: w1_def)
  have g1: "\<And>a y. heap w1 a = Some y \<Longrightarrow> good y" using i(2) d(1) by (auto simp: w1_def good_dcnt split: if_splits)
  show ?thesis
  proof (cases "dcnt d - 1 = 0")
    case False
    have "store_inv (R - {#r#}) w1" unfolding w1_def using i(1) d False by (intro store_inv_update) auto
    then have "store_good good (R - {#r#}) w1" using g1 by (simp add: store_good_def)
    then show ?thesis using d False h1 by (simp add: release_with_def w1_def r_def)
  next
    case True
    have e: "count (R - {#r#}) r = 0" using True d(2) by simp
    have "heap w1 r = Some (d\<lparr>dcnt := dcnt d - 1\<rparr>)" "r < next_ref w1" "DESCRIPTOR_NULL \<le> dfd (d\<lparr>dcnt := dcnt d - 1\<rparr>)"
      using d by (simp_all add: w1_def)
    with close_law[OF assms(3)] g1 obtain w2 d2 where 2: "close_of x w1 = Some w2" "heap w2 = (heap w1)(r \<mapsto> d2)"
        "cell (Some d2) = {#}" "next_ref w2 = next_ref w1" "?T w2 = ?T w1" unfolding closes_def r_def by blast
    let ?w3 = "w2\<lparr>heap := (heap w2)(r := None)\<rparr>"
    have n: "r < next_ref w2" "next_ref w2 = next_ref w" using d(5) 2(4) by (simp_all add: w1_def)
    have "?T ?w3 = ?T w" using total_update[OF n(1), of None] 2(2,3,5) h1 by (simp add: cell_None)
    moreover have h3: "heap ?w3 = (heap w)(r := None)" using 2(2) by (auto simp: w1_def)
    then have "store_inv (R - {#r#}) ?w3" using i(1) e n d(5) unfolding store_inv_def by (auto simp: not_in_iff)
    moreover have "\<forall>a y. heap ?w3 a = Some y \<longrightarrow> good y" using i(2) h3 by auto
    moreover have "release_with (close_of x) r w = Some ?w3"
      unfolding release_with_def Let_def d(1) option.case w1_def[symmetric] 2(1) using d(3) True by simp
    ultimately show ?thesis unfolding store_good_def r_def by blast
  qed
qed

end

sublocale counted_store \<subseteq> store: descriptor_store "store_good good" "total_of cell given" new_descriptor retain
  "\<lambda>x. release_with (close_of x) (ref_of x)" ref_of ok
  by unfold_locales (simp_all add: new_descriptor_law retain_law release_law)

definition example_world :: world where
  "example_world = start_world \<lparr>event_flag = False, realm = 0, sys_errno = 0, msgs = []\<rparr>"

end
