(* ===== verification/Ip_Comm.thy ===== *)
theory Ip_Comm
  imports Descriptor "HOL-Library.Word"
begin

text \<open>
  The base class of the network objects (IPComm.h, IPComm.cc): the object with its flags, address
  and DNS names, on top of the shared descriptor. System calls appear as the arguments that carry
  their results.
\<close>

section \<open>The object\<close>

definition AF_UNSPEC :: int where "AF_UNSPEC = 0"
definition AF_INET :: int where "AF_INET = 2"
definition AF_INET6 :: int where "AF_INET6 = 10"

text \<open>
  The union sockaddr_ of the two socket address structs: family and port are at the same place in
  both; the address is kept as bytes.
\<close>

record sock_addr =
  sa_family :: int
  sa_port :: "16 word"
  sa_addr :: "8 word list"

record ipcomm =
  blocking_flag :: bool
  open_on_exec :: bool
  address_family :: int
  sockaddr :: sock_addr
  dns_names :: "string list"
  dref :: nat

definition zero_sockaddr :: sock_addr where
  "zero_sockaddr = \<lparr>sa_family = 0, sa_port = 0, sa_addr = []\<rparr>"

definition IPComm :: "int \<Rightarrow> world \<Rightarrow> ipcomm \<times> world" where
  "IPComm family w = (let (d, w') = new_descriptor w in
     (\<lparr>blocking_flag = True, open_on_exec = True, address_family = family, sockaddr = zero_sockaddr,
       dns_names = [], dref = d\<rparr>, w'))"

definition IPComm_default :: "world \<Rightarrow> ipcomm \<times> world" where
  "IPComm_default w = IPComm AF_UNSPEC w"

text \<open>The flags that Socket will set on the descriptor, and the tests of the object.\<close>

definition set_blocking :: "ipcomm \<Rightarrow> ipcomm" where "set_blocking o1 = o1\<lparr>blocking_flag := True\<rparr>"
definition set_nonblocking :: "ipcomm \<Rightarrow> ipcomm" where "set_nonblocking o1 = o1\<lparr>blocking_flag := False\<rparr>"
definition set_open_on_exec :: "ipcomm \<Rightarrow> ipcomm" where "set_open_on_exec o1 = o1\<lparr>open_on_exec := True\<rparr>"
definition set_close_on_exec :: "ipcomm \<Rightarrow> ipcomm" where "set_close_on_exec o1 = o1\<lparr>open_on_exec := False\<rparr>"
definition IsBlocking :: "ipcomm \<Rightarrow> bool" where "IsBlocking o1 \<longleftrightarrow> blocking_flag o1"
definition IsOpenOnExec :: "ipcomm \<Rightarrow> bool" where "IsOpenOnExec o1 \<longleftrightarrow> open_on_exec o1"
definition IsHostResolved :: "ipcomm \<Rightarrow> bool" where "IsHostResolved o1 \<longleftrightarrow> length (dns_names o1) \<noteq> 0"

definition fd_of :: "ipcomm \<Rightarrow> world \<Rightarrow> int option" where
  "fd_of o1 w = map_option dfd (heap w (dref o1))"

definition set_fd :: "int \<Rightarrow> ipcomm \<Rightarrow> world \<Rightarrow> world option" where
  "set_fd fd o1 w = (case heap w (dref o1) of
      None \<Rightarrow> None
    | Some d \<Rightarrow> Some (w\<lparr>heap := (heap w)(dref o1 \<mapsto> d\<lparr>dfd := fd\<rparr>)\<rparr>))"

text \<open>Close: whatever \<^verbatim>\<open>close(2)\<close> returns is only logged.\<close>

definition ip_Close :: "ipcomm \<Rightarrow> world \<Rightarrow> world option" where
  "ip_Close o1 w = (case heap w (dref o1) of
      None \<Rightarrow> None
    | Some d \<Rightarrow>
        if dfd d > DESCRIPTOR_NULL
        then Some (w\<lparr>closed := closed w @ [dfd d], heap := (heap w)(dref o1 \<mapsto> d\<lparr>dfd := DESCRIPTOR_NULL\<rparr>)\<rparr>)
        else Some w)"

text \<open>Giving up a reference: the descriptor is closed when it is open.\<close>

definition release :: "ipcomm \<Rightarrow> world \<Rightarrow> world option" where
  "release o1 = release_with (\<lambda>w. case heap w (dref o1) of
      None \<Rightarrow> None
    | Some d \<Rightarrow> if dfd d \<noteq> DESCRIPTOR_NULL then ip_Close o1 w else Some w) (dref o1)"

definition ip_destroy :: "ipcomm \<Rightarrow> world \<Rightarrow> world option" where
  "ip_destroy o1 w = release o1 w"

definition ip_copy :: "ipcomm \<Rightarrow> world \<Rightarrow> (ipcomm \<times> world) option" where
  "ip_copy src w = map_option (\<lambda>w'. (src, w')) (retain (dref src) w)"

definition ip_assign :: "ipcomm \<Rightarrow> ipcomm \<Rightarrow> world \<Rightarrow> (ipcomm \<times> world) option" where
  "ip_assign o1 src w = (case release o1 w of
      None \<Rightarrow> None
    | Some w1 \<Rightarrow> map_option (\<lambda>w2. (src, w2)) (retain (dref src) w1))"

definition ip_clear :: "ipcomm \<Rightarrow> world \<Rightarrow> (ipcomm \<times> world) option" where
  "ip_clear o1 w = (case release o1 w of
      None \<Rightarrow> None
    | Some w1 \<Rightarrow> (let (d, w2) = new_descriptor w1 in
        Some (o1\<lparr>blocking_flag := True, open_on_exec := True, address_family := AF_UNSPEC,
          dns_names := [], sockaddr := zero_sockaddr, dref := d\<rparr>, w2)))"

definition ip_Clone :: "ipcomm \<Rightarrow> ipcomm \<Rightarrow> world \<Rightarrow> (ipcomm \<times> world) option" where
  "ip_Clone o1 src w = ip_assign o1 src w"

definition ip_IsConnected :: "ipcomm \<Rightarrow> world \<Rightarrow> bool option" where
  "ip_IsConnected o1 w = map_option (\<lambda>fd. fd \<noteq> DESCRIPTOR_NULL) (fd_of o1 w)"

section \<open>Flags and addresses\<close>

abbreviation ip_fail :: "int \<Rightarrow> string \<Rightarrow> world \<Rightarrow> world" where
  "ip_fail \<equiv> w_fail"

definition convert_hostname :: "world \<Rightarrow> world" where
  "convert_hostname w = ip_fail EX_SOFTWARE ''IPCommm::convert_hostname(): TOOD(aka) not implemented yet'' w"

definition ip_port :: "ipcomm \<Rightarrow> 16 word" where
  "ip_port o1 = (if address_family o1 = AF_INET \<or> address_family o1 = AF_INET6 then sa_port (sockaddr o1) else 0)"

definition set_address_family :: "int \<Rightarrow> ipcomm \<Rightarrow> ipcomm" where
  "set_address_family f o1 = (let o2 = o1\<lparr>address_family := f\<rparr>
     in if f = AF_INET \<or> f = AF_INET6 then o2\<lparr>sockaddr := (sockaddr o2)\<lparr>sa_family := f\<rparr>\<rparr> else o2)"

definition ip_set_port :: "16 word \<Rightarrow> ipcomm \<times> world \<Rightarrow> ipcomm \<times> world" where
  "ip_set_port p ow = (let o1 = fst ow; w = snd ow in
     if address_family o1 = AF_UNSPEC
     then (o1, ip_fail EX_SOFTWARE ''IPComm::set_port(): address_family is AF_UNSPEC'' w)
     else if address_family o1 = AF_INET \<or> address_family o1 = AF_INET6
     then (o1\<lparr>sockaddr := (sockaddr o1)\<lparr>sa_port := p\<rparr>\<rparr>, w) else (o1, w))"

text \<open>
  set_socket_blocking and set_socket_nonblocking. The results of the two
  \<^verbatim>\<open>fcntl(2)\<close> calls are arguments: None for success, the error text otherwise. The
  blocking one tests the bit the same way as the other.
\<close>

definition set_socket_blocking :: "string option \<Rightarrow> string option \<Rightarrow> ipcomm \<times> world \<Rightarrow> (ipcomm \<times> world) option" where
  "set_socket_blocking getfl setfl ow = (let o1 = fst ow; w = snd ow in
     case fd_of o1 w of
       None \<Rightarrow> None
     | Some fd \<Rightarrow>
         if fd = DESCRIPTOR_NULL
         then Some (o1, ip_fail EX_SOFTWARE ''IPComm::set_socket_blocking(): descriptor is NULL'' w)
         else (case getfl of
             Some e \<Rightarrow> Some (o1, ip_fail EX_IOERR (''IPComm::set_socket_blocking(): fcntl(F_GETFL): '' @ e) w)
           | None \<Rightarrow>
               (let result = k_nonblock w fd
                in if \<not> result
                   then (case setfl of
                       Some e \<Rightarrow> Some (o1, ip_fail EX_IOERR (''IPComm::set_socket_blocking(): fcntl(F_SETFL): '' @ e) w)
                     | None \<Rightarrow> Some (o1\<lparr>blocking_flag := True\<rparr>, w\<lparr>k_nonblock := (k_nonblock w)(fd := False)\<rparr>))
                   else Some (o1\<lparr>blocking_flag := True\<rparr>, w))))"

definition set_socket_nonblocking :: "string option \<Rightarrow> string option \<Rightarrow> ipcomm \<times> world \<Rightarrow> (ipcomm \<times> world) option" where
  "set_socket_nonblocking getfl setfl ow = (let o1 = fst ow; w = snd ow in
     case fd_of o1 w of
       None \<Rightarrow> None
     | Some fd \<Rightarrow>
         if fd = DESCRIPTOR_NULL
         then Some (o1, ip_fail EX_SOFTWARE ''IPComm::set_socket_nonblocking(): descriptor is NULL'' w)
         else (case getfl of
             Some e \<Rightarrow> Some (o1, ip_fail EX_IOERR (''IPComm::set_socket_nonblocking(): fcntl(F_GETFL): '' @ e) w)
           | None \<Rightarrow>
               (let result = k_nonblock w fd
                in if \<not> result
                   then (case setfl of
                       Some e \<Rightarrow> Some (o1, ip_fail EX_IOERR (''IPComm::set_socket_nonblocking(): fcntl(F_SETFL): '' @ e) w)
                     | None \<Rightarrow> Some (o1\<lparr>blocking_flag := False\<rparr>, w\<lparr>k_nonblock := (k_nonblock w)(fd := True)\<rparr>))
                   else Some (o1\<lparr>blocking_flag := False\<rparr>, w))))"

definition set_socket_on_exec :: "bool \<Rightarrow> string option \<Rightarrow> ipcomm \<times> world \<Rightarrow> (ipcomm \<times> world) option" where
  "set_socket_on_exec opn setfd ow = (let o1 = fst ow; w = snd ow;
       fn = (if opn then ''IPComm::set_socket_open_on_exec(): '' else ''IPComm::set_socket_close_on_exec(): '') in
     case fd_of o1 w of
       None \<Rightarrow> None
     | Some fd \<Rightarrow>
         if fd = DESCRIPTOR_NULL then Some (o1, ip_fail EX_SOFTWARE (fn @ ''descriptor is NULL'') w)
         else (case setfd of
             Some e \<Rightarrow> Some (o1, ip_fail EX_IOERR
               (fn @ ''fcntl('' @ show_int fd @ (if opn then '', F_SETFD, 0): '' else '', F_SETFD, 1): '') @ e) w)
           | None \<Rightarrow> Some (o1\<lparr>open_on_exec := opn\<rparr>, w\<lparr>k_cloexec := (k_cloexec w)(fd := \<not> opn)\<rparr>)))"

text \<open>
  Socket: the new descriptor number, or the error text of \<^verbatim>\<open>socket(2)\<close>; the fcntl
  results as above.
\<close>

definition ip_Socket :: "int \<times> int \<times> int \<Rightarrow> string + int \<Rightarrow> string option \<Rightarrow> string option \<Rightarrow> string option
    \<Rightarrow> ipcomm \<times> world \<Rightarrow> (ipcomm \<times> world) option" where
  "ip_Socket args res getfl setfl setfd ow =
     (case set_fd (case res of Inl _ \<Rightarrow> - 1 | Inr fd \<Rightarrow> fd) (fst ow) (snd ow) of
        None \<Rightarrow> None
      | Some w \<Rightarrow>
          (case res of
             Inl e \<Rightarrow> (case args of (d, t, p) \<Rightarrow> Some (fst ow, ip_fail EX_IOERR
               (''IPComm::Socket(): socket('' @ show_int d @ '', '' @ show_int t @ '', '' @ show_int p @ ''): '' @ e) w))
           | Inr fd \<Rightarrow>
               (case (if blocking_flag (fst ow) then set_socket_blocking getfl setfl (fst ow, w)
                      else set_socket_nonblocking getfl setfl (fst ow, w)) of
                  None \<Rightarrow> None
                | Some ow2 \<Rightarrow> set_socket_on_exec (open_on_exec (fst ow2)) setfd ow2)))"

text \<open>
  ResolveDNSName: the results of the successive \<^verbatim>\<open>getnameinfo(3)\<close> calls are a list of
  return codes with the name or the error text; None when the list ends before the loop does.
\<close>

definition EAI_AGAIN :: int where "EAI_AGAIN = - 3"
definition NI_MAXHOST :: nat where "NI_MAXHOST = 1025"

fun resolve_loop :: "int \<Rightarrow> (int \<times> string) list \<Rightarrow> (int \<times> string) option" where
  "resolve_loop retry [] = None"
| "resolve_loop retry ((ecode, s) # rs) =
     (if ecode = 0 then Some (ecode, s)
      else if retry - 1 = 0 \<or> ecode \<noteq> EAI_AGAIN then Some (ecode, s)
      else resolve_loop (retry - 1) rs)"

definition ResolveDNSName :: "int \<Rightarrow> (int \<times> string) list \<Rightarrow> ipcomm \<times> world \<Rightarrow> (ipcomm \<times> world) option" where
  "ResolveDNSName retry rs ow = (let o1 = fst ow; w = snd ow in
     if address_family o1 = AF_UNSPEC
     then Some (o1, ip_fail EX_SOFTWARE ''IPComm::ResolveDNSName(): address_family is AF_UNSPEC'' w)
     else if address_family o1 \<noteq> AF_INET \<and> address_family o1 \<noteq> AF_INET6
     then Some (o1, ip_fail EX_SOFTWARE
       (''IPComm::ResolveDNSName(): unknown address_family: '' @ show_int (address_family o1) @ ''.'') w)
     else (case resolve_loop retry rs of
         None \<Rightarrow> None
       | Some (ecode, s) \<Rightarrow>
           if ecode \<noteq> 0
           then Some (o1\<lparr>dns_names := []\<rparr>, ip_fail EX_OSERR (''IPComm::ResolveDNSName(): '' @ s) w)
           else Some (o1\<lparr>dns_names := dns_names o1 @ [zfill (NI_MAXHOST + 1) s]\<rparr>, w)))"

definition InitServer :: "int \<Rightarrow> ipcomm \<times> world \<Rightarrow> ipcomm \<times> world" where
  "InitServer f ow = (let o1 = set_address_family f (fst ow) in
     if f = AF_INET then (o1\<lparr>sockaddr := (sockaddr o1)\<lparr>sa_addr := replicate 4 0\<rparr>\<rparr>, snd ow)
     else if f = AF_INET6 then (o1\<lparr>sockaddr := (sockaddr o1)\<lparr>sa_addr := replicate 16 0\<rparr>\<rparr>, snd ow)
     else (o1, ip_fail EX_SOFTWARE (''IPComm::InitServer(): unknown address family: '' @ show_int f) (snd ow)))"

text \<open>
  The send loop of Sendto. Each result of \<^verbatim>\<open>sendto(2)\<close> is the number of bytes taken or
  an error (its errno and text); every call passes len, so the bytes it may read are
  \<^verbatim>\<open>buf + offset .. buf + offset + len\<close>. None for a read past the buffer, and when the
  list of results ends first.
\<close>

definition EAGAIN :: int where "EAGAIN = 11"

fun sendto_loop :: "bool \<Rightarrow> nat \<Rightarrow> nat \<Rightarrow> int \<Rightarrow> nat \<Rightarrow> ((int \<times> string) + nat) list \<Rightarrow> (int + string) option" where
  "sendto_loop blocking mem_len len left offset [] = None"
| "sendto_loop blocking mem_len len left offset (r # rs) =
     (if offset + len > mem_len then None
      else (case r of
          Inl (e, s) \<Rightarrow> if \<not> blocking \<and> e = EAGAIN then Some (Inl (int len - left)) else Some (Inr s)
        | Inr n \<Rightarrow> if left - int n \<le> 0 then Some (Inl (int len - (left - int n)))
                  else sendto_loop blocking mem_len len (left - int n) (offset + n) rs))"

section \<open>Names and printing\<close>

text \<open>
  The text of an address is what \<^verbatim>\<open>inet_ntop(3)\<close> writes, a parameter (None for its NULL);
  the strings are zero-filled buffers, as in the source.
\<close>

definition IP_SCRATCH :: nat where "IP_SCRATCH = 1024"

definition ip_address :: "(sock_addr \<Rightarrow> string option) \<Rightarrow> ipcomm \<Rightarrow> string" where
  "ip_address ntop o1 =
     (if address_family o1 = AF_INET \<or> address_family o1 = AF_INET6
      then (case ntop (sockaddr o1) of None \<Rightarrow> ''NULL'' | Some s \<Rightarrow> zfill 1024 s)
      else ''NULL'')"

definition hostname :: "(sock_addr \<Rightarrow> string option) \<Rightarrow> ipcomm \<Rightarrow> string" where
  "hostname ntop o1 = (case dns_names o1 of [] \<Rightarrow> ip_address ntop o1 | d # _ \<Rightarrow> c_str d)"

definition ip_print :: "(sock_addr \<Rightarrow> string option) \<Rightarrow> ipcomm \<Rightarrow> world \<Rightarrow> string option" where
  "ip_print ntop o1 w = map_option
     (\<lambda>fd. zfill IP_SCRATCH (sn_print IP_SCRATCH [c_str (hostname ntop o1) @ '':'' @ show_int fd])) (fd_of o1 w)"

definition ip_equal :: "(sock_addr \<Rightarrow> string option) \<Rightarrow> ipcomm \<Rightarrow> ipcomm \<Rightarrow> world \<Rightarrow> bool option" where
  "ip_equal ntop o1 o2 w = (case (ip_print ntop o1 w, ip_print ntop o2 w) of
      (Some a, Some b) \<Rightarrow> Some (c_str (take (length a) a) = c_str (take (length a) b))
    | _ \<Rightarrow> None)"

section \<open>Initialisation from the resolver\<close>

text \<open>
  Init. getaddrinfo is a parameter: for the family in the hints, the successive results of
  \<^verbatim>\<open>getaddrinfo(3)\<close>, each a return code, the text of the error and the addresses; names are
  those of \<^verbatim>\<open>getnameinfo(3)\<close>, as for ResolveDNSName. The decrement of the retry
  counter below INT_MIN is out of reach of a list of results of that length.
\<close>

record addrinfo =
  ai_family :: int
  ai_addrlen :: nat
  ai_addr :: sock_addr

definition PF_UNSPEC :: int where "PF_UNSPEC = 0"
definition SOCKADDR_IN_SIZE :: nat where "SOCKADDR_IN_SIZE = 16"
definition SOCKADDR_IN6_SIZE :: nat where "SOCKADDR_IN6_SIZE = 28"

fun gai_loop :: "int \<Rightarrow> (int \<times> string \<times> addrinfo list) list \<Rightarrow> (int \<times> int \<times> string \<times> addrinfo list) option" where
  "gai_loop retry [] = None"
| "gai_loop retry ((ecode, s, as) # rs) =
     (if ecode = 0 then Some (retry, ecode, s, as)
      else if retry - 1 = 0 \<or> ecode \<noteq> EAI_AGAIN then Some (retry - 1, ecode, s, as)
      else gai_loop (retry - 1) rs)"

definition hints_family :: "int \<Rightarrow> int" where
  "hints_family family = (if family \<noteq> AF_UNSPEC then PF_UNSPEC else family)"

text \<open>The first address of the list, when there is one; True to go on, False for an error return.\<close>

definition take_address :: "addrinfo list \<Rightarrow> ipcomm \<times> world \<Rightarrow> bool \<times> ipcomm \<times> world" where
  "take_address as ow = (case as of
      [] \<Rightarrow> (True, ow)
    | a # _ \<Rightarrow>
        (let o1 = set_address_family (ai_family a) (fst ow);
             size = (if ai_family a = AF_INET then SOCKADDR_IN_SIZE else SOCKADDR_IN6_SIZE)
         in if ai_family a = AF_INET \<or> ai_family a = AF_INET6
            then if ai_addrlen a \<noteq> size
                 then (False, o1, ip_fail EX_SOFTWARE (''IPComm::Init(): ai_addrlen: '' @ show_nat (ai_addrlen a)
                        @ '', does not match struct size: '' @ show_nat size) (snd ow))
                 else (True, o1\<lparr>sockaddr := ai_addr a\<rparr>, snd ow)
            else (False, o1, ip_fail EX_SOFTWARE
                   (''IPComm::Init(): unknown address family: '' @ show_int (ai_family a)) (snd ow))))"

definition ip_Init :: "(int \<Rightarrow> (int \<times> string \<times> addrinfo list) list) \<Rightarrow> (int \<times> string) list \<Rightarrow> int \<Rightarrow> int
    \<Rightarrow> ipcomm \<times> world \<Rightarrow> (ipcomm \<times> world) option" where
  "ip_Init getaddrinfo names family retry_cnt ow =
     (case gai_loop retry_cnt (getaddrinfo (hints_family family)) of
        None \<Rightarrow> None
      | Some (retry, ecode, s, as) \<Rightarrow>
          if ecode \<noteq> 0 then Some (fst ow, ip_fail EX_OSERR (''IPComm::Init(): '' @ s) (snd ow))
          else (case take_address as ow of
              (False, ow') \<Rightarrow> Some ow'
            | (True, ow') \<Rightarrow> ResolveDNSName retry names ow'))"

section \<open>Socket options and datagrams\<close>

text \<open>
  The socket calls. A result of a system call is None for success or the error text; for a transfer
  it is an error (errno and text) or the number of bytes. What Getsockopt returns is computed from
  the pointer to the option, not from the option.
\<close>

definition ip_Getsockopt :: "int \<Rightarrow> int \<Rightarrow> 64 word \<Rightarrow> int \<Rightarrow> string option \<Rightarrow> ipcomm \<times> world
    \<Rightarrow> (int \<times> ipcomm \<times> world) option" where
  "ip_Getsockopt level option_name option_value option_len res ow = (let o1 = fst ow; w = snd ow in
     if address_family o1 = AF_UNSPEC
     then Some (- 1, o1, ip_fail EX_SOFTWARE ''IPComm::Getsockopt(): address_family is AF_UNSPEC'' w)
     else (case fd_of o1 w of
         None \<Rightarrow> None
       | Some fd \<Rightarrow>
           if fd = DESCRIPTOR_NULL
           then Some (- 1, o1, ip_fail EX_SOFTWARE ''IPComm::Getsockopt(): descriptor is NULL'' w)
           else (case res of
               Some e \<Rightarrow> Some (- 1, o1, ip_fail EX_IOERR
                 (''IPComm::Getsockopt(): getsockopt('' @ show_int fd @ '', '' @ show_int level @ '', ''
                  @ show_int option_name @ '', void*, '' @ show_int option_len @ '') failed: '' @ e) w)
             | None \<Rightarrow> Some (sint (ucast option_value :: 32 word), o1, w))))"

definition ip_Setsockopt :: "int \<Rightarrow> int \<Rightarrow> string option \<Rightarrow> ipcomm \<times> world \<Rightarrow> (ipcomm \<times> world) option" where
  "ip_Setsockopt level option_name res ow = (let o1 = fst ow; w = snd ow in
     if address_family o1 = AF_UNSPEC
     then Some (o1, ip_fail EX_SOFTWARE ''IPComm::Setsockopt(): address_family is AF_UNSPEC'' w)
     else (case fd_of o1 w of
         None \<Rightarrow> None
       | Some fd \<Rightarrow>
           if fd = DESCRIPTOR_NULL
           then Some (o1, ip_fail EX_SOFTWARE ''IPComm::Setsockopt(): descriptor is NULL'' w)
           else (case res of
               Some e \<Rightarrow> Some (o1, ip_fail EX_IOERR
                 (''IPComm::Setsockopt(): setsockopt('' @ show_int fd @ '', '' @ show_int level @ '', ''
                  @ show_int option_name @ '', option_value, '' @ show_int 4 @ '') failed: '' @ e) w)
             | None \<Rightarrow> Some (o1, w))))"

type_synonym io_result = "(int \<times> string) + nat"

text \<open>
  The tail that Recvfrom and Recvmsg share: -1 without an error when the socket is not ready, 0 with
  an error otherwise.
\<close>

definition received :: "string \<Rightarrow> io_result \<Rightarrow> ipcomm \<times> world \<Rightarrow> (int \<times> ipcomm \<times> world) option" where
  "received fn res ow = (case fd_of (fst ow) (snd ow) of
      None \<Rightarrow> None
    | Some fd \<Rightarrow>
        (case res of
           Inl (e, s) \<Rightarrow>
             if \<not> blocking_flag (fst ow) \<and> e = EAGAIN then Some (- 1, ow)
             else Some (0, fst ow, ip_fail EX_IOERR (fn @ ''rcvfrom(fd: '' @ show_int fd @ '') failed: '' @ s) (snd ow))
         | Inr n \<Rightarrow> Some (int n, ow)))"

definition ip_Recvfrom :: "io_result \<Rightarrow> ipcomm \<times> world \<Rightarrow> (int \<times> ipcomm \<times> world) option" where
  "ip_Recvfrom res ow = received ''IPComm::Recvfrom(): '' res ow"

definition ip_Recvmsg :: "io_result \<Rightarrow> ipcomm \<times> world \<Rightarrow> (int \<times> ipcomm \<times> world) option" where
  "ip_Recvmsg res ow = received ''IPComm::Recvmsg(): '' res ow"

text \<open>The tail of Sendto and Sendmsg: a count, or a genuine error.\<close>

definition sent :: "string \<Rightarrow> (int + string) option \<Rightarrow> ipcomm \<times> world \<Rightarrow> (int \<times> ipcomm \<times> world) option" where
  "sent fn r ow = (case (fd_of (fst ow) (snd ow), r) of
      (Some fd, Some (Inl n)) \<Rightarrow> Some (n, ow)
    | (Some fd, Some (Inr s)) \<Rightarrow>
        Some (0, fst ow, ip_fail EX_IOERR (fn @ ''write(fd: '' @ show_int fd @ '') failed: '' @ s) (snd ow))
    | _ \<Rightarrow> None)"

definition ip_Sendto :: "nat \<Rightarrow> nat \<Rightarrow> bool \<Rightarrow> io_result list \<Rightarrow> ipcomm \<times> world
    \<Rightarrow> (int \<times> ipcomm \<times> world) option" where
  "ip_Sendto mem_len len new_peer rs ow = (let o1 = fst ow; w = snd ow in
     if \<not> new_peer \<and> address_family o1 = AF_UNSPEC
     then Some (0, o1, ip_fail EX_SOFTWARE ''IPComm::Sendto(): address_family is AF_UNSPEC'' w)
     else if \<not> new_peer \<and> address_family o1 \<noteq> AF_INET \<and> address_family o1 \<noteq> AF_INET6
     then Some (0, o1, ip_fail EX_SOFTWARE
            (''IPComm::Sendto(): unknown address_family: '' @ show_int (address_family o1) @ ''.'') w)
     else sent ''IPComm::Sendto(): '' (sendto_loop (blocking_flag o1) mem_len len (int len) 0 rs) ow)"

text \<open>The loop of Sendmsg starts with bytes_left = 0, so the first success ends it.\<close>

fun sendmsg_loop :: "bool \<Rightarrow> int \<Rightarrow> io_result list \<Rightarrow> (int + string) option" where
  "sendmsg_loop blocking left [] = None"
| "sendmsg_loop blocking left (r # rs) = (case r of
      Inl (e, s) \<Rightarrow> if \<not> blocking \<and> e = EAGAIN then Some (Inl (0 - left)) else Some (Inr s)
    | Inr n \<Rightarrow> if left - int n \<le> 0 then Some (Inl (0 - (left - int n)))
              else sendmsg_loop blocking (left - int n) rs)"

definition ip_Sendmsg :: "io_result list \<Rightarrow> ipcomm \<times> world \<Rightarrow> (int \<times> ipcomm \<times> world) option" where
  "ip_Sendmsg rs ow = sent ''IPComm::Sendmsg(): '' (sendmsg_loop (blocking_flag (fst ow)) 0 rs) ow"

section \<open>The descriptor store, for these objects\<close>

lemma Close_law:
  assumes "store_inv R w" "dref o1 \<in># R"
  shows "\<exists>w'. ip_Close o1 w = Some w' \<and> store_inv R w' \<and> all_fds w' = all_fds w \<and> fd_of o1 w' = Some DESCRIPTOR_NULL"
proof -
  obtain d where d: "heap w (dref o1) = Some d" "dcnt d = count R (dref o1)" "0 < dcnt d"
      "DESCRIPTOR_NULL \<le> dfd d" "dref o1 < next_ref w"
    using store_inv_mem[OF assms] by blast
  show ?thesis
  proof (cases "dfd d > DESCRIPTOR_NULL")
    case True
    let ?x = "Some (d\<lparr>dfd := DESCRIPTOR_NULL\<rparr>)"
    let ?w = "w\<lparr>heap := (heap w)(dref o1 := ?x)\<rparr>"
    have "store_inv R ?w" using assms(1) d by (intro store_inv_update) auto
    moreover have "held w = add_mset (dfd d) (held ?w)" using held_update[OF d(5), of ?x] d(1) True by simp
    ultimately have "store_inv R (?w\<lparr>closed := closed w @ [dfd d]\<rparr>)" "all_fds (?w\<lparr>closed := closed w @ [dfd d]\<rparr>) = all_fds w"
      by (simp_all only: store_inv_cong all_fds_def) simp_all
    moreover have "ip_Close o1 w = Some (?w\<lparr>closed := closed w @ [dfd d]\<rparr>)" using d(1) True by (simp add: ip_Close_def)
    moreover have "fd_of o1 (?w\<lparr>closed := closed w @ [dfd d]\<rparr>) = Some DESCRIPTOR_NULL" by (simp add: fd_of_def)
    ultimately show ?thesis by blast
  next
    case False
    then show ?thesis using d assms(1) by (simp add: ip_Close_def fd_of_def)
  qed
qed

lemma Close_closes:
  "closes (\<lambda>_. True) cell_fd (\<lambda>w. mset (closed w)) (\<lambda>w. case heap w (dref o1) of
      None \<Rightarrow> None
    | Some d \<Rightarrow> if dfd d \<noteq> DESCRIPTOR_NULL then ip_Close o1 w else Some w) (dref o1)"
  unfolding closes_def all_fds_total[symmetric]
proof (intro allI impI)
  fix w :: world and d assume a: "heap w (dref o1) = Some d" "dref o1 < next_ref w" "DESCRIPTOR_NULL \<le> dfd d"
  let ?c = "case heap w (dref o1) of None \<Rightarrow> None | Some d \<Rightarrow> if dfd d \<noteq> DESCRIPTOR_NULL then ip_Close o1 w else Some w"
  show "\<exists>w2 d2. ?c = Some w2 \<and> heap w2 = (heap w)(dref o1 \<mapsto> d2) \<and> cell_fd (Some d2) = {#}
        \<and> next_ref w2 = next_ref w \<and> all_fds w2 = all_fds w"
  proof (cases "dfd d = DESCRIPTOR_NULL")
    case True
    then show ?thesis using a(1) by (intro exI[of _ w] exI[of _ d]) auto
  next
    case False
    let ?d2 = "d\<lparr>dfd := DESCRIPTOR_NULL\<rparr>"
    let ?w2 = "w\<lparr>closed := closed w @ [dfd d], heap := (heap w)(dref o1 \<mapsto> ?d2)\<rparr>"
    have "held (w\<lparr>heap := (heap w)(dref o1 \<mapsto> ?d2)\<rparr>) + {#dfd d#} = held w"
      using held_update[OF a(2), of "Some ?d2"] a(1) False by simp
    then have "all_fds ?w2 = all_fds w" by (simp add: all_fds_def held_def)
    moreover have "?c = Some ?w2" using a False by (simp add: ip_Close_def)
    ultimately show ?thesis by (intro exI[of _ ?w2] exI[of _ ?d2]) simp
  qed
qed

interpretation conn_store: counted_store "\<lambda>_. True" cell_fd "\<lambda>w. mset (closed w)"
  "\<lambda>o1 w. case heap w (dref o1) of
      None \<Rightarrow> None
    | Some d \<Rightarrow> if dfd d \<noteq> DESCRIPTOR_NULL then ip_Close o1 w else Some w" dref "\<lambda>_. True"
  by unfold_locales (simp_all add: Close_closes)

interpretation ds: descriptor_store store_inv all_fds new_descriptor retain release dref "\<lambda>_. True"
  by unfold_locales
     (simp_all add: conn_store.store.alloc_law[unfolded store_good_True all_fds_total[symmetric]]
        conn_store.store.ret_law[unfolded store_good_True all_fds_total[symmetric]]
        conn_store.store.rel_law[unfolded store_good_True all_fds_total[symmetric] release_def[symmetric]])

lemmas ip_op_defs = IPComm_def new_descriptor_def ip_Socket_def set_fd_def set_socket_blocking_def
  set_socket_nonblocking_def set_socket_on_exec_def fd_of_def ip_copy_def retain_def ip_destroy_def release_def release_with_def example_world_def start_world_def
  ip_Close_def ip_assign_def ip_clear_def DESCRIPTOR_NULL_def

section \<open>The flags and the resolver\<close>

text \<open>
  set_socket_blocking never makes a socket blocking: whenever fcntl succeeds and O_NONBLOCK is
  set on the open descriptor, the call reports no error, marks the object as blocking and leaves the
  bit set (it clears the bit only when it is not set).
\<close>

theorem blocking_leaves_nonblock:
  assumes "fd_of o1 w = Some fd" "fd \<noteq> DESCRIPTOR_NULL" "k_nonblock w fd"
  shows "set_socket_blocking None setfl (o1, w) = Some (o1\<lparr>blocking_flag := True\<rparr>, w)"
  using assms by (simp add: set_socket_blocking_def)

theorem blocking_leaves_nonblock_witness:
  "\<exists>o1 w. IPComm AF_INET example_world = (o1, w) \<and>
    (\<exists>w'. set_fd 7 o1 (w\<lparr>k_nonblock := \<lambda>_. True\<rparr>) = Some w' \<and> set_socket_blocking None None (o1, w') = Some (o1, w') \<and> k_nonblock w' 7)"
proof -
  obtain o1 w where i: "IPComm AF_INET example_world = (o1, w)" by (cases "IPComm AF_INET example_world")
  obtain w' where w': "set_fd 7 o1 (w\<lparr>k_nonblock := \<lambda>_. True\<rparr>) = Some w'" "fd_of o1 w' = Some 7" "k_nonblock w' 7"
      "o1\<lparr>blocking_flag := True\<rparr> = o1"
    using i by (auto simp: ip_op_defs)
  have "set_socket_blocking None None (o1, w') = Some (o1, w')"
    using blocking_leaves_nonblock[OF w'(2) _ w'(3), of None] w'(4) by (simp add: DESCRIPTOR_NULL_def)
  with i w' show ?thesis by blast
qed

text \<open>
  Init ignores the address family it is asked for: the hints always leave it open, so two calls
  that differ only in the family resolve to the same address and give the same object and errors.
\<close>

theorem Init_ignores_family:
  "ip_Init getaddrinfo names family retry_cnt ow = ip_Init getaddrinfo names family' retry_cnt ow"
  by (simp add: ip_Init_def hints_family_def PF_UNSPEC_def AF_UNSPEC_def)

text \<open>
  A partial send reads past the buffer: when \<^verbatim>\<open>sendto(2)\<close> takes some but not all
  of a message that fills its buffer, the next call of the loop is given the full length again, at
  the advanced address; a message taken at once is reported with its length.
\<close>

theorem partial_send_overreads:
  assumes "0 < n" "n \<le> len" "address_family o1 = AF_INET" "fd_of o1 w = Some fd"
  shows "ip_Sendto len len False (Inr n # r # rs) (o1, w) = (if n < len then None else Some (int len, o1, w))"
  using assms by (auto simp: ip_Sendto_def sent_def AF_UNSPEC_def AF_INET_def)

theorem partial_send_overreads_witness:
  "ip_Sendto 10 10 False (Inr 4 # Inr 6 # []) (fst (IPComm AF_INET example_world), snd (IPComm AF_INET example_world)) = None"
proof -
  let ?x = "IPComm AF_INET example_world"
  have "address_family (fst ?x) = AF_INET" "fd_of (fst ?x) (snd ?x) = Some DESCRIPTOR_NULL"
    by (simp_all add: ip_op_defs)
  from partial_send_overreads[of 4 10, OF _ _ this] show ?thesis by simp
qed

end
