(* ===== verification/Ip_Refs.thy ===== *)
theory Ip_Refs
  imports Ip_Comm
begin

text \<open>
  Programs over IPComm objects: the operations that share a descriptor as a step relation on the
  live objects and the world, its reachable states, and what sharing guarantees in all of them.
\<close>

text \<open>
  A program over the objects: the live ones are a list, and an operation names them by position.
  The result None is a use of freed memory.
\<close>

datatype ip_op =
    MkConn int
  | CopyConn nat
  | AssignConn nat nat
  | ClearConn nat
  | DropConn nat
  | SocketConn nat int
  | CloseConn nat

fun ip_exec :: "ip_op \<Rightarrow> ipcomm list \<times> world \<Rightarrow> (ipcomm list \<times> world) option" where
  "ip_exec (MkConn f) (os, w) = (let (x, w') = IPComm f w in Some (os @ [x], w'))"
| "ip_exec (CopyConn i) (os, w) = map_option (\<lambda>(x, w'). (os @ [x], w')) (ip_copy (os ! i) w)"
| "ip_exec (AssignConn i j) (os, w) = map_option (\<lambda>(x, w'). (os[i := x], w')) (ip_assign (os ! i) (os ! j) w)"
| "ip_exec (ClearConn i) (os, w) = map_option (\<lambda>(x, w'). (os[i := x], w')) (ip_clear (os ! i) w)"
| "ip_exec (DropConn i) (os, w) = map_option (\<lambda>w'. (take i os @ drop (Suc i) os, w')) (ip_destroy (os ! i) w)"
| "ip_exec (SocketConn i fd) (os, w) =
     map_option (\<lambda>(x, w'). (os[i := x], w')) (ip_Socket (address_family (os ! i), 1, 0) (Inr fd) None None None (os ! i, w))"
| "ip_exec (CloseConn i) (os, w) = map_option (\<lambda>w'. (os, w')) (ip_Close (os ! i) w)"

text \<open>The operations a careful caller makes: on live objects, no self-assignment, and no second
  Socket on an object that still has a descriptor. The kernel's descriptors are not negative.\<close>

fun op_allowed :: "ip_op \<Rightarrow> ipcomm list \<times> world \<Rightarrow> bool" where
  "op_allowed (MkConn f) (os, w) = True"
| "op_allowed (AssignConn i j) (os, w) = (i < length os \<and> j < length os \<and> i \<noteq> j)"
| "op_allowed (SocketConn i fd) (os, w) = (i < length os \<and> fd_of (os ! i) w = Some DESCRIPTOR_NULL \<and> 0 \<le> fd)"
| "op_allowed (CopyConn i) (os, w) = (i < length os)"
| "op_allowed (ClearConn i) (os, w) = (i < length os)"
| "op_allowed (DropConn i) (os, w) = (i < length os)"
| "op_allowed (CloseConn i) (os, w) = (i < length os)"

fun handed_out :: "ip_op \<Rightarrow> int list" where
  "handed_out (SocketConn i fd) = [fd]"
| "handed_out _ = []"

inductive ip_reach :: "int list \<Rightarrow> ipcomm list \<times> world \<Rightarrow> bool" where
  reach_start: "ip_reach [] ([], start_world e)"
| reach_step: "ip_reach fds s \<Longrightarrow> op_allowed op s \<Longrightarrow> ip_exec op s = Some s' \<Longrightarrow> ip_reach (handed_out op @ fds) s'"



inductive_cases ip_reach_cases: "ip_reach fds s"

abbreviation refs_of :: "ipcomm list \<Rightarrow> nat multiset" where
  "refs_of \<equiv> owners dref"

definition conn_inv :: "int list \<Rightarrow> ipcomm list \<times> world \<Rightarrow> bool" where
  "conn_inv fds s \<longleftrightarrow> store_inv (refs_of (fst s)) (snd s) \<and> all_fds (snd s) = mset fds"

text \<open>The flag operations change neither the heap nor the closed list.\<close>

definition same_store :: "world \<Rightarrow> world \<Rightarrow> bool" where
  "same_store w w' \<longleftrightarrow> heap w' = heap w \<and> next_ref w' = next_ref w \<and> closed w' = closed w"

lemma same_storeD: "same_store w w' \<Longrightarrow> store_inv R w' = store_inv R w \<and> all_fds w' = all_fds w"
  by (simp add: same_store_def store_inv_def all_fds_def held_def)

lemma flags_same_store:
  assumes "heap w (dref o1) = Some d"
  shows "\<exists>o2 w2. (if b then set_socket_blocking g s (o1, w) else set_socket_nonblocking g s (o1, w)) = Some (o2, w2)
      \<and> same_store w w2 \<and> dref o2 = dref o1"
    and "\<exists>o2 w2. set_socket_on_exec b g (o1, w) = Some (o2, w2) \<and> same_store w w2 \<and> dref o2 = dref o1"
  using assms
  by (auto simp: set_socket_blocking_def set_socket_nonblocking_def set_socket_on_exec_def fd_of_def w_fail_def
      same_store_def Let_def split: option.splits)

text \<open>Installing a descriptor that the kernel has given, on an object without one.\<close>

lemma set_fd_law:
  assumes "store_inv R w" "dref o1 \<in># R" "fd_of o1 w = Some DESCRIPTOR_NULL" "0 \<le> fd"
  shows "\<exists>w'. set_fd fd o1 w = Some w' \<and> store_inv R w' \<and> all_fds w' = add_mset fd (all_fds w) \<and> heap w' (dref o1) \<noteq> None"
proof -
  obtain d where d: "heap w (dref o1) = Some d" "dcnt d = count R (dref o1)" "0 < dcnt d" "dref o1 < next_ref w"
    using store_inv_mem[OF assms(1,2)] by blast
  have null: "dfd d = DESCRIPTOR_NULL" using assms(3) d(1) by (simp add: fd_of_def)
  let ?x = "Some (d\<lparr>dfd := fd\<rparr>)"
  let ?w = "w\<lparr>heap := (heap w)(dref o1 := ?x)\<rparr>"
  have "store_inv R ?w" using assms(1,4) d by (intro store_inv_update) (auto simp: DESCRIPTOR_NULL_def)
  moreover have "held ?w = add_mset fd (held w)"
    using held_update[OF d(4), of ?x] d(1) null assms(4) by (simp add: DESCRIPTOR_NULL_def)
  then have "all_fds ?w = add_mset fd (all_fds w)" by (simp add: all_fds_def)
  ultimately show ?thesis using d(1) by (simp add: set_fd_def)
qed

lemma Socket_law:
  assumes "store_inv R w" "dref o1 \<in># R" "fd_of o1 w = Some DESCRIPTOR_NULL" "0 \<le> fd"
  shows "\<exists>o2 w2. ip_Socket a (Inr fd) g s t (o1, w) = Some (o2, w2) \<and> dref o2 = dref o1 \<and> store_inv R w2
    \<and> all_fds w2 = add_mset fd (all_fds w)"
proof -
  obtain w1 d where 1: "set_fd fd o1 w = Some w1" "store_inv R w1" "all_fds w1 = add_mset fd (all_fds w)" "heap w1 (dref o1) = Some d"
    using set_fd_law[OF assms] by auto
  obtain o2 w2 where 2: "(if blocking_flag o1 then set_socket_blocking g s (o1, w1)
      else set_socket_nonblocking g s (o1, w1)) = Some (o2, w2)" "same_store w1 w2" "dref o2 = dref o1"
    using flags_same_store(1)[OF 1(4)] by blast
  have "heap w2 (dref o2) = Some d" using 1(4) 2(2,3) by (simp add: same_store_def)
  then obtain o3 w3 where 3: "set_socket_on_exec (open_on_exec o2) t (o2, w2) = Some (o3, w3)" "same_store w2 w3"
      "dref o3 = dref o2" using flags_same_store(2) by blast
  have "ip_Socket a (Inr fd) g s t (o1, w) = Some (o3, w3)"
    using 1(1) 2(1) 3(1) by (cases "blocking_flag o1") (simp_all add: ip_Socket_def)
  moreover have "store_inv R w3" "all_fds w3 = add_mset fd (all_fds w)"
    using 1(2,3) same_storeD[OF 2(2)] same_storeD[OF 3(2)] by simp_all
  ultimately show ?thesis using 2(3) 3(3) by auto
qed

lemma exec_step:
  assumes "conn_inv fds s" "op_allowed op s"
  shows "\<exists>s'. ip_exec op s = Some s' \<and> conn_inv (handed_out op @ fds) s'"
proof -
  obtain os w where s: "s = (os, w)" by (cases s)
  have i: "store_inv (refs_of os) w" "all_fds w = mset fds" using assms(1) by (simp_all add: conn_inv_def s)
  show ?thesis
  proof (cases op)
    case (MkConn f)
    obtain r w' where n: "new_descriptor w = (r, w')" by (cases "new_descriptor w")
    from ds.alloc_law[OF i(1) n] i(2) show ?thesis by (simp add: MkConn s IPComm_def n conn_inv_def)
  next
    case (CopyConn k)
    then have "dref (os ! k) \<in># refs_of os" using assms(2) by (simp add: s owners_nth)
    from ds.ret_law[OF i(1) this] i(2) show ?thesis by (auto simp: CopyConn s ip_copy_def conn_inv_def)
  next
    case (AssignConn k j)
    then have k: "k < length os" "j < length os" "k \<noteq> j" using assms(2) by (simp_all add: s)
    from ds.swap_ok[OF i(1) owners_nth[OF k(1)] TrueI owners_two[OF k]] i(2) show ?thesis
      by (auto simp: AssignConn s ip_assign_def conn_inv_def owners_update[OF k(1)])
  next
    case (ClearConn k)
    then have k: "k < length os" using assms(2) by (simp add: s)
    from ds.renew_ok[OF i(1) owners_nth[OF k] TrueI] i(2) show ?thesis
      by (auto simp: ClearConn s ip_clear_def conn_inv_def owners_update[OF k])
  next
    case (DropConn k)
    then have k: "k < length os" using assms(2) by (simp add: s)
    from ds.rel_law[OF i(1) owners_nth[OF k] TrueI] i(2) show ?thesis
      by (auto simp: DropConn s ip_destroy_def conn_inv_def owners_drop[OF k])
  next
    case (SocketConn k fd)
    then have k: "k < length os" "fd_of (os ! k) w = Some DESCRIPTOR_NULL" "0 \<le> fd" using assms(2) by (simp_all add: s)
    have "add_mset (dref (os ! k)) (refs_of os - {#dref (os ! k)#}) = refs_of os" using owners_nth[OF k(1)] by simp
    with Socket_law[OF i(1) owners_nth[OF k(1)] k(2,3), of "(address_family (os ! k), 1, 0)" None None None] i(2) show ?thesis
      by (auto simp: SocketConn s conn_inv_def owners_update[OF k(1)])
  next
    case (CloseConn k)
    then have k: "k < length os" using assms(2) by (simp add: s)
    from Close_law[OF i(1) owners_nth[OF k]] i(2) show ?thesis by (auto simp: CloseConn s conn_inv_def)
  qed
qed

lemma reach_inv: "ip_reach fds s \<Longrightarrow> conn_inv fds s"
proof (induction rule: ip_reach.induct)
  case (reach_start e)
  show ?case by (simp add: conn_inv_def store_inv_def start_world_def owners_def all_fds_def held_def)
next
  case (reach_step fds s op s')
  then show ?case using exec_step[of fds s op] by auto
qed

text \<open>
  C6. Sharing is safe: in every state a program of constructions, copies, assignments between
  different objects, clears, destructions, Closes, and Sockets on objects without a descriptor can
  reach, any further such operation on live objects succeeds, i.e. none of them ever touches a deleted
  descriptor. Assigning an object that nobody shares to itself does touch one (self_assignment_faults).
\<close>

theorem sharing_is_safe:
  assumes "ip_reach fds s" "op_allowed op s"
  shows "\<exists>s'. ip_exec op s = Some s'"
  using exec_step[OF reach_inv[OF assms(1)] assms(2)] by blast

text \<open>
  C22. The reference count is exact: in every reachable state an allocated descriptor's count is the
  number of live objects that point to it, and it is not zero; what no object points to is freed.
\<close>

theorem count_is_exact:
  assumes "ip_reach fds (os, w)"
  shows "case heap w a of None \<Rightarrow> count (mset (map dref os)) a = 0
    | Some d \<Rightarrow> dcnt d = count (mset (map dref os)) a \<and> 0 < dcnt d"
proof -
  have "cell_ok (count (refs_of os) a) (heap w a)"
    using reach_inv[OF assms] by (simp add: conn_inv_def store_inv_def)
  then show ?thesis by (cases "heap w a") (simp_all add: owners_def)
qed

text \<open>
  C12. No descriptor leaks and none is closed twice: when the last object of such a program is gone, in
  which no object is assigned to itself and Socket is called only on objects without a descriptor, every
  descriptor is freed, and the numbers passed to close(2) are, with their multiplicity, those that
  socket(2) returned.
\<close>

theorem every_fd_closed_once:
  assumes "ip_reach fds ([], w)"
  shows "mset (closed w) = mset fds \<and> heap w = Map.empty"
proof -
  have i: "store_inv {#} w" "all_fds w = mset fds" using reach_inv[OF assms] by (simp_all add: conn_inv_def owners_def)
  have n: "heap w = Map.empty" by (rule store_inv_empty[OF i(1)])
  then have "held w = {#}" by (simp add: held_def)
  with i(2) n show ?thesis by (simp add: all_fds_def)
qed

text \<open>Two objects sharing one socket: made, opened on descriptor 7, copied, and both destroyed.\<close>

fun run_ops :: "ip_op list \<Rightarrow> ipcomm list \<times> world \<Rightarrow> (ipcomm list \<times> world) option" where
  "run_ops [] s = Some s"
| "run_ops (op # ops) s = (if op_allowed op s then Option.bind (ip_exec op s) (run_ops ops) else None)"

lemma run_ops_reach:
  "run_ops ops s = Some s' \<Longrightarrow> ip_reach fds s \<Longrightarrow> ip_reach (concat (map handed_out (rev ops)) @ fds) s'"
proof (induction ops arbitrary: s fds)
  case (Cons op ops)
  then obtain s1 where "op_allowed op s" "ip_exec op s = Some s1" "run_ops ops s1 = Some s'"
    by (auto split: if_splits simp: bind_eq_Some_conv)
  with Cons.IH[OF this(3) reach_step[OF Cons.prems(2) this(1,2)]] show ?case by simp
qed simp

definition share_ops :: "ip_op list" where
  "share_ops = [MkConn 2, SocketConn 0 7, CopyConn 0, DropConn 0]"

definition share_state :: "ipcomm list \<times> world" where
  "share_state = the (run_ops share_ops ([], example_world))"

lemma share_run: "run_ops share_ops ([], example_world) = Some share_state"
  by (simp add: share_state_def share_ops_def example_world_def start_world_def ip_op_defs)

lemma share_reach: "ip_reach [7] share_state"
  using run_ops_reach[OF share_run[unfolded example_world_def] reach_start]
  by (simp add: share_ops_def)

lemma share_facts: "length (fst share_state) = 1" "dref (fst share_state ! 0) = 0"
  "heap (snd share_state) 0 = Some \<lparr>dfd = 7, dfp = None, dcnt = 1\<rparr>"
  by (simp_all add: share_state_def share_ops_def example_world_def start_world_def ip_op_defs)

lemma drop_reach: "\<exists>w. ip_reach [7] ([], w)"
proof -
  obtain os w where p: "share_state = (os, w)" by (cases share_state)
  have "length os = 1" using share_facts(1) unfolding p by simp
  then obtain o1 where "os = [o1]" by (auto simp: length_Suc_conv)
  with p have s: "share_state = ([o1], w)" by simp
  have a: "op_allowed (DropConn 0) share_state" by (simp add: s)
  obtain s' where s': "ip_exec (DropConn 0) share_state = Some s'"
    using exec_step[OF reach_inv[OF share_reach] a] by blast
  then have "fst s' = []" by (auto simp: s)
  with reach_step[OF share_reach a s'] show ?thesis by (cases s') auto
qed

theorem sharing_is_safe_witness: "\<exists>s'. ip_exec (CopyConn 0) share_state = Some s'"
proof (rule sharing_is_safe[OF share_reach])
  show "op_allowed (CopyConn 0) share_state" using share_facts(1) prod.collapse[of share_state]
    by (metis op_allowed.simps(4) zero_less_one)
qed

theorem count_is_exact_witness: "\<lparr>dfd = 7, dfp = None, dcnt = 1\<rparr> \<in> ran (heap (snd share_state)) \<and> count (mset (map dref (fst share_state))) 0 = 1"
  using count_is_exact[of "[7]" "fst share_state" "snd share_state" 0] share_reach share_facts(3)
  by (auto simp: ran_def)

theorem every_fd_closed_once_witness: "\<exists>w. ip_reach [7] ([], w) \<and> closed w = [7]"
proof -
  obtain w where w: "ip_reach [7] ([], w)" using drop_reach by blast
  then have "mset (closed w) = {#7#}" using every_fd_closed_once[OF w] by simp
  with w show ?thesis by auto
qed

text \<open>
  Self-assignment of the only owner is a use after free: operator= gives up its reference before
  it takes the source's, so \<^verbatim>\<open>x = x\<close> on an object that nobody shares deletes the descriptor it is
  about to point to.
\<close>

theorem self_assignment_faults:
  assumes "ip_reach fds (os, w)" "i < length os" "count (mset (map dref os)) (dref (os ! i)) = 1"
  shows "ip_exec (AssignConn i i) (os, w) = None"
proof -
  have i: "store_inv (refs_of os) w" using reach_inv[OF assms(1)] by (simp add: conn_inv_def)
  from ds.rel_law[OF i owners_nth[OF assms(2)] TrueI] obtain w1 where
    w1: "release (os ! i) w = Some w1" "store_inv (refs_of os - {#dref (os ! i)#}) w1" by blast
  have "count (refs_of os) (dref (os ! i)) = 1" using assms(3) by (simp only: owners_def)
  then have "cell_ok 0 (heap w1 (dref (os ! i)))"
    using w1(2) unfolding store_inv_def by (metis count_diff count_single diff_self_eq_0)
  then have "heap w1 (dref (os ! i)) = None" by (cases "heap w1 (dref (os ! i))") simp_all
  with w1(1) show ?thesis by (simp add: ip_assign_def retain_def)
qed

theorem self_assignment_faults_witness: "ip_exec (AssignConn 0 0) (fst share_state, snd share_state) = None"
  by (rule self_assignment_faults[of "[7]"])
     (use share_reach share_facts in \<open>auto simp: length_Suc_conv\<close>)

end
