(* ===== verification/Tcp_Conn.thy ===== *)
theory Tcp_Conn
  imports Ip_Comm
begin

text \<open>
  The connected sockets of TCPConn.cc. A TCPConn is an IPComm with two flags; its base object is the
  field tc_ip. System calls are scripts: what the kernel will answer to the successive calls, in
  order. A read gets a stream of events (data, end of file, an error), a write the numbers of bytes
  the kernel will take. An operation that waits for an answer the script does not have Blocks; one
  with undefined behaviour is Undefined. Logging is left out.
\<close>

section \<open>System calls\<close>

datatype 'a sys = Blocks | Undefined | Returns 'a

fun bind_sys :: "'a sys \<Rightarrow> ('a \<Rightarrow> 'b sys) \<Rightarrow> 'b sys" where
  "bind_sys Blocks f = Blocks"
| "bind_sys Undefined f = Undefined"
| "bind_sys (Returns a) f = f a"

fun of_opt :: "'a option \<Rightarrow> 'a sys" where
  "of_opt None = Undefined"
| "of_opt (Some a) = Returns a"

datatype rd_event = Data string | Eof | RdErr int string

text \<open>
  \<^verbatim>\<open>read(2)\<close> of a count from the stream: at most count bytes of the data that is there,
  nothing at the end of the stream, where it stays, and nothing for a count of 0.
\<close>

fun sys_read :: "nat \<Rightarrow> rd_event list \<Rightarrow> (((int \<times> string) + string) \<times> rd_event list) sys" where
  "sys_read 0 evs = Returns (Inr [], evs)"
| "sys_read (Suc k) [] = Blocks"
| "sys_read (Suc k) (Data s # evs) =
     (if s = [] then sys_read (Suc k) evs
      else Returns (Inr (take (Suc k) s), if drop (Suc k) s = [] then evs else Data (drop (Suc k) s) # evs))"
| "sys_read (Suc k) (Eof # evs) = Returns (Inr [], Eof # evs)"
| "sys_read (Suc k) (RdErr e m # evs) = Returns (Inl (e, m), evs)"

datatype wr_event = Takes nat | WrErr int string

section \<open>The object\<close>

record tcpconn =
  tc_ip :: ipcomm
  connected :: bool
  listening :: bool

type_synonym tcp_st = "tcpconn \<times> world"

definition on_ip :: "(ipcomm \<times> world \<Rightarrow> ipcomm \<times> world) \<Rightarrow> tcp_st \<Rightarrow> tcp_st" where
  "on_ip f st = (case f (tc_ip (fst st), snd st) of (x, w) \<Rightarrow> ((fst st)\<lparr>tc_ip := x\<rparr>, w))"

definition on_ip_opt :: "(ipcomm \<times> world \<Rightarrow> (ipcomm \<times> world) option) \<Rightarrow> tcp_st \<Rightarrow> tcp_st option" where
  "on_ip_opt f st = map_option (\<lambda>(x, w). ((fst st)\<lparr>tc_ip := x\<rparr>, w)) (f (tc_ip (fst st), snd st))"

definition tcp_fail :: "int \<Rightarrow> string \<Rightarrow> tcp_st \<Rightarrow> tcp_st" where
  "tcp_fail r m st = (fst st, ip_fail r m (snd st))"

definition note_event :: "string \<Rightarrow> tcp_st \<Rightarrow> tcp_st" where
  "note_event m st = (if event_flag (w_err (snd st))
     then (fst st, (snd st)\<lparr>w_err := error_AppendMsg (Some m) (w_err (snd st))\<rparr>) else st)"

definition TCPConn :: "world \<Rightarrow> tcp_st" where
  "TCPConn w = (case IPComm AF_UNSPEC w of (x, w') \<Rightarrow> (\<lparr>tc_ip = x, connected = False, listening = False\<rparr>, w'))"

definition tcp_destroy :: "tcpconn \<Rightarrow> world \<Rightarrow> world option" where
  "tcp_destroy c w = ip_destroy (tc_ip c) w"

definition tcp_copy :: "tcpconn \<Rightarrow> world \<Rightarrow> tcp_st option" where
  "tcp_copy src w = map_option
     (\<lambda>(x, w'). (\<lparr>tc_ip = x, connected = connected src, listening = listening src\<rparr>, w')) (ip_copy (tc_ip src) w)"

definition tcp_assign :: "tcpconn \<Rightarrow> tcpconn \<Rightarrow> world \<Rightarrow> tcp_st option" where
  "tcp_assign c src w = map_option
     (\<lambda>(x, w'). (c\<lparr>tc_ip := x, connected := connected src, listening := listening src\<rparr>, w'))
     (ip_assign (tc_ip c) (tc_ip src) w)"

definition tcp_equal :: "(sock_addr \<Rightarrow> string option) \<Rightarrow> tcpconn \<Rightarrow> tcpconn \<Rightarrow> world \<Rightarrow> bool option" where
  "tcp_equal ntop c other w = map_option
     (\<lambda>same. same \<and> ip_port (tc_ip c) = ip_port (tc_ip other) \<and> connected c = connected other
        \<and> listening c = listening other)
     (ip_equal ntop (tc_ip c) (tc_ip other) w)"

definition tcp_Equals :: "(sock_addr \<Rightarrow> string option) \<Rightarrow> tcpconn \<Rightarrow> tcpconn \<Rightarrow> world \<Rightarrow> bool option" where
  "tcp_Equals ntop c other w = tcp_equal ntop c other w"

definition set_connected :: "bool \<Rightarrow> tcpconn \<Rightarrow> tcpconn" where
  "set_connected b c = c\<lparr>connected := b\<rparr>"

definition tcp_Clone :: "tcpconn \<Rightarrow> tcpconn \<Rightarrow> world \<Rightarrow> tcp_st option" where
  "tcp_Clone c src w = tcp_assign c src w"

definition IsConnected :: "tcpconn \<Rightarrow> bool" where "IsConnected c \<longleftrightarrow> connected c"
definition IsListening :: "tcpconn \<Rightarrow> bool" where "IsListening c \<longleftrightarrow> listening c"

definition tcp_clear :: "tcp_st \<Rightarrow> tcp_st option" where
  "tcp_clear st = map_option (\<lambda>(c, w). (c\<lparr>connected := False, listening := False\<rparr>, w))
     (on_ip_opt (\<lambda>(x, w). ip_clear x w) st)"

subsection \<open>Printing\<close>

definition TCP_SCRATCH :: nat where "TCP_SCRATCH = 1024 * 4"

definition show_port :: "ipcomm \<Rightarrow> string" where
  "show_port x = show_nat (unat (ip_port x))"

definition show_bool :: "bool \<Rightarrow> string" where
  "show_bool b = (if b then ''1'' else ''0'')"

definition tcp_print :: "(sock_addr \<Rightarrow> string option) \<Rightarrow> tcpconn \<Rightarrow> world \<Rightarrow> string option" where
  "tcp_print ntop c w = map_option
     (\<lambda>s. zfill TCP_SCRATCH (sn_print TCP_SCRATCH [c_str s @ '':'' @ show_port (tc_ip c) @ '':''
        @ show_bool (connected c) @ '':'' @ show_bool (listening c)]))
     (ip_print ntop (tc_ip c) w)"

definition print_2tuple :: "(sock_addr \<Rightarrow> string option) \<Rightarrow> tcpconn \<Rightarrow> string" where
  "print_2tuple ntop c = zfill TCP_SCRATCH
     (sn_print TCP_SCRATCH [c_str (hostname ntop (tc_ip c)) @ '':'' @ show_port (tc_ip c)])"

definition print_3tuple :: "(sock_addr \<Rightarrow> string option) \<Rightarrow> tcpconn \<Rightarrow> string" where
  "print_3tuple ntop c = zfill TCP_SCRATCH (sn_print TCP_SCRATCH [c_str (print_2tuple ntop c) @ '':tcp''])"

subsection \<open>Connections\<close>

definition tcp_Init :: "(int \<Rightarrow> (int \<times> string \<times> addrinfo list) list) \<Rightarrow> (int \<times> string) list \<Rightarrow> int \<Rightarrow> int
    \<Rightarrow> tcp_st \<Rightarrow> tcp_st option" where
  "tcp_Init getaddrinfo names family retry_cnt st =
     map_option (note_event ''TCPConn::Init(): '') (on_ip_opt (ip_Init getaddrinfo names family retry_cnt) st)"

definition tcp_InitServer :: "int \<Rightarrow> tcp_st \<Rightarrow> tcp_st" where
  "tcp_InitServer family st = note_event ''TCPConn::InitServer(): '' (on_ip (InitServer family) st)"

definition known_family :: "tcpconn \<Rightarrow> bool" where
  "known_family c \<longleftrightarrow> address_family (tc_ip c) = AF_INET \<or> address_family (tc_ip c) = AF_INET6"

definition unknown_family :: "string \<Rightarrow> tcp_st \<Rightarrow> tcp_st" where
  "unknown_family fn st = tcp_fail EX_SOFTWARE
     (fn @ ''unknown address_family: '' @ show_int (address_family (tc_ip (fst st))) @ ''.'') st"

definition ECONNREFUSED :: int where "ECONNREFUSED = 111"
definition ETIMEDOUT :: int where "ETIMEDOUT = 110"
definition EINPROGRESS :: int where "EINPROGRESS = 115"
definition EINVAL :: int where "EINVAL = 22"

text \<open>Connect; res is the result of \<^verbatim>\<open>connect(2)\<close>: None, or the errno and its text.\<close>

definition tcp_Connect :: "(sock_addr \<Rightarrow> string option) \<Rightarrow> (int \<times> string) option \<Rightarrow> tcp_st \<Rightarrow> tcp_st option" where
  "tcp_Connect ntop res st = (let c = fst st; x = tc_ip c; fn = ''TCPConn::Connect(void): connect('' in
     if \<not> known_family c then Some (unknown_family ''TCPConn::Connect(): '' st)
     else if fd_of x (snd st) = None then None
     else (case res of
         None \<Rightarrow> Some (c\<lparr>connected := True\<rparr>, snd st)
       | Some (e, m) \<Rightarrow> Some
           (if blocking_flag x \<and> (e = ECONNREFUSED \<or> e = ETIMEDOUT)
            then tcp_fail EX_IOERR (fn @ c_str (hostname ntop x) @ '':'' @ show_port x @ ''): '' @ m) st
            else if \<not> blocking_flag x \<and> e = EINPROGRESS then st
            else if e = EINVAL
            then tcp_fail EX_IOERR (fn @ c_str (ip_address ntop x) @ '':'' @ show_port x @ ''), family ''
                   @ show_int (address_family x) @ '': '' @ m) st
            else tcp_fail EX_IOERR (fn @ c_str (ip_address ntop x) @ '':'' @ show_port x @ ''): '' @ m) st)))"

definition DNS_RETRY :: int where "DNS_RETRY = 3"

definition tcp_Connect_host :: "(sock_addr \<Rightarrow> string option) \<Rightarrow> (int \<Rightarrow> (int \<times> string \<times> addrinfo list) list)
    \<Rightarrow> (int \<times> string) list \<Rightarrow> (int \<times> string) option \<Rightarrow> string \<Rightarrow> 16 word \<Rightarrow> int \<Rightarrow> tcp_st \<Rightarrow> tcp_st option" where
  "tcp_Connect_host ntop getaddrinfo names res host port family st =
     (case on_ip_opt (ip_Init getaddrinfo names family DNS_RETRY) st of
        None \<Rightarrow> None
      | Some st1 \<Rightarrow>
          (let st2 = on_ip (ip_set_port port) st1
           in if event_flag (w_err (snd st2))
              then Some (note_event (''TCPConn::Connect('' @ host @ '', '' @ show_nat (unat port) @ '', ''
                     @ show_int family @ '')'') st2)
              else tcp_Connect ntop res st2))"

definition tcp_Bind :: "string option \<Rightarrow> tcp_st \<Rightarrow> tcp_st option" where
  "tcp_Bind res st =
     (if \<not> known_family (fst st) then Some (unknown_family ''TCPConn::Bind(): '' st)
      else if fd_of (tc_ip (fst st)) (snd st) = None then None
      else (case res of
          None \<Rightarrow> Some st
        | Some m \<Rightarrow> Some (tcp_fail EX_IOERR (''TCPConn::Bind(): bind('' @ show_port (tc_ip (fst st)) @ ''): '' @ m) st)))"

definition tcp_Bind_port :: "16 word \<Rightarrow> string option \<Rightarrow> tcp_st \<Rightarrow> tcp_st option" where
  "tcp_Bind_port port res st = tcp_Bind res (on_ip (ip_set_port port) st)"

definition tcp_Listen :: "string option \<Rightarrow> tcp_st \<Rightarrow> tcp_st option" where
  "tcp_Listen res st =
     (if fd_of (tc_ip (fst st)) (snd st) = None then None
      else (case res of
          Some m \<Rightarrow> Some (tcp_fail EX_IOERR (''TCPConn::Listen(): listen('' @ show_port (tc_ip (fst st)) @ ''): '' @ m) st)
        | None \<Rightarrow>
            (let st1 = ((fst st)\<lparr>listening := True\<rparr>, snd st)
             in Some (if known_family (fst st1) then st1 else unknown_family ''TCPConn::Listen(): '' st1))))"

text \<open>
  Accept. The result of \<^verbatim>\<open>accept(2)\<close> is an error or the new descriptor and the peer's
  address, which the kernel has written into the client object; the family is taken from there
  before the error is looked at. The marking as non-blocking is that of the object only.
\<close>

definition tcp_Accept :: "(int \<times> string) + (int \<times> sock_addr) \<Rightarrow> (int \<times> string) list \<Rightarrow> tcpconn \<Rightarrow> tcp_st \<Rightarrow> tcp_st option" where
  "tcp_Accept res names server st =
     (if \<not> known_family server
      then Some (fst st, snd (unknown_family ''TCPConn::Accept(): '' (server, snd st)))
      else if fd_of (tc_ip server) (snd st) = None then None
      else (let sa = (case res of Inl _ \<Rightarrow> sockaddr (tc_ip (fst st)) | Inr (fd, sa) \<Rightarrow> sa);
                client = (fst st)\<lparr>tc_ip := set_address_family (sa_family sa) ((tc_ip (fst st))\<lparr>sockaddr := sa\<rparr>)\<rparr>
            in case res of
                 Inl (e, m) \<Rightarrow> Some
                   (if \<not> blocking_flag (tc_ip server) \<and> e = EAGAIN
                    then tcp_fail EX_IOERR (''TCPConn::Accept(): accept(): '' @ m
                           @ '', Note, Accept() expects the fd to be ready via poll(2)!'') (client, snd st)
                    else tcp_fail EX_IOERR (''TCPConn::Accept(): accept(): '' @ m) (client, snd st))
               | Inr (fd, _) \<Rightarrow>
                   (case set_fd fd (tc_ip client) (snd st) of
                      None \<Rightarrow> None
                    | Some w \<Rightarrow>
                        (let x = tc_ip client;
                             x' = (if blocking_flag (tc_ip server) then x else x\<lparr>blocking_flag := False\<rparr>)
                         in on_ip_opt (ResolveDNSName DNS_RETRY names) (client\<lparr>tc_ip := x', connected := True\<rparr>, w)))))"

definition tcp_Accept_new :: "(int \<times> string) + (int \<times> sock_addr) \<Rightarrow> (int \<times> string) list \<Rightarrow> tcp_st \<Rightarrow> tcp_st option" where
  "tcp_Accept_new res names st = tcp_Accept res names (fst st) (TCPConn (snd st))"

definition tcp_Close :: "tcp_st \<Rightarrow> tcp_st option" where
  "tcp_Close st = map_option (\<lambda>w. ((fst st)\<lparr>connected := False, listening := False\<rparr>, w)) (ip_Close (tc_ip (fst st)) (snd st))"

text \<open>
  Getsockname: the format of the last error has one directive, so what it prints is the host name.
\<close>

definition Getsockname :: "(sock_addr \<Rightarrow> string option) \<Rightarrow> string option \<Rightarrow> tcp_st \<Rightarrow> tcp_st option" where
  "Getsockname ntop res st =
     (if address_family (tc_ip (fst st)) = AF_UNSPEC
      then Some (tcp_fail EX_SOFTWARE ''TCPConn::Getsockname(): address_family is AF_UNSPEC'' st)
      else if \<not> connected (fst st)
      then Some (tcp_fail EX_SOFTWARE ''TCPConn::Getsockname(): socket not connected'' st)
      else if fd_of (tc_ip (fst st)) (snd st) = None then None
      else (case res of
          None \<Rightarrow> Some st
        | Some m \<Rightarrow> Some (tcp_fail EX_IOERR
            (''TCPConn::Getsockname(): getsockname(): '' @ c_str (hostname ntop (tc_ip (fst st)))) st)))"

section \<open>Writing\<close>

text \<open>
  The loop of Write over data, the bytes buf .. buf + buf_len. Each write(2) is given the bytes from
  offset on and takes some of them from their start, which go out behind wire, what went out before. The
  result is the offset at the end, all that went out, and the error that ended the loop.
\<close>

fun write_loop :: "bool \<Rightarrow> string \<Rightarrow> nat \<Rightarrow> string \<Rightarrow> wr_event list
    \<Rightarrow> (nat \<times> string \<times> (int \<times> string) option \<times> wr_event list) sys" where
  "write_loop blocking data offset wire [] = Blocks"
| "write_loop blocking data offset wire (ev # evs) = (case ev of
      Takes k \<Rightarrow>
        (let taken = take k (drop offset data); n = length taken
         in if length data - (offset + n) = 0 then Returns (offset + n, wire @ taken, None, evs)
            else write_loop blocking data (offset + n) (wire @ taken) evs)
    | WrErr e m \<Rightarrow>
        if \<not> blocking \<and> e = EAGAIN then Returns (offset, wire, None, evs) else Returns (offset, wire, Some (e, m), evs))"

text \<open>
  Write: the count it returns, the bytes that went out on the wire, and what is left of the script.
  After an error it returns 0 whatever went out before.
\<close>

definition tcp_Write :: "string \<Rightarrow> nat \<Rightarrow> wr_event list \<Rightarrow> tcp_st \<Rightarrow> (nat \<times> string \<times> wr_event list \<times> tcp_st) sys" where
  "tcp_Write buf buf_len evs st = (case fd_of (tc_ip (fst st)) (snd st) of
      None \<Rightarrow> Undefined
    | Some fd \<Rightarrow>
        if length buf < buf_len then Undefined
        else bind_sys (write_loop (blocking_flag (tc_ip (fst st))) (take buf_len buf) 0 [] evs) (\<lambda>(n, wire, err, evs').
          case err of
            None \<Rightarrow> Returns (n, wire, evs', st)
          | Some (e, m) \<Rightarrow> Returns (0, wire, evs',
              tcp_fail EX_IOERR (''TCPConn::Write(): write(fd: '' @ show_int fd @ '') failed: '' @ m) st)))"

section \<open>Reading\<close>

text \<open>The results: the value returned, the bytes stored at buf, the flag eof, the script, the state.\<close>

definition tcp_Read :: "nat \<Rightarrow> rd_event list \<Rightarrow> tcp_st \<Rightarrow> (int \<times> string \<times> bool \<times> rd_event list \<times> tcp_st) sys" where
  "tcp_Read buf_len evs st = (case fd_of (tc_ip (fst st)) (snd st) of
      None \<Rightarrow> Undefined
    | Some fd \<Rightarrow>
        bind_sys (sys_read buf_len evs) (\<lambda>(r, evs'). case r of
          Inr s \<Rightarrow> Returns (int (length s), s, s = [], evs', st)
        | Inl (e, m) \<Rightarrow>
            if \<not> blocking_flag (tc_ip (fst st)) \<and> e = EAGAIN then Returns (0, [], False, evs', st)
            else Returns (- 1, [], False, evs',
              tcp_fail EX_IOERR (''TCPConn::Read('' @ show_int fd @ ''): failed: '' @ m) st)))"

text \<open>
  The loop of ReadExhaustive. The format of the message for a genuine error takes a string where
  the descriptor, an int, is passed: undefined behaviour.
\<close>

lemma sys_read_le: "sys_read k evs = Returns (Inr s, evs') \<Longrightarrow> length s \<le> k"
  by (induction k evs rule: sys_read.induct) (auto split: if_splits)

function exhaust_loop :: "nat \<Rightarrow> rd_event list \<Rightarrow> string \<Rightarrow> (string \<times> bool \<times> rd_event list) sys" where
  "exhaust_loop bytes_left evs acc = (case sys_read bytes_left evs of
      Blocks \<Rightarrow> Blocks
    | Undefined \<Rightarrow> Undefined
    | Returns (Inr s, evs') \<Rightarrow>
        if s = [] then Returns (acc, True, evs')
        else exhaust_loop (bytes_left - length s) evs' (acc @ s)
    | Returns (Inl (e, m), evs') \<Rightarrow> if e = EAGAIN then Returns (acc, False, evs') else Undefined)"
  by pat_completeness auto
termination
proof (relation "measure (\<lambda>(n, evs, acc). n)")
  fix n evs acc r and s :: string and evs' p
  assume "sys_read n evs = Returns p" "(r, evs') = p" "r = Inr s" "s \<noteq> []"
  then have "length s \<le> n" "length s > 0" using sys_read_le[of n evs s evs'] by auto
  then show "((n - length s, evs', acc @ s), (n, evs, acc)) \<in> measure (\<lambda>(n, evs, acc). n)" by (cases s) auto
qed simp

declare exhaust_loop.simps [simp del]

definition ReadExhaustive :: "nat \<Rightarrow> rd_event list \<Rightarrow> tcp_st \<Rightarrow> (int \<times> string \<times> bool option \<times> rd_event list \<times> tcp_st) sys" where
  "ReadExhaustive buf_len evs st =
     (if blocking_flag (tc_ip (fst st))
      then Returns (0, [], None, evs, tcp_fail EX_SOFTWARE ''TCPConn::Read(): routine called on blocking socket.'' st)
      else if fd_of (tc_ip (fst st)) (snd st) = None then Undefined
      else bind_sys (exhaust_loop buf_len evs []) (\<lambda>(s, eof, evs').
        Returns (int (length s), s, Some eof, evs', st)))"

text \<open>
  ReadLine reads one byte at a time; count is what the loop may still read. The result is what was
  stored, how the loop ended, and the script.
\<close>

definition line_stop :: "char \<Rightarrow> char \<Rightarrow> bool" where
  "line_stop delimiter c \<longleftrightarrow> c = NUL \<or> c = CR \<or> c = delimiter"

datatype line_end = AtEnd | AtEof | AtError string

fun line_loop :: "char \<Rightarrow> nat \<Rightarrow> rd_event list \<Rightarrow> string \<Rightarrow> (string \<times> line_end \<times> rd_event list) sys" where
  "line_loop delimiter 0 evs acc = Returns (acc, AtEnd, evs)"
| "line_loop delimiter (Suc n) evs acc = bind_sys (sys_read 1 evs) (\<lambda>(r, evs'). case r of
      Inr [] \<Rightarrow> Returns (acc, AtEof, evs')
    | Inr (c # _) \<Rightarrow>
        if line_stop delimiter c then Returns (acc, AtEnd, evs')
        else line_loop delimiter n evs' (acc @ [c])
    | Inl (e, m) \<Rightarrow> Returns (acc, AtError m, evs'))"

definition ReadLine :: "char \<Rightarrow> nat \<Rightarrow> rd_event list \<Rightarrow> tcp_st \<Rightarrow> (int \<times> string \<times> bool \<times> rd_event list \<times> tcp_st) sys" where
  "ReadLine delimiter buf_len evs st = (case fd_of (tc_ip (fst st)) (snd st) of
      None \<Rightarrow> Undefined
    | Some fd \<Rightarrow>
        if buf_len = 0 then Undefined
        else bind_sys (line_loop delimiter (buf_len - 1) evs []) (\<lambda>(s, e, evs'). case e of
          AtEnd \<Rightarrow> Returns (int (length s), s @ [NUL], False, evs', st)
        | AtEof \<Rightarrow> if s = [] then Returns (0, [], True, evs', st) else Returns (int (length s), s @ [NUL], True, evs', st)
        | AtError m \<Rightarrow> Returns (0, s, False, evs',
            tcp_fail EX_IOERR (''TCPConn::ReadLine(): read(fd: '' @ show_int fd @ ''): '' @ m) st)))"

section \<open>What Write promises\<close>

lemma tcp_fail_changes: "tcp_fail r m st \<noteq> st" "event_flag (w_err (snd (tcp_fail r m st)))"
proof -
  have "w_err (snd (tcp_fail r m st)) = error_Init r (Some m) (w_err (snd st))" by (simp add: tcp_fail_def w_fail_def)
  then show "tcp_fail r m st \<noteq> st" "event_flag (w_err (snd (tcp_fail r m st)))"
    using error_Init_changes[of r "Some m" "w_err (snd st)"] by (metis, simp)
qed

text \<open>The loop sends the bytes between the offsets at its start and at its end, all of them when it blocks.\<close>

lemma write_loop_sends:
  "write_loop blocking data off wire evs = Returns (n, wire', err, evs') \<Longrightarrow> off \<le> length data \<Longrightarrow>
    off \<le> n \<and> n \<le> length data \<and> wire' = wire @ take (n - off) (drop off data) \<and> (err = None \<longrightarrow> blocking \<longrightarrow> n = length data)"
proof (induction blocking data off wire evs rule: write_loop.induct)
  case (2 blocking data off wire ev evs)
  show ?case
  proof (cases ev)
    case (Takes k)
    define t where "t = take k (drop off data)"
    have "off + length t \<le> length data" using 2(3) by (simp add: t_def; linarith)
    moreover have "t = take (length t) (drop off data)" by (simp add: t_def min_def)
    ultimately have t: "off + length t \<le> length data" "t = take (length t) (drop off data)" by blast+
    have step: "write_loop blocking data off wire (ev # evs) = (if length data - (off + length t) = 0
        then Returns (off + length t, wire @ t, None, evs) else write_loop blocking data (off + length t) (wire @ t) evs)"
      unfolding Takes t_def by (simp only: write_loop.simps wr_event.case Let_def)
    show ?thesis
    proof (cases "length data - (off + length t) = 0")
      case True
      then show ?thesis using 2(2) t unfolding step by auto
    next
      case False
      have r: "write_loop blocking data (off + length t) (wire @ t) evs = Returns (n, wire', err, evs')"
        using 2(2) False unfolding step by simp
      have ih: "off + length t \<le> n" "n \<le> length data" "err = None \<longrightarrow> blocking \<longrightarrow> n = length data"
          "wire' = (wire @ t) @ take (n - (off + length t)) (drop (off + length t) data)"
        using 2(1)[OF Takes t_def refl False r t(1)] by simp_all
      have "n - off = length t + (n - (off + length t))" using ih(1) by simp
      then have "take (n - off) (drop off data) = t @ take (n - (off + length t)) (drop (off + length t) data)"
        using t(2) by (simp add: take_add add.commute)
      then show ?thesis using ih by simp
    qed
  next
    case (WrErr e m)
    then show ?thesis using 2(2,3) by (auto split: if_splits)
  qed
qed simp

lemma write_loop_prefix:
  "write_loop blocking data 0 [] evs = Returns (n, wire, err, evs') \<Longrightarrow>
    n \<le> length data \<and> wire = take n data \<and> (err = None \<longrightarrow> blocking \<longrightarrow> n = length data)"
  using write_loop_sends[of blocking data 0 "[]" evs n wire err evs'] by simp

lemma write_loop_completes:
  "evs \<noteq> [] \<Longrightarrow> length data - off \<le> length evs \<Longrightarrow> off \<le> length data \<Longrightarrow> list_all (\<lambda>ev. \<exists>k>0. ev = Takes k) evs
    \<Longrightarrow> \<exists>evs'. write_loop blocking data off wire evs = Returns (length data, wire @ drop off data, None, evs')"
proof (induction blocking data off wire evs rule: write_loop.induct)
  case (2 blocking data off wire ev evs)
  then obtain k where k: "ev = Takes k" "0 < k" by auto
  define t where "t = take k (drop off data)"
  have "off + length t \<le> length data" using 2(4) by (simp add: t_def; linarith)
  moreover have "drop off data = t @ drop (off + length t) data"
    using append_take_drop_id[of k "drop off data"] by (simp add: t_def min_def add.commute)
  ultimately have t: "off + length t \<le> length data" "drop off data = t @ drop (off + length t) data" by blast+
  have step: "write_loop blocking data off wire (ev # evs) = (if length data - (off + length t) = 0
      then Returns (off + length t, wire @ t, None, evs) else write_loop blocking data (off + length t) (wire @ t) evs)"
    unfolding k(1) t_def by (simp only: write_loop.simps wr_event.case Let_def)
  show ?case
  proof (cases "length data - (off + length t) = 0")
    case True
    then have "length data = off + length t" "drop off data = t" using t by auto
    then show ?thesis unfolding step by simp
  next
    case False
    then have "0 < length t" using k(2) by (cases "drop off data") (auto simp: t_def gr0_conv_Suc)
    then have e: "length data - (off + length t) \<le> length evs" using 2(3) unfolding length_Cons by linarith
    then have "evs \<noteq> []" using False by auto
    from 2(1)[OF k(1) t_def refl False this e t(1)] 2(5) obtain evs' where
      "write_loop blocking data (off + length t) (wire @ t) evs = Returns (length data, (wire @ t) @ drop (off + length t) data, None, evs')"
      by auto
    then show ?thesis using t(2) False unfolding step by simp
  qed
qed simp

lemma tcp_Write_loop:
  assumes "tcp_Write buf buf_len evs st = Returns (n, wire, evs', st')"
  obtains m where "m \<le> buf_len" "buf_len \<le> length buf" "wire = take m buf" "n = m" "st' = st"
      "blocking_flag (tc_ip (fst st)) \<longrightarrow> m = buf_len"
    | m where "m \<le> buf_len" "buf_len \<le> length buf" "wire = take m buf" "n = 0" "st' \<noteq> st" "event_flag (w_err (snd st'))"
proof -
  obtain fd where fd: "fd_of (tc_ip (fst st)) (snd st) = Some fd" "buf_len \<le> length buf"
    using assms by (auto simp: tcp_Write_def split: option.splits if_splits)
  obtain m w err evs1 where l: "write_loop (blocking_flag (tc_ip (fst st))) (take buf_len buf) 0 [] evs = Returns (m, w, err, evs1)"
    using assms fd by (cases "write_loop (blocking_flag (tc_ip (fst st))) (take buf_len buf) 0 [] evs") (auto simp: tcp_Write_def)
  note r = assms[unfolded tcp_Write_def fd(1) option.case l bind_sys.simps prod.case]
  have w: "m \<le> buf_len" "w = take m buf" "err = None \<longrightarrow> blocking_flag (tc_ip (fst st)) \<longrightarrow> m = buf_len"
    using write_loop_prefix[OF l] fd(2) by (auto simp: min_absorb1)
  show thesis
  proof (cases err)
    case None
    then have e: "wire = w" "n = m" "st' = st" using r fd(2) by auto
    show thesis by (rule that(1)[of m]) (use w fd(2) e None in simp_all)
  next
    case (Some em)
    then obtain tx where e: "wire = w" "n = 0" "st' = tcp_fail EX_IOERR tx st" using r fd(2) by (auto split: prod.splits)
    show thesis by (rule that(2)[of m]) (use w fd(2) e tcp_fail_changes[of EX_IOERR tx st] in simp_all)
  qed
qed

text \<open>
  C28. Write sends a prefix: whenever Write returns, after whatever short writes and errors of the kernel,
  the bytes that its calls of write(2) put on the wire, one after the other, are a prefix of the caller's
  bytes. Without an error the count returned is the length of that prefix, the whole buffer for a
  blocking object, and nothing else has changed; with an error the count is 0 and the event is set.
\<close>

theorem write_sends_prefix:
  assumes "tcp_Write buf buf_len evs st = Returns (n, wire, evs', st')"
  shows "wire = take (length wire) (take buf_len buf) \<and>
    (if st' = st then n = length wire \<and> n \<le> buf_len \<and> (blocking_flag (tc_ip (fst st)) \<longrightarrow> n = buf_len)
     else n = 0 \<and> event_flag (w_err (snd st')))"
proof -
  have l: "take m buf = take (length (take m buf)) (take buf_len buf)" "length (take m buf) = m"
    if "m \<le> buf_len" "buf_len \<le> length buf" for m using that by (simp_all add: min_absorb1)
  from assms show ?thesis by (rule tcp_Write_loop) (use l in force)+
qed

text \<open>
  Whatever the transport, what goes out is a prefix of what the caller gave, and when no error event
  is set afterwards the value returned is its length, or negative with nothing sent.
\<close>

definition sends_prefix :: "string \<Rightarrow> nat \<Rightarrow> int \<Rightarrow> string \<Rightarrow> bool \<Rightarrow> bool" where
  "sends_prefix buf len r wire failed \<longleftrightarrow> wire = take (length wire) (take len buf)
     \<and> (\<not> failed \<longrightarrow> length wire = nat r \<and> r \<le> int len)"

lemma sends_prefix_Nil [simp]: "sends_prefix buf len r [] failed \<longleftrightarrow> (\<not> failed \<longrightarrow> r \<le> 0)"
  by (auto simp: sends_prefix_def)

lemma tcp_Write_sends_prefix:
  assumes "tcp_Write buf len evs st = Returns (n, wire, evs', st')"
  shows "sends_prefix buf len (int n) wire (event_flag (w_err (snd st')))"
proof -
  have l: "take m buf = take (length (take m buf)) (take len buf)" "length (take m buf) = m"
    if "m \<le> len" "len \<le> length buf" for m using that by (simp_all add: min_absorb1)
  from assms show ?thesis by (rule tcp_Write_loop) (use l in \<open>force simp: sends_prefix_def\<close>)+
qed

text \<open>
  The interface of a transport towards its users, with the law as what they rely on: bad says that an
  error event is set. A user that goes on where the last call stopped sends its buffer in order.
\<close>

locale sender =
  fixes send :: "'s \<Rightarrow> string \<Rightarrow> nat \<Rightarrow> (int \<times> string \<times> 's) sys" and bad :: "'s \<Rightarrow> bool"
  assumes send_law: "send s mem len = Returns (r, wire, s') \<Longrightarrow> sends_prefix mem len r wire (bad s')"
begin

lemma send_good:
  assumes "send s mem len = Returns (r, wire, s')" "\<not> bad s'" "0 \<le> r"
  shows "wire = take (nat r) (take len mem)" "nat r \<le> len" "length wire = nat r"
  using send_law[OF assms(1)] assms(2,3) by (auto simp: sends_prefix_def)

lemma send_continues:
  assumes "send s (drop off mem) (sz - off) = Returns (r, wire, s')" "\<not> bad s'" "0 \<le> r" "off \<le> sz"
  shows "take off mem @ wire = take (off + nat r) mem \<and> off + nat r \<le> sz"
proof -
  have w: "wire = take (nat r) (take (sz - off) (drop off mem))" "nat r \<le> sz - off"
    using send_good[OF assms(1-3)] by simp_all
  have "wire = take (nat r) (drop off mem)" using w by (simp add: min_absorb1)
  then have "take off mem @ wire = take (off + nat r) mem" by (simp add: take_add)
  then show ?thesis using w(2) assms(4) by simp
qed

end

interpretation tcp_sender: sender
  "\<lambda>(evs, st) mem len. bind_sys (tcp_Write mem len evs st) (\<lambda>(n, wire, evs', st'). Returns (int n, wire, evs', st'))"
  "\<lambda>(evs, st). event_flag (w_err (snd st))"
proof unfold_locales
  fix s :: "wr_event list \<times> tcp_st" and mem len r wire s'
  assume a: "(case s of (evs, st) \<Rightarrow> \<lambda>mem len. bind_sys (tcp_Write mem len evs st)
     (\<lambda>(n, wire, evs', st'). Returns (int n, wire, evs', st'))) mem len = Returns (r, wire, s')"
  obtain evs st where s: "s = (evs, st)" by (cases s)
  obtain evs' st' where s': "s' = (evs', st')" by (cases s')
  obtain n where "tcp_Write mem len evs st = Returns (n, wire, evs', st')" "r = int n"
    using a unfolding s s' by (cases "tcp_Write mem len evs st") auto
  with tcp_Write_sends_prefix show "sends_prefix mem len r wire ((\<lambda>(evs, st). event_flag (w_err (snd st))) s')"
    unfolding s' by simp
qed

text \<open>An object with a descriptor that is not open, for the examples.\<close>

definition example_conn :: "bool \<Rightarrow> tcp_st" where
  "example_conn blocking = on_ip (\<lambda>(x, w). (x\<lparr>blocking_flag := blocking\<rparr>, w)) (TCPConn example_world)"

lemma example_conn_facts:
  "blocking_flag (tc_ip (fst (example_conn b))) = b"
  "fd_of (tc_ip (fst (example_conn b))) (snd (example_conn b)) = Some DESCRIPTOR_NULL"
  by (simp_all add: example_conn_def on_ip_def TCPConn_def ip_op_defs)

theorem write_sends_prefix_witness:
  "tcp_Write ''abcd'' 3 [Takes 2, Takes 9] (example_conn True) = Returns (3, ''abc'', [], example_conn True)
    \<and> ''abc'' = take (length ''abc'') (take 3 ''abcd'')"
proof -
  have r: "tcp_Write ''abcd'' 3 [Takes 2, Takes 9] (example_conn True) = Returns (3, ''abc'', [], example_conn True)"
    by (simp add: tcp_Write_def example_conn_facts)
  with write_sends_prefix[OF r] show ?thesis by blast
qed

text \<open>
  Write completes: when the kernel takes at least one byte at each call, a script as long as the
  buffer is enough for Write to return the full length with every byte sent and no error.
\<close>

theorem write_completes:
  assumes "fd_of (tc_ip (fst st)) (snd st) = Some fd" "length evs \<ge> length buf" "evs \<noteq> []"
    "list_all (\<lambda>ev. \<exists>k>0. ev = Takes k) evs"
  shows "\<exists>evs'. tcp_Write buf (length buf) evs st = Returns (length buf, buf, evs', st)"
proof -
  obtain evs' where "write_loop (blocking_flag (tc_ip (fst st))) buf 0 [] evs = Returns (length buf, buf, None, evs')"
    using write_loop_completes[of evs buf 0 _ "[]"] assms(2-4) by auto
  with assms(1) show ?thesis by (simp add: tcp_Write_def)
qed

theorem write_completes_witness:
  "\<exists>evs'. tcp_Write ''abc'' 3 [Takes 2, Takes 1, Takes 1] (example_conn False) = Returns (3, ''abc'', evs', example_conn False)"
  using write_completes[OF example_conn_facts(2)[of False], of "''abc''" "[Takes 2, Takes 1, Takes 1]"]
  by (simp add: numeral_3_eq_3)

section \<open>What the readers promise\<close>

lemma exhaust_data:
  "list_all (\<lambda>s. s \<noteq> []) ss \<Longrightarrow>
   (if length (concat ss) < n then exhaust_loop n (map Data ss @ RdErr EAGAIN m # rest) acc = Returns (acc @ concat ss, False, rest)
    else \<exists>evs'. exhaust_loop n (map Data ss @ RdErr EAGAIN m # rest) acc = Returns (acc @ take n (concat ss), True, evs'))"
proof (induction ss arbitrary: n acc)
  case Nil
  show ?case by (cases n) (simp_all add: exhaust_loop.simps)
next
  case (Cons s ss)
  then have ne: "s \<noteq> []" and IH: "\<And>n acc. if length (concat ss) < n
      then exhaust_loop n (map Data ss @ RdErr EAGAIN m # rest) acc = Returns (acc @ concat ss, False, rest)
      else \<exists>evs'. exhaust_loop n (map Data ss @ RdErr EAGAIN m # rest) acc = Returns (acc @ take n (concat ss), True, evs')"
    by auto
  show ?case
  proof (cases n)
    case 0 then show ?thesis by (simp add: exhaust_loop.simps)
  next
    case (Suc k)
    show ?thesis
    proof (cases "length s \<le> n")
      case True
      then have "exhaust_loop n (map Data (s # ss) @ RdErr EAGAIN m # rest) acc
          = exhaust_loop (n - length s) (map Data ss @ RdErr EAGAIN m # rest) (acc @ s)"
        using ne Suc by (subst exhaust_loop.simps) simp
      then show ?thesis using IH[of "n - length s" "acc @ s"] True by (auto simp: less_diff_conv2 split: if_splits)
    next
      case False
      then have d: "drop (Suc k) s \<noteq> []" "take (Suc k) s \<noteq> []" "length (take (Suc k) s) = n" using Suc ne by auto
      have "exhaust_loop n (map Data (s # ss) @ RdErr EAGAIN m # rest) acc
          = exhaust_loop 0 (Data (drop n s) # map Data ss @ RdErr EAGAIN m # rest) (acc @ take n s)"
        using ne Suc d by (subst exhaust_loop.simps) simp
      also have "\<dots> = Returns (acc @ take n s, True, Data (drop n s) # map Data ss @ RdErr EAGAIN m # rest)"
        by (simp add: exhaust_loop.simps)
      finally show ?thesis using False by simp
    qed
  qed
qed

text \<open>
  C37. ReadExhaustive takes everything that is ready, and mistakes a full buffer for the end of the
  stream: on a non-blocking socket where the data ss is ready and then no more, it returns all of it
  without eof when it is shorter than the buffer; when it fills the buffer it returns the part that
  fits and reports eof (the read with a count of 0), although the peer has not closed.
\<close>

theorem exhaustive_reads_all_or_eof:
  assumes "\<not> blocking_flag (tc_ip (fst st))" "fd_of (tc_ip (fst st)) (snd st) = Some fd" "list_all (\<lambda>s. s \<noteq> []) ss"
  shows "if length (concat ss) < buf_len
     then ReadExhaustive buf_len (map Data ss @ RdErr EAGAIN m # rest) st
       = Returns (int (length (concat ss)), concat ss, Some False, rest, st)
     else \<exists>evs'. ReadExhaustive buf_len (map Data ss @ RdErr EAGAIN m # rest) st
       = Returns (int buf_len, take buf_len (concat ss), Some True, evs', st)"
  using exhaust_data[OF assms(3), of buf_len m rest "[]"] assms(1,2)
  by (auto simp: ReadExhaustive_def min_def split: if_splits)

theorem exhaustive_reads_all_or_eof_witness:
  "\<exists>evs'. ReadExhaustive 3 [Data ''ab'', Data ''c'', RdErr EAGAIN ''try again''] (example_conn False)
    = Returns (3, ''abc'', Some True, evs', example_conn False)"
  using exhaustive_reads_all_or_eof[of "example_conn False" DESCRIPTOR_NULL "[''ab'', ''c'']" 3 "''try again''" "[]"]
  by (simp add: example_conn_facts)

lemma line_loop_data:
  assumes "\<exists>c\<in>set s. line_stop d c"
  shows "line_loop d n (Data s # evs) acc =
    (let line = takeWhile (\<lambda>c. \<not> line_stop d c) s; k = min n (Suc (length line))
     in Returns (acc @ take n line, AtEnd, if drop k s = [] then evs else Data (drop k s) # evs))"
  using assms
proof (induction n arbitrary: s acc)
  case 0
  then show ?case by (auto simp: Let_def)
next
  case (Suc n)
  then obtain c t where s: "s = c # t" by (cases s) auto
  show ?case
  proof (cases "line_stop d c")
    case True
    then show ?thesis by (auto simp: s Let_def)
  next
    case False
    with Suc.prems s have t: "\<exists>c\<in>set t. line_stop d c" by auto
    then have "t \<noteq> []" by auto
    then have "line_loop d (Suc n) (Data s # evs) acc = line_loop d n (Data t # evs) (acc @ [c])"
      using False by (simp add: s)
    then show ?thesis using Suc.IH[OF t, of "acc @ [c]"] False by (simp add: s Let_def)
  qed
qed

text \<open>
  C38. ReadLine takes one line: from a stream that holds a NUL, a carriage return or the delimiter it
  returns the bytes before the first of them, at most buf_len - 1, followed by a NUL in the buffer,
  and leaves the stream after that one byte. A line that ends with CR LF thus leaves its LF, which
  the next call takes for an empty line.
\<close>

theorem readline_takes_line:
  assumes "\<exists>c\<in>set s. line_stop d c" "0 < buf_len" "fd_of (tc_ip (fst st)) (snd st) = Some fd"
  shows "ReadLine d buf_len (Data s # evs) st =
    (let line = take (buf_len - 1) (takeWhile (\<lambda>c. \<not> line_stop d c) s);
         k = min (buf_len - 1) (Suc (length (takeWhile (\<lambda>c. \<not> line_stop d c) s)))
     in Returns (int (length line), line @ [NUL], False, if drop k s = [] then evs else Data (drop k s) # evs, st))"
  using assms line_loop_data[of s d "buf_len - 1" evs "[]"] by (simp add: ReadLine_def Let_def)

theorem readline_takes_line_witness:
  "ReadLine LF 80 [Data (''ok'' @ [CR, LF] @ ''x'')] (example_conn True)
    = Returns (2, ''ok'' @ [NUL], False, [Data (LF # ''x'')], example_conn True)"
  using readline_takes_line[of "''ok'' @ [CR, LF] @ ''x''" LF 80 "example_conn True" DESCRIPTOR_NULL "[]"]
  by (simp add: example_conn_facts line_stop_def Let_def)

end
