(* ===== verification/File_Obj.thy ===== *)
theory File_Obj
  imports Tcp_Conn
begin

text \<open>
  The files of File.h and File.cc: a name, a directory and a shared descriptor, on the same store as
  the sockets. C strings are lists that end at their first NUL or at their end; a parameter that may
  be NULL is an option. The answers of the file system are arguments: \<^verbatim>\<open>open(2)\<close> and
  \<^verbatim>\<open>fopen(3)\<close> give a descriptor, a stream or an error text, \<^verbatim>\<open>stat(2)\<close>
  a size and the owner's execute bit. Logging and the debugging variable max_fd, which nothing reads,
  are left out.
\<close>

section \<open>Paths\<close>

definition FILE_MAX_PATH :: nat where "FILE_MAX_PATH = 4096"
definition FILE_CHUNK_SIZE :: nat where "FILE_CHUNK_SIZE = 4096"

abbreviation SLASH :: char where "SLASH \<equiv> CHR ''/''"

definition is_path_tainted :: "string option \<Rightarrow> bool" where
  "is_path_tainted path = (case path of
      None \<Rightarrow> False
    | Some p \<Rightarrow> \<exists>c\<in>set (c_str p). c = CHR ''`'' \<or> c = CHR ''|'' \<or> c = CHR 0x5C)"

definition is_path_slash_terminated :: "string option \<Rightarrow> bool" where
  "is_path_slash_terminated path = (case path of
      None \<Rightarrow> False
    | Some p \<Rightarrow> c_str p \<noteq> [] \<and> last (c_str p) = SLASH)"

definition charset :: string where "charset = ''abcdefghijklmnopqrstuvwxyz0123456789''"

text \<open>
  A string from the successive values of \<^verbatim>\<open>random(3)\<close>. The loop counts up to the
  length cast to int; for other lengths the buffer is read with bytes that were never written.
\<close>

definition gen_random_string :: "(nat \<Rightarrow> bool) \<Rightarrow> (nat \<Rightarrow> nat) \<Rightarrow> nat \<Rightarrow> string option" where
  "gen_random_string alloc random len =
     (if \<not> alloc (len + 1) then Some []
      else if to_int (int len) \<noteq> int len then None
      else Some (map (\<lambda>i. charset ! (random i mod length charset)) [0..<len]))"

text \<open>\<^verbatim>\<open>std::string::find_last_of\<close> of one character.\<close>

fun find_last_of :: "char \<Rightarrow> string \<Rightarrow> nat option" where
  "find_last_of c [] = None"
| "find_last_of c (x # xs) = (case find_last_of c xs of
      Some i \<Rightarrow> Some (Suc i)
    | None \<Rightarrow> if x = c then Some 0 else None)"

section \<open>The object\<close>

record file_obj =
  fname :: string
  fdir :: string
  fref :: nat

type_synonym file_st = "file_obj \<times> world"

definition File :: "world \<Rightarrow> file_st" where
  "File w = (let (d, w') = new_descriptor w in (\<lparr>fname = [], fdir = [], fref = d\<rparr>, w'))"

definition upd_descriptor :: "nat \<Rightarrow> (descriptor \<Rightarrow> descriptor) \<Rightarrow> world \<Rightarrow> world option" where
  "upd_descriptor r f w = map_option (\<lambda>d. w\<lparr>heap := (heap w)(r \<mapsto> f d)\<rparr>) (heap w r)"

definition file_Close :: "file_obj \<Rightarrow> world \<Rightarrow> world option" where
  "file_Close f w =
     (if fname f = [] then Some (w_fail EX_SOFTWARE ''File::Close(): name is empty'' w)
      else (case heap w (fref f) of
          None \<Rightarrow> None
        | Some d \<Rightarrow>
            if dfp d \<noteq> None then Some (w_fail EX_SOFTWARE ''File::Close(): fp is not NULL'' w)
            else if dfd d = DESCRIPTOR_NULL then Some w
            else if fname f = ''stdin'' then Some w
            else upd_descriptor (fref f) (\<lambda>d. d\<lparr>dfd := DESCRIPTOR_NULL\<rparr>) (w\<lparr>closed := closed w @ [dfd d]\<rparr>)))"

definition Fclose :: "file_obj \<Rightarrow> world \<Rightarrow> world option" where
  "Fclose f w =
     (if fname f = [] then Some (w_fail EX_SOFTWARE ''File::Fclose(): name is empty'' w)
      else (case heap w (fref f) of
          None \<Rightarrow> None
        | Some d \<Rightarrow>
            if dfd d \<noteq> DESCRIPTOR_NULL then Some (w_fail EX_SOFTWARE ''File::Fclose(): fd is not NULL'' w)
            else (case dfp d of
                None \<Rightarrow> Some w
              | Some p \<Rightarrow>
                  if fname f = ''stdin'' then Some w
                  else upd_descriptor (fref f) (\<lambda>d. d\<lparr>dfp := None\<rparr>) (w\<lparr>fclosed := fclosed w @ [p]\<rparr>))))"

text \<open>Giving up a reference, with the name the object has at that moment.\<close>

definition close_either :: "file_obj \<Rightarrow> world \<Rightarrow> world option" where
  "close_either f w = (case heap w (fref f) of
      None \<Rightarrow> None
    | Some d \<Rightarrow> if dfd d \<noteq> DESCRIPTOR_NULL then file_Close f w
                else if dfp d \<noteq> None then Fclose f w else Some w)"

definition file_release :: "file_obj \<Rightarrow> world \<Rightarrow> world option" where
  "file_release f w = release_with (close_either f) (fref f) w"

definition file_destroy :: "file_obj \<Rightarrow> world \<Rightarrow> world option" where
  "file_destroy f w = file_release f w"

definition file_copy :: "file_obj \<Rightarrow> world \<Rightarrow> file_st option" where
  "file_copy src w = map_option (\<lambda>w'. (src, w')) (retain (fref src) w)"

text \<open>The assignment and clear overwrite the name and the directory before they give up the descriptor.\<close>

definition file_assign :: "file_obj \<Rightarrow> file_obj \<Rightarrow> world \<Rightarrow> file_st option" where
  "file_assign f src w =
     (let f1 = f\<lparr>fname := fname src, fdir := fdir src\<rparr> in
      case file_release f1 w of
        None \<Rightarrow> None
      | Some w1 \<Rightarrow> map_option (\<lambda>w2. (f1\<lparr>fref := fref src\<rparr>, w2)) (retain (fref src) w1))"

definition file_clear :: "file_obj \<Rightarrow> world \<Rightarrow> file_st option" where
  "file_clear f w =
     (let f1 = f\<lparr>fname := [], fdir := []\<rparr> in
      case file_release f1 w of
        None \<Rightarrow> None
      | Some w1 \<Rightarrow> (let (d, w2) = new_descriptor w1 in Some (f1\<lparr>fref := d\<rparr>, w2)))"

definition file_equal :: "file_obj \<Rightarrow> file_obj \<Rightarrow> bool" where
  "file_equal f g \<longleftrightarrow> fname f = fname g \<and> fdir f = fdir g"

section \<open>Accessors and mutators\<close>

definition c_nonempty :: "string option \<Rightarrow> bool" where
  "c_nonempty s = (case s of None \<Rightarrow> False | Some t \<Rightarrow> c_str t \<noteq> [])"

definition file_path :: "string option \<Rightarrow> file_obj \<Rightarrow> string" where
  "file_path sandbox f = zfill FILE_MAX_PATH (sn_print FILE_MAX_PATH
     [(if c_nonempty sandbox then c_str (the sandbox) else []) @ c_str (fdir f) @ c_str (fname f)])"

definition file_size :: "(nat \<Rightarrow> int) \<Rightarrow> (int \<Rightarrow> int option) \<Rightarrow> (string \<Rightarrow> (int \<times> bool) option)
    \<Rightarrow> string option \<Rightarrow> file_st \<Rightarrow> int option" where
  "file_size fileno fstat stat sandbox st = (let f = fst st in
     if fname f = [] then Some 0
     else (case heap (snd st) (fref f) of
         None \<Rightarrow> None
       | Some d \<Rightarrow> Some
           (if dfp d \<noteq> None \<or> dfd d \<noteq> DESCRIPTOR_NULL
            then (case fstat (case dfp d of Some p \<Rightarrow> fileno p | None \<Rightarrow> dfd d) of None \<Rightarrow> 0 | Some n \<Rightarrow> n)
            else (case stat (c_str (file_path sandbox f)) of None \<Rightarrow> 0 | Some (n, x) \<Rightarrow> n))))"

text \<open>
  Storing a path in name_: a trailing slash goes, and the part up to the last slash left becomes the
  directory. On an empty string the source looks at the element before the first: undefined.
\<close>

definition split_name :: "string \<Rightarrow> file_obj \<Rightarrow> file_obj \<times> bool" where
  "split_name s f =
     (let n = (if last s = SLASH then butlast s else s) in
      case find_last_of SLASH n of
        Some i \<Rightarrow> (f\<lparr>fdir := take (i + 1) n, fname := drop (i + 1) n\<rparr>, True)
      | None \<Rightarrow> (f\<lparr>fname := n\<rparr>, False))"

definition set_name :: "string option \<Rightarrow> file_st \<Rightarrow> file_st option" where
  "set_name name st = (case name of
      None \<Rightarrow> Some (fst st, w_fail EX_SOFTWARE ''File::set_name(): name is NULL'' (snd st))
    | Some nm \<Rightarrow>
        if is_path_tainted name
        then Some (fst st, w_fail EX_DATAERR ''File::set_name(): path is tainted'' (snd st))
        else (let s = c_str nm; n = (if take 1 s = ''-'' then ''stdin'' else s)
              in if n = [] then None else Some (fst (split_name n (fst st)), snd st)))"

definition set_dir :: "string option \<Rightarrow> file_st \<Rightarrow> file_st" where
  "set_dir dir st = (case dir of
      None \<Rightarrow> (fst st, w_fail EX_SOFTWARE ''File::set_dir(): dir is NULL'' (snd st))
    | Some d \<Rightarrow> ((fst st)\<lparr>fdir := (if is_path_slash_terminated (Some (c_str d)) then c_str d else c_str d @ ''/'')\<rparr>,
                 snd st))"

definition file_set_fd :: "int \<Rightarrow> file_st \<Rightarrow> file_st option" where
  "file_set_fd fd st = (case heap (snd st) (fref (fst st)) of
      None \<Rightarrow> None
    | Some d \<Rightarrow>
        if dfp d \<noteq> None then Some (fst st, w_fail EX_SOFTWARE ''File::set_fd(): fp is not NULL'' (snd st))
        else if dfd d \<noteq> DESCRIPTOR_NULL
        then Some (fst st, w_fail EX_SOFTWARE ''File::set_fd(): fd is not NULL'' (snd st))
        else map_option (Pair (fst st)) (upd_descriptor (fref (fst st)) (\<lambda>d. d\<lparr>dfd := fd\<rparr>) (snd st)))"

definition set_fp :: "nat option \<Rightarrow> file_st \<Rightarrow> file_st option" where
  "set_fp fp st = (case heap (snd st) (fref (fst st)) of
      None \<Rightarrow> None
    | Some d \<Rightarrow>
        if dfd d \<noteq> DESCRIPTOR_NULL
        then Some (fst st, w_fail EX_SOFTWARE ''File::set_fp(): fd is not NULL'' (snd st))
        else if dfp d \<noteq> None then Some (fst st, w_fail EX_SOFTWARE ''File::set_fp(): fp is not NULL'' (snd st))
        else map_option (Pair (fst st)) (upd_descriptor (fref (fst st)) (\<lambda>d. d\<lparr>dfp := fp\<rparr>) (snd st)))"

text \<open>print; show_ptr is how %p shows a stream.\<close>

definition file_print :: "(nat \<Rightarrow> string) \<Rightarrow> file_st \<Rightarrow> string option" where
  "file_print show_ptr st = (let f = fst st in
     map_option (\<lambda>d. zfill FILE_MAX_PATH (sn_print FILE_MAX_PATH
       [c_str (fdir f) @ c_str (fname f) @ (case dfp d of
          Some p \<Rightarrow> '':'' @ show_ptr p
        | None \<Rightarrow> if dfd d \<noteq> DESCRIPTOR_NULL then '':'' @ show_int (dfd d) else [])])) (heap (snd st) (fref f)))"

section \<open>Initialisation\<close>

definition file_Init :: "string option \<Rightarrow> string option \<Rightarrow> file_st \<Rightarrow> file_st option" where
  "file_Init name dir st = (case set_name name st of
      None \<Rightarrow> None
    | Some st1 \<Rightarrow> Some (if dir \<noteq> None then set_dir dir st1 else ((fst st1)\<lparr>fdir := []\<rparr>, snd st1)))"

text \<open>
  InitFromBuf gives the count it returns. The tests for the standard input are prefix tests: a first
  character -, or the letters stdin in any case.
\<close>

definition file_InitFromBuf :: "string option \<Rightarrow> file_st \<Rightarrow> (int \<times> file_st) option" where
  "file_InitFromBuf buf st = (case buf of
      None \<Rightarrow> Some (0, fst st, w_fail EX_SOFTWARE ''File::InitFromBuf(): buf is NULL'' (snd st))
    | Some b \<Rightarrow>
        (let s = c_str b in
         if take 1 s = ''-'' \<or> strncaseeq ''stdin'' s (length ''stdin'')
         then Some (1, (fst st)\<lparr>fname := ''stdin''\<rparr>, snd st)
         else if s = [] then None
         else (let r = split_name s (fst st)
               in Some (int (length s), if snd r then fst r else (fst r)\<lparr>fdir := []\<rparr>, snd st))))"

section \<open>Opening and the file system\<close>

definition file_Open :: "string option \<Rightarrow> int \<Rightarrow> int \<Rightarrow> string + int \<Rightarrow> file_st \<Rightarrow> file_st option" where
  "file_Open sandbox flags mode res st = (let f = fst st; w = snd st in
     case heap w (fref f) of
       None \<Rightarrow> None
     | Some d \<Rightarrow>
         if dfp d \<noteq> None then Some (f, w_fail EX_SOFTWARE ''File::Open(): fp is not NULL'' w)
         else if dfd d \<noteq> DESCRIPTOR_NULL then Some (f, w_fail EX_SOFTWARE ''File::Open(): fd is not NULL'' w)
         else if fname f = [] then Some (f, w_fail EX_SOFTWARE ''File::Open(): name is empty'' w)
         else if fname f = ''stdin'' then map_option (Pair f) (upd_descriptor (fref f) (\<lambda>d. d\<lparr>dfd := 0\<rparr>) w)
         else (case res of
             Inl e \<Rightarrow> map_option (\<lambda>w1. (f, w_fail EX_IOERR (''File::Open('' @ c_str (file_path sandbox f) @ '', ''
                 @ show_int flags @ '', '' @ show_int mode @ '') failed: '' @ e) w1))
               (upd_descriptor (fref f) (\<lambda>d. d\<lparr>dfd := - 1\<rparr>) w)
           | Inr fd \<Rightarrow> map_option (Pair f) (upd_descriptor (fref f) (\<lambda>d. d\<lparr>dfd := fd\<rparr>) w)))"

definition STDIN_FP :: nat where "STDIN_FP = 0"

definition Fopen :: "string option \<Rightarrow> string \<Rightarrow> string + nat \<Rightarrow> file_st \<Rightarrow> file_st option" where
  "Fopen sandbox mode res st = (let f = fst st; w = snd st in
     if fname f = [] then Some (f, w_fail EX_SOFTWARE ''File::Fopen(): name is empty'' w)
     else (case heap w (fref f) of
       None \<Rightarrow> None
     | Some d \<Rightarrow>
         if dfd d \<noteq> DESCRIPTOR_NULL then Some (f, w_fail EX_SOFTWARE ''File::Fopen(): fd is not NULL'' w)
         else if dfp d \<noteq> None then Some (f, w)
         else if fname f = ''stdin'' then map_option (Pair f) (upd_descriptor (fref f) (\<lambda>d. d\<lparr>dfp := Some STDIN_FP\<rparr>) w)
         else (case res of
             Inl e \<Rightarrow> map_option (\<lambda>w1. (f, w_fail EX_IOERR (''File::Fopen('' @ c_str (file_path sandbox f) @ '', ''
                 @ c_str mode @ '') failed: '' @ e) w1))
               (upd_descriptor (fref f) (\<lambda>d. d\<lparr>dfp := None\<rparr>) w)
           | Inr p \<Rightarrow> map_option (Pair f) (upd_descriptor (fref f) (\<lambda>d. d\<lparr>dfp := Some p\<rparr>) w))))"

definition close_if_open :: "file_obj \<Rightarrow> world \<Rightarrow> world option" where
  "close_if_open f w = (case heap w (fref f) of
      None \<Rightarrow> None
    | Some d \<Rightarrow> if dfp d \<noteq> None then Fclose f w
                else if dfd d \<noteq> DESCRIPTOR_NULL then file_Close f w else Some w)"

definition Unlink :: "string option \<Rightarrow> string option \<Rightarrow> file_st \<Rightarrow> file_st option" where
  "Unlink sandbox res st = (let f = fst st in
     if fname f = [] then Some (f, w_fail EX_SOFTWARE ''File::Unlink(): name is empty'' (snd st))
     else map_option (\<lambda>w. (f, case res of
         None \<Rightarrow> w
       | Some e \<Rightarrow> w_fail EX_IOERR (''File::Unlink(): unlink('' @ c_str (file_path sandbox f) @ '') failed: '' @ e) w))
       (close_if_open f (snd st)))"

definition Rename :: "string option \<Rightarrow> string option \<Rightarrow> string option \<Rightarrow> string option \<Rightarrow> file_st \<Rightarrow> file_st option" where
  "Rename sandbox newname newdir res st = (let f = fst st in
     if fname f = [] then Some (f, w_fail EX_SOFTWARE ''File::Rename(): name is empty'' (snd st))
     else (case close_if_open f (snd st) of
       None \<Rightarrow> None
     | Some w \<Rightarrow>
         (let old = file_path sandbox f;
              f1 = (if c_nonempty newname then f\<lparr>fname := c_str (the newname)\<rparr> else f);
              f2 = (if c_nonempty newdir
                    then f1\<lparr>fdir := (let d = c_str (the newdir) in if is_path_slash_terminated (Some d) then d else d @ ''/'')\<rparr>
                    else f1)
          in Some (f2, case res of
               None \<Rightarrow> w
             | Some e \<Rightarrow> w_fail EX_IOERR (''File::Rename(): rename('' @ c_str old @ '','' @ c_str (file_path sandbox f2)
                 @ '') failed: '' @ e) w))))"

subsection \<open>Copying\<close>

text \<open>
  The inner loop of Copy over one chunk: m is the result of the last \<^verbatim>\<open>write(2)\<close>, and
  the next call writes from offset m the bytes that are left when m is subtracted from the whole. A
  count of 0 is answered at once. What goes to the file is collected in out.
\<close>

fun copy_chunk :: "string \<Rightarrow> nat \<Rightarrow> string \<Rightarrow> wr_event list \<Rightarrow> (string \<times> string option \<times> wr_event list) sys" where
  "copy_chunk chunk m out [] = (if length chunk - m = 0 then Returns (out, None, []) else Blocks)"
| "copy_chunk chunk m out (ev # evs) =
     (if length chunk - m = 0 then Returns (out, None, ev # evs)
      else (case ev of
          WrErr e t \<Rightarrow> Returns (out, Some t, evs)
        | Takes k \<Rightarrow>
            (let n = min k (length chunk - m)
             in if n = 0 then Returns (out, None, evs)
                else copy_chunk chunk n (out @ take n (drop m chunk)) evs)))"

datatype copy_end = Copied | ReadErr string | WriteErr string nat

fun data_left :: "rd_event list \<Rightarrow> nat" where
  "data_left [] = 0"
| "data_left (Data s # evs) = length s + data_left evs"
| "data_left (Eof # evs) = data_left evs"
| "data_left (RdErr e m # evs) = data_left evs"

lemma sys_read_data_left:
  "sys_read k evs = Returns (r, evs') \<Longrightarrow> data_left evs' \<le> data_left evs \<and>
     (\<forall>s. r = Inr s \<longrightarrow> s \<noteq> [] \<longrightarrow> data_left evs' < data_left evs)"
  by (induction k evs rule: sys_read.induct) (auto split: if_splits)

function copy_loop :: "string \<Rightarrow> rd_event list \<Rightarrow> wr_event list \<Rightarrow> (string \<times> copy_end) sys" where
  "copy_loop out rds wrs = (case sys_read FILE_CHUNK_SIZE rds of
      Blocks \<Rightarrow> Blocks
    | Undefined \<Rightarrow> Undefined
    | Returns (Inl (e, t), _) \<Rightarrow> Returns (out, ReadErr t)
    | Returns (Inr chunk, rds') \<Rightarrow>
        if chunk = [] then Returns (out, Copied)
        else (case copy_chunk chunk 0 out wrs of
            Blocks \<Rightarrow> Blocks
          | Undefined \<Rightarrow> Undefined
          | Returns (out', Some t, wrs') \<Rightarrow> Returns (out', WriteErr t (length chunk))
          | Returns (out', None, wrs') \<Rightarrow> copy_loop out' rds' wrs'))"
  by pat_completeness auto
termination
  by (relation "measure (\<lambda>(out, rds, wrs). data_left rds)") (auto dest: sys_read_data_left)

declare copy_loop.simps [simp del]

text \<open>
  Copy. The copy is a local object: it is destroyed on every return, which closes it after an error.
  An error of Init or Open of the copy is not looked at. The result is what was written and the state.
\<close>

definition Copy :: "string + int \<Rightarrow> string option \<Rightarrow> string option \<Rightarrow> string option
    \<Rightarrow> rd_event list \<Rightarrow> wr_event list \<Rightarrow> file_st \<Rightarrow> (string \<times> file_st) sys" where
  "Copy open_res sandbox newname newdir rds wrs st = (let f = fst st in
     case heap (snd st) (fref f) of
       None \<Rightarrow> Undefined
     | Some d \<Rightarrow>
         if dfd d = DESCRIPTOR_NULL
         then Returns ([], f, w_fail EX_SOFTWARE ''File::Copy(): fd is NULL'' (snd st))
         else (let c0 = File (snd st) in
           if \<not> c_nonempty newname \<and> \<not> c_nonempty newdir
           then of_opt (map_option (\<lambda>w. ([], f, w))
             (file_destroy (fst c0) (w_fail EX_SOFTWARE ''File::Copy(): newname and newdir were NULL.'' (snd c0))))
           else bind_sys (of_opt (if c_nonempty newname then file_Init newname (Some (fdir f)) c0
                                  else file_Init (Some (fname f)) newdir c0)) (\<lambda>c1.
             bind_sys (of_opt (file_Open sandbox 577 484 open_res c1)) (\<lambda>c2.
             bind_sys (copy_loop [] rds wrs) (\<lambda>(out, e). case e of
               Copied \<Rightarrow> of_opt (case file_Close (fst c2) (snd c2) of
                   None \<Rightarrow> None
                 | Some w \<Rightarrow> map_option (\<lambda>w'. (out, f, w')) (file_destroy (fst c2) w))
             | ReadErr t \<Rightarrow> of_opt (map_option (\<lambda>w'. (out, f, w')) (file_destroy (fst c2)
                   (w_fail EX_IOERR (''File::Copy(): read('' @ c_str (file_path sandbox f) @ '') failed: '' @ t) (snd c2))))
             | WriteErr t n \<Rightarrow> of_opt (map_option (\<lambda>w'. (out, f, w')) (file_destroy (fst c2)
                   (w_fail EX_IOERR (''File::Copy(): write('' @ c_str (file_path sandbox (fst c2)) @ '','' @ show_nat n
                      @ '') failed: '' @ t) (snd c2)))))))))"

section \<open>Tests\<close>

definition file_IsOpen :: "file_st \<Rightarrow> bool option" where
  "file_IsOpen st = map_option (\<lambda>d. dfp d \<noteq> None \<or> dfd d \<noteq> DESCRIPTOR_NULL) (heap (snd st) (fref (fst st)))"

definition IsStdin :: "file_st \<Rightarrow> bool option" where
  "IsStdin st = map_option
     (\<lambda>d. dfp d = Some STDIN_FP \<or> dfd d = 0 \<or> fname (fst st) = ''-'' \<or> fname (fst st) = ''stdin'')
     (heap (snd st) (fref (fst st)))"

definition IsExecutable :: "(string \<Rightarrow> (int \<times> bool) option) \<Rightarrow> string option \<Rightarrow> file_obj \<Rightarrow> bool" where
  "IsExecutable stat sandbox f =
     (if fname f = [] then False
      else (case stat (c_str (file_path sandbox f)) of None \<Rightarrow> False | Some (n, x) \<Rightarrow> x))"

definition Exists :: "(string \<Rightarrow> (int \<times> bool) option) \<Rightarrow> string option \<Rightarrow> file_obj \<Rightarrow> bool" where
  "Exists stat sandbox f =
     (if fname f = [] then False else stat (c_str (file_path sandbox f)) \<noteq> None)"

section \<open>Error events\<close>

text \<open>Closing and destroying keep an error event.\<close>

lemma file_close_event:
  "file_Close f w = Some w' \<Longrightarrow> event_flag (w_err w) \<Longrightarrow> event_flag (w_err w')"
  "Fclose f w = Some w' \<Longrightarrow> event_flag (w_err w) \<Longrightarrow> event_flag (w_err w')"
  by (auto simp: file_Close_def Fclose_def w_fail_def upd_descriptor_def split: if_splits option.splits)

lemma file_destroy_event:
  "file_destroy f w = Some w' \<Longrightarrow> event_flag (w_err w) \<Longrightarrow> event_flag (w_err w')"
  by (auto simp: file_destroy_def file_release_def release_with_def close_either_def Let_def
      split: option.splits if_splits dest!: file_close_event)

section \<open>Names\<close>

lemma find_last_of_None: "find_last_of c s = None \<longleftrightarrow> c \<notin> set s"
  by (induction s) (auto split: option.splits)

lemma find_last_of_SomeD:
  "find_last_of c s = Some i \<Longrightarrow> i < length s \<and> s ! i = c \<and> c \<notin> set (drop (Suc i) s)"
  by (induction s arbitrary: i) (auto simp: find_last_of_None split: option.splits if_splits)

text \<open>The last component of a path: what follows its last slash, all of it when there is none.\<close>

definition last_component :: "string \<Rightarrow> string" where
  "last_component p = rev (takeWhile (\<lambda>c. c \<noteq> SLASH) (rev p))"

lemma last_component_append:
  "SLASH \<notin> set n \<Longrightarrow> last_component (d @ SLASH # n) = n" "SLASH \<notin> set n \<Longrightarrow> last_component n = n"
proof -
  assume "SLASH \<notin> set n"
  then have n: "\<And>c. c \<in> set (rev n) \<Longrightarrow> c \<noteq> SLASH" by auto
  have "takeWhile (\<lambda>c. c \<noteq> SLASH) (rev n) = rev n" using takeWhile_eq_all_conv[of "\<lambda>c. c \<noteq> SLASH" "rev n"] n by blast
  then show "last_component n = n" by (simp only: last_component_def rev_rev_ident)
  show "last_component (d @ SLASH # n) = n"
    using takeWhile_append2[where P = "\<lambda>c. c \<noteq> SLASH" and xs = "rev n" and ys = "SLASH # rev d"] n by (simp add: last_component_def)
qed

text \<open>
  C33. A path round-trips: a path below the path limit that is not empty, does not end in a slash and
  does not begin with a hyphen or with stdin (in whatever case), which stand for the standard input, is
  stored by InitFromBuf as its directory and its last component; InitFromBuf returns the length of the
  path and no error, and path gives the path back.
\<close>

theorem path_roundtrip:
  assumes "no_nul p" "p \<noteq> []" "last p \<noteq> SLASH" "length p < FILE_MAX_PATH"
    "hd p \<noteq> CHR ''-''" "\<not> strncaseeq ''stdin'' p (length ''stdin'')"
  shows "\<exists>f. file_InitFromBuf (Some p) st = Some (int (length p), f, snd st)
    \<and> c_str (file_path None f) = p \<and> fname f = last_component p \<and> fdir f @ fname f = p
    \<and> SLASH \<notin> set (fname f) \<and> fname f \<noteq> []"
proof -
  have t: "take 1 p \<noteq> ''-''" using assms(2,5) by (cases p) auto
  have pth: "c_str (file_path None f) = p" if "fdir f @ fname f = p" for f
  proof -
    have "no_nul (fdir f)" "no_nul (fname f)" using that assms(1) by auto
    then show ?thesis using that assms(1,4)
      by (simp add: file_path_def c_nonempty_def sn_print_concat)
  qed
  show ?thesis
  proof (cases "find_last_of SLASH p")
    case None
    let ?f = "(fst st)\<lparr>fname := p, fdir := []\<rparr>"
    have "file_InitFromBuf (Some p) st = Some (int (length p), ?f, snd st)"
      using assms t None by (simp add: file_InitFromBuf_def split_name_def)
    then show ?thesis using None assms(2) pth[of ?f] by (auto simp: find_last_of_None last_component_append)
  next
    case (Some i)
    let ?f = "(fst st)\<lparr>fdir := take (i + 1) p, fname := drop (i + 1) p\<rparr>"
    note i = find_last_of_SomeD[OF Some]
    have "file_InitFromBuf (Some p) st = Some (int (length p), ?f, snd st)"
      using assms t Some by (simp add: file_InitFromBuf_def split_name_def)
    moreover have "drop (i + 1) p \<noteq> []"
    proof
      assume "drop (i + 1) p = []"
      then have "i = length p - 1" using i by auto
      then show False using i assms(2,3) by (simp add: last_conv_nth)
    qed
    moreover have "last_component p = drop (i + 1) p"
      using last_component_append(1)[of "drop (i + 1) p" "take i p"] i id_take_nth_drop[of i p] by simp
    ultimately show ?thesis using i pth[of ?f] by auto
  qed
qed

theorem path_roundtrip_witness:
  "\<exists>f. file_InitFromBuf (Some ''etc/hosts'') (File example_world) = Some (9, f, snd (File example_world))
    \<and> c_str (file_path None f) = ''etc/hosts'' \<and> fname f = ''hosts''"
proof -
  have "last_component ''etc/hosts'' = ''hosts''" by (simp add: last_component_def)
  moreover have "\<exists>f. file_InitFromBuf (Some ''etc/hosts'') (File example_world) = Some (9, f, snd (File example_world))
      \<and> c_str (file_path None f) = ''etc/hosts'' \<and> fname f = last_component ''etc/hosts''"
    using path_roundtrip[of "''etc/hosts''" "File example_world"]
    by (auto simp: FILE_MAX_PATH_def strncaseeq_def tolower_def)
  ultimately show ?thesis by simp
qed

section \<open>Descriptors lost\<close>

lemma release_with_last:
  assumes "heap w r = Some d" "dcnt d = 1" "r < next_ref w"
  shows "release_with close_it r w = map_option (\<lambda>w2. w2\<lparr>heap := (heap w2)(r := None)\<rparr>)
      (close_it (w\<lparr>heap := (heap w)(r \<mapsto> d\<lparr>dcnt := 0\<rparr>)\<rparr>))"
  using assms by (simp add: release_with_def)

text \<open>
  clear loses the descriptor of an open file: on the last object of an open file, the destructor
  closes the descriptor without an error; clear instead, which empties the name first, sets an error
  event, deletes the descriptor object and closes nothing, so the number is neither held nor closed.
\<close>

theorem clear_leaks_descriptor:
  assumes "heap w (fref f) = Some d" "dcnt d = 1" "dfp d = None" "dfd d \<noteq> DESCRIPTOR_NULL"
    "fref f < next_ref w" "fname f \<noteq> []" "fname f \<noteq> ''stdin''"
  shows "(\<exists>w1. file_destroy f w = Some w1 \<and> closed w1 = closed w @ [dfd d] \<and> all_fds w1 = all_fds w \<and> w_err w1 = w_err w)
    \<and> (\<exists>f2 w2. file_clear f w = Some (f2, w2) \<and> closed w2 = closed w \<and> all_fds w = add_mset (dfd d) (all_fds w2)
         \<and> event_flag (w_err w2))"
proof -
  let ?r = "fref f"
  let ?w0 = "w\<lparr>heap := (heap w)(?r \<mapsto> d\<lparr>dcnt := 0\<rparr>)\<rparr>"
  have h: "held (w\<lparr>heap := (heap w)(?r := None)\<rparr>) + {#dfd d#} = held w"
    using held_update[OF assms(5), of None] assms(1,4) by simp
  let ?w1 = "w\<lparr>closed := closed w @ [dfd d], heap := (heap w)(?r := None)\<rparr>"
  have d: "file_destroy f w = Some ?w1"
    using assms by (simp add: file_destroy_def file_release_def release_with_last close_either_def file_Close_def
        upd_descriptor_def)
  have h1: "held ?w1 = held (w\<lparr>heap := (heap w)(?r := None)\<rparr>)" by (simp add: held_def)
  have a1: "all_fds ?w1 = all_fds w" unfolding all_fds_def h1 h[symmetric] by simp
  let ?w2 = "w_fail EX_SOFTWARE ''File::Close(): name is empty'' w\<lparr>heap := (heap w)(?r := None)\<rparr>"
  have c: "file_clear f w = Some (f\<lparr>fname := [], fdir := [], fref := fst (new_descriptor ?w2)\<rparr>, snd (new_descriptor ?w2))"
    using assms by (simp add: file_clear_def file_release_def release_with_last close_either_def file_Close_def w_fail_def
        new_descriptor_def)
  have n: "closed (snd (new_descriptor ?w2)) = closed w" "event_flag (w_err (snd (new_descriptor ?w2)))"
    by (simp_all add: new_descriptor_def w_fail_def)
  have "held (snd (new_descriptor ?w2)) = held (w\<lparr>heap := (heap w)(?r := None)\<rparr>)"
    by (simp add: held_def new_descriptor_def w_fail_def)
  then have "all_fds w = add_mset (dfd d) (all_fds (snd (new_descriptor ?w2)))"
    unfolding all_fds_def n(1) h[symmetric] by simp
  then show ?thesis using d a1 c n by auto
qed

definition example_file :: file_st where
  "example_file = (let (f, w) = File example_world
     in (f\<lparr>fname := ''log''\<rparr>, w\<lparr>heap := (heap w)(fref f \<mapsto> \<lparr>dfd = 5, dfp = None, dcnt = 1\<rparr>)\<rparr>))"

lemma example_file_facts:
  "heap (snd example_file) (fref (fst example_file)) = Some \<lparr>dfd = 5, dfp = None, dcnt = 1\<rparr>"
  "fref (fst example_file) < next_ref (snd example_file)" "fname (fst example_file) = ''log''"
  "fdir (fst example_file) = []"
  by (simp_all add: example_file_def File_def new_descriptor_def)

theorem clear_leaks_descriptor_witness:
  "\<exists>f2 w2. file_clear (fst example_file) (snd example_file) = Some (f2, w2) \<and> closed w2 = closed (snd example_file)
     \<and> all_fds (snd example_file) = add_mset 5 (all_fds w2) \<and> event_flag (w_err w2)"
  using clear_leaks_descriptor[OF example_file_facts(1) _ _ _ example_file_facts(2)] example_file_facts
  by (simp add: DESCRIPTOR_NULL_def)

section \<open>What Copy writes\<close>

lemma copy_chunk_full:
  "length chunk \<le> k \<Longrightarrow> chunk \<noteq> [] \<Longrightarrow> copy_chunk chunk 0 out (Takes k # evs) = Returns (out @ chunk, None, evs)"
  by (cases evs) (auto simp: Let_def)

lemma sys_read_whole: "0 < k \<Longrightarrow> s \<noteq> [] \<Longrightarrow> length s \<le> k \<Longrightarrow> sys_read k (Data s # evs) = Returns (Inr s, evs)"
  by (cases k) auto

lemma chunk_size_pos: "0 < FILE_CHUNK_SIZE"
  by (simp add: FILE_CHUNK_SIZE_def)

lemma copy_chunk_stuck:
  "0 < m \<Longrightarrow> m < length chunk \<Longrightarrow> list_all (\<lambda>ev. \<exists>k\<ge>length chunk. ev = Takes k) evs
    \<Longrightarrow> copy_chunk chunk m out evs = Blocks"
proof (induction evs arbitrary: m out)
  case (Cons ev evs)
  then obtain k where k: "ev = Takes k" "length chunk \<le> k" by auto
  let ?n = "length chunk - m"
  have "min k ?n = ?n" "0 < ?n" "?n < length chunk" using k Cons.prems by auto
  then show ?case using Cons.IH[of ?n] Cons.prems k by (simp add: Let_def)
qed simp

text \<open>
  C39. Copy and short writes. When every write takes the whole chunk, the copy gets exactly the data
  read up to the end of the file. After one short write of a chunk the inner loop never ends,
  however often the kernel takes all it is given: it goes on writing parts of the chunk it has
  already written.
\<close>

theorem copy_exact_or_stuck:
  assumes "list_all (\<lambda>s. s \<noteq> [] \<and> length s \<le> FILE_CHUNK_SIZE) chunks"
    "list_all (\<lambda>ev. \<exists>k\<ge>FILE_CHUNK_SIZE. ev = Takes k) wrs" "length wrs = length chunks"
    "0 < j" "j < length chunk" "length chunk \<le> FILE_CHUNK_SIZE"
  shows "copy_loop out (map Data chunks @ [Eof]) wrs = Returns (out @ concat chunks, Copied)
    \<and> copy_loop out (Data chunk # rds) (Takes j # wrs) = Blocks"
proof
  show "copy_loop out (map Data chunks @ [Eof]) wrs = Returns (out @ concat chunks, Copied)"
    using assms(1-3)
  proof (induction chunks arbitrary: out wrs)
    case Nil
    then show ?case by (subst copy_loop.simps) (simp add: FILE_CHUNK_SIZE_def numeral_eq_Suc)
  next
    case (Cons s ss)
    then obtain k wrs' where w: "wrs = Takes k # wrs'" "FILE_CHUNK_SIZE \<le> k" by (cases wrs) auto
    from Cons.prems have s: "s \<noteq> []" "length s \<le> FILE_CHUNK_SIZE" by auto
    have r: "sys_read FILE_CHUNK_SIZE (Data s # map Data ss @ [Eof]) = Returns (Inr s, map Data ss @ [Eof])"
      using sys_read_whole s chunk_size_pos by simp
    have "copy_chunk s 0 out wrs = Returns (out @ s, None, wrs')" using w s copy_chunk_full by auto
    then have "copy_loop out (map Data (s # ss) @ [Eof]) wrs = copy_loop (out @ s) (map Data ss @ [Eof]) wrs'"
      using r s by (subst copy_loop.simps) simp
    then show ?case using Cons.IH[of wrs' "out @ s"] Cons.prems w by simp
  qed
next
  have c: "chunk \<noteq> []" using assms(5) by auto
  have r: "sys_read FILE_CHUNK_SIZE (Data chunk # rds) = Returns (Inr chunk, rds)"
    using sys_read_whole assms(6) c chunk_size_pos by simp
  have all: "list_all (\<lambda>ev. \<exists>k\<ge>length chunk. ev = Takes k) wrs"
    using assms(2,6) by (auto simp: list_all_iff intro: order_trans)
  have "copy_chunk chunk 0 out (Takes j # wrs) = copy_chunk chunk j (out @ take j chunk) wrs"
    using assms(4,5) c by (simp add: Let_def)
  also have "\<dots> = Blocks" using copy_chunk_stuck[OF assms(4,5) all] .
  finally show "copy_loop out (Data chunk # rds) (Takes j # wrs) = Blocks"
    using r c by (subst copy_loop.simps) simp
qed

theorem copy_exact_or_stuck_witness:
  "copy_loop [] (map Data [''ab'', ''c''] @ [Eof]) [Takes 5000, Takes 5000] = Returns (''abc'', Copied)
    \<and> copy_loop [] [Data ''abc''] [Takes 1, Takes 5000, Takes 5000] = Blocks"
  using copy_exact_or_stuck[of "[''ab'', ''c'']" "[Takes 5000, Takes 5000]" 1 "''abc''" "[]" "[]"]
  by (simp add: FILE_CHUNK_SIZE_def)

end
