(* ===== verification/File_Refs.thy ===== *)
theory File_Refs
  imports File_Obj Ip_Refs
begin

text \<open>
  Programs over File objects. The operations that share, open, close and give up a descriptor are a
  step relation on the live objects and the world, as for the connections; a file has two kinds of
  resource, the descriptors of \<^verbatim>\<open>open(2)\<close> and the streams of \<^verbatim>\<open>fopen(3)\<close>, which are
  counted together. The theory interprets the store's interface for files and shows that in such a
  program every descriptor and every stream is closed exactly once.
\<close>

section \<open>The store, for files\<close>

datatype resource = Fd int | Stream nat

fun cell_res :: "descriptor option \<Rightarrow> resource multiset" where
  "cell_res None = {#}"
| "cell_res (Some d) = (if dfd d = DESCRIPTOR_NULL then {#} else {#Fd (dfd d)#})
     + (case dfp d of None \<Rightarrow> {#} | Some p \<Rightarrow> {#Stream p#})"

definition given_res :: "world \<Rightarrow> resource multiset" where
  "given_res w = mset (map Fd (closed w)) + mset (map Stream (fclosed w))"

abbreviation all_res :: "world \<Rightarrow> resource multiset" where
  "all_res \<equiv> total_of cell_res given_res"

text \<open>A descriptor of a file has a number or a stream, not both.\<close>

definition one_kind :: "descriptor \<Rightarrow> bool" where
  "one_kind d \<longleftrightarrow> dfd d = DESCRIPTOR_NULL \<or> dfp d = None"

abbreviation file_inv :: "nat multiset \<Rightarrow> world \<Rightarrow> bool" where
  "file_inv \<equiv> store_good one_kind"

text \<open>A file that Close and Fclose do close: it has a name, and the name is not that of the standard input.\<close>

definition named :: "file_obj \<Rightarrow> bool" where
  "named f \<longleftrightarrow> fname f \<noteq> [] \<and> fname f \<noteq> ''stdin''"

lemma given_res_simps [simp]:
  "given_res (w\<lparr>heap := h\<rparr>) = given_res w" "given_res (w\<lparr>next_ref := k\<rparr>) = given_res w" "given_res (w\<lparr>w_err := e\<rparr>) = given_res w"
  "given_res (w\<lparr>closed := closed w @ [fd]\<rparr>) = add_mset (Fd fd) (given_res w)"
  "given_res (w\<lparr>fclosed := fclosed w @ [p]\<rparr>) = add_mset (Stream p) (given_res w)"
  by (simp_all add: given_res_def)

lemma all_res_frame [simp]: "all_res (w\<lparr>w_err := e\<rparr>) = all_res w"
  by (simp add: total_of_def)

lemma all_res_update:
  "r < next_ref w \<Longrightarrow> heap w r = Some d \<Longrightarrow> all_res (w\<lparr>heap := (heap w)(r := x)\<rparr>) + cell_res (Some d) = all_res w + cell_res x"
  using sum_cell_update[of r "next_ref w" cell_res "heap w" x] by (simp add: total_of_def ac_simps)

lemma close_either_closes:
  assumes "named f" shows "closes one_kind cell_res given_res (close_either f) (fref f)"
  unfolding closes_def
proof (intro allI impI)
  fix w :: world and d assume a: "heap w (fref f) = Some d" "fref f < next_ref w" "DESCRIPTOR_NULL \<le> dfd d" "one_kind d"
  have n: "fname f \<noteq> []" "fname f \<noteq> ''stdin''" using assms by (simp_all add: named_def)
  show "\<exists>w2 d2. close_either f w = Some w2 \<and> heap w2 = (heap w)(fref f \<mapsto> d2) \<and> cell_res (Some d2) = {#}
        \<and> next_ref w2 = next_ref w \<and> all_res w2 = all_res w"
  proof (cases "dfd d = DESCRIPTOR_NULL")
    case False
    let ?d2 = "d\<lparr>dfd := DESCRIPTOR_NULL\<rparr>"
    have p: "dfp d = None" using a(4) False by (simp add: one_kind_def)
    let ?w2 = "w\<lparr>closed := closed w @ [dfd d], heap := (heap w)(fref f \<mapsto> ?d2)\<rparr>"
    have "all_res (w\<lparr>heap := (heap w)(fref f \<mapsto> ?d2)\<rparr>) + {#Fd (dfd d)#} = all_res w"
      using all_res_update[OF a(2,1), of "Some ?d2"] False p by simp
    then have "all_res ?w2 = all_res w" by (simp add: total_of_def)
    moreover have "close_either f w = Some ?w2"
      using a(1) n p False by (simp add: close_either_def file_Close_def upd_descriptor_def)
    ultimately show ?thesis using p by (intro exI[of _ ?w2] exI[of _ ?d2]) simp
  next
    case fd: True
    show ?thesis
    proof (cases "dfp d")
      case None
      then show ?thesis using fd a(1) by (intro exI[of _ w] exI[of _ d]) (auto simp: close_either_def)
    next
      case (Some p)
      let ?d2 = "d\<lparr>dfp := None\<rparr>"
      let ?w2 = "w\<lparr>fclosed := fclosed w @ [p], heap := (heap w)(fref f \<mapsto> ?d2)\<rparr>"
      have "all_res (w\<lparr>heap := (heap w)(fref f \<mapsto> ?d2)\<rparr>) + {#Stream p#} = all_res w"
        using all_res_update[OF a(2,1), of "Some ?d2"] fd Some by simp
      then have "all_res ?w2 = all_res w" by (simp add: total_of_def)
      moreover have "close_either f w = Some ?w2"
        using a(1) n fd Some by (simp add: close_either_def Fclose_def upd_descriptor_def)
      ultimately show ?thesis using fd by (intro exI[of _ ?w2] exI[of _ ?d2]) simp
    qed
  qed
qed

interpretation file_store: counted_store one_kind cell_res given_res close_either fref named
proof unfold_locales
  show "cell_res (Some (d\<lparr>dcnt := n\<rparr>)) = cell_res (Some d)" for d n by (auto split: option.splits)
qed (simp_all add: one_kind_def close_either_closes)

interpretation fs: descriptor_store file_inv all_res new_descriptor retain file_release fref named
  by unfold_locales
     (simp_all add: file_store.new_descriptor_law file_store.retain_law file_store.release_law file_release_def)

section \<open>What the operations do to the store\<close>

lemma store_good_world [simp]:
  "store_good good R (w\<lparr>w_err := e\<rparr>) = store_good good R w" "store_good good R (w\<lparr>closed := c\<rparr>) = store_good good R w"
  "store_good good R (w\<lparr>fclosed := ps\<rparr>) = store_good good R w"
  by (simp_all add: store_good_def)

lemma file_cell:
  assumes "file_inv R w" "r \<in># R"
  obtains d where "heap w r = Some d" "r < next_ref w" "one_kind d" "DESCRIPTOR_NULL \<le> dfd d" "dcnt d = count R r"
  using assms store_inv_mem[of R w r] by (auto simp: store_good_def)

lemma cell_set:
  assumes "file_inv R w" "r \<in># R" "heap w r = Some d" "one_kind d'" "dcnt d' = dcnt d" "DESCRIPTOR_NULL \<le> dfd d'"
  shows "file_inv R (w\<lparr>heap := (heap w)(r \<mapsto> d')\<rparr>)"
    and "all_res (w\<lparr>heap := (heap w)(r \<mapsto> d')\<rparr>) + cell_res (Some d) = all_res w + cell_res (Some d')"
proof -
  have c: "r < next_ref w" "dcnt d = count R r" "0 < count R r" using file_cell[OF assms(1,2)] assms(2,3) by auto
  show "all_res (w\<lparr>heap := (heap w)(r \<mapsto> d')\<rparr>) + cell_res (Some d) = all_res w + cell_res (Some d')"
    by (rule all_res_update[OF c(1) assms(3)])
  have "store_inv R (w\<lparr>heap := (heap w)(r \<mapsto> d')\<rparr>)"
    using assms c by (intro store_inv_update) (auto simp: store_good_def)
  then show "file_inv R (w\<lparr>heap := (heap w)(r \<mapsto> d')\<rparr>)" using assms(1,4) by (auto simp: store_good_def)
qed

lemma all_res_lists [simp]:
  "closed w = cs \<Longrightarrow> all_res (w\<lparr>closed := cs @ [fd]\<rparr>) = add_mset (Fd fd) (all_res w)"
  "fclosed w = ps \<Longrightarrow> all_res (w\<lparr>fclosed := ps @ [p]\<rparr>) = add_mset (Stream p) (all_res w)"
  by (auto simp: total_of_def)

lemma heap_first:
  "w\<lparr>closed := c, heap := h\<rparr> = w\<lparr>heap := h, closed := c\<rparr>" for w :: world
  by simp

lemma heap_first_streams:
  "w\<lparr>fclosed := c, heap := h\<rparr> = w\<lparr>heap := h, fclosed := c\<rparr>" for w :: world
  by simp

lemma file_Close_law:
  assumes "file_inv R w" "fref f \<in># R" "named f"
  shows "\<exists>w'. file_Close f w = Some w' \<and> file_inv R w' \<and> all_res w' = all_res w"
proof -
  obtain d where d: "heap w (fref f) = Some d" "one_kind d" by (rule file_cell[OF assms(1,2)])
  let ?d = "d\<lparr>dfd := DESCRIPTOR_NULL\<rparr>"
  have c: "file_inv R (w\<lparr>heap := (heap w)(fref f \<mapsto> ?d)\<rparr>)"
      "all_res (w\<lparr>heap := (heap w)(fref f \<mapsto> ?d)\<rparr>) + cell_res (Some d) = all_res w + cell_res (Some ?d)"
    using cell_set[OF assms(1,2) d(1), of ?d] by (simp_all add: one_kind_def)
  show ?thesis
  proof (cases "dfp d = None \<and> dfd d \<noteq> DESCRIPTOR_NULL")
    case True
    then have "file_Close f w = Some (w\<lparr>closed := closed w @ [dfd d], heap := (heap w)(fref f \<mapsto> ?d)\<rparr>)"
      using d assms(3) by (simp add: file_Close_def named_def upd_descriptor_def)
    then show ?thesis using c True by (simp add: heap_first)
  next
    case False
    then show ?thesis using d(1) assms(1,3) by (auto simp: file_Close_def named_def w_fail_def)
  qed
qed

lemma Fclose_law:
  assumes "file_inv R w" "fref f \<in># R" "named f"
  shows "\<exists>w'. Fclose f w = Some w' \<and> file_inv R w' \<and> all_res w' = all_res w"
proof -
  obtain d where d: "heap w (fref f) = Some d" "one_kind d" "DESCRIPTOR_NULL \<le> dfd d" by (rule file_cell[OF assms(1,2)])
  let ?d = "d\<lparr>dfp := None\<rparr>"
  have c: "file_inv R (w\<lparr>heap := (heap w)(fref f \<mapsto> ?d)\<rparr>)"
      "all_res (w\<lparr>heap := (heap w)(fref f \<mapsto> ?d)\<rparr>) + cell_res (Some d) = all_res w + cell_res (Some ?d)"
    using cell_set[OF assms(1,2) d(1), of ?d] d(3) by (simp_all add: one_kind_def)
  show ?thesis
  proof (cases "dfd d = DESCRIPTOR_NULL \<and> dfp d \<noteq> None")
    case True
    then obtain p where p: "dfp d = Some p" by auto
    have "Fclose f w = Some (w\<lparr>fclosed := fclosed w @ [p], heap := (heap w)(fref f \<mapsto> ?d)\<rparr>)"
      using True d p assms(3) by (simp add: Fclose_def named_def upd_descriptor_def)
    then show ?thesis using c True p by (simp add: heap_first_streams)
  next
    case False
    then show ?thesis using d(1) assms(1,3) by (auto simp: Fclose_def named_def w_fail_def)
  qed
qed

section \<open>Programs\<close>

text \<open>
  The live files are a list, and an operation names them by position; the answers of the system come
  with the operation. The result None is a use of freed memory.
\<close>

datatype file_op =
    MakeFile string "string option"
  | CopyFile nat
  | AssignFile nat nat
  | DropFile nat
  | OpenFile nat "string + int"
  | FopenFile nat "string + nat"
  | CloseFile nat
  | FcloseFile nat
  | UnlinkFile nat "string option"

definition update_at :: "nat \<Rightarrow> file_obj list \<Rightarrow> file_st option \<Rightarrow> (file_obj list \<times> world) option" where
  "update_at i fs r = map_option (\<lambda>(f, w). (fs[i := f], w)) r"

fun file_exec :: "string option \<Rightarrow> file_op \<Rightarrow> file_obj list \<times> world \<Rightarrow> (file_obj list \<times> world) option" where
  "file_exec box (MakeFile n d) (fs, w) = map_option (\<lambda>(f, w'). (fs @ [f], w')) (file_Init (Some n) d (File w))"
| "file_exec box (CopyFile i) (fs, w) = map_option (\<lambda>(f, w'). (fs @ [f], w')) (file_copy (fs ! i) w)"
| "file_exec box (AssignFile i j) (fs, w) = update_at i fs (file_assign (fs ! i) (fs ! j) w)"
| "file_exec box (DropFile i) (fs, w) = map_option (\<lambda>w'. (take i fs @ drop (Suc i) fs, w')) (file_destroy (fs ! i) w)"
| "file_exec box (OpenFile i res) (fs, w) = update_at i fs (file_Open box 0 0 res (fs ! i, w))"
| "file_exec box (FopenFile i res) (fs, w) = update_at i fs (Fopen box ''r'' res (fs ! i, w))"
| "file_exec box (CloseFile i) (fs, w) = map_option (Pair fs) (file_Close (fs ! i) w)"
| "file_exec box (FcloseFile i) (fs, w) = map_option (Pair fs) (Fclose (fs ! i) w)"
| "file_exec box (UnlinkFile i res) (fs, w) = update_at i fs (Unlink box res (fs ! i, w))"

text \<open>
  A careful caller: the operations are on live files, no file is assigned to itself, and a file gets a
  name, not that of the standard input. The system's descriptors are not negative.
\<close>

fun file_allowed :: "file_op \<Rightarrow> file_obj list \<times> world \<Rightarrow> bool" where
  "file_allowed (MakeFile n d) (fs, w) = (case file_Init (Some n) d (File w) of None \<Rightarrow> False | Some (f, w') \<Rightarrow> named f)"
| "file_allowed (AssignFile i j) (fs, w) = (i < length fs \<and> j < length fs \<and> i \<noteq> j)"
| "file_allowed (OpenFile i res) (fs, w) = (i < length fs \<and> (case res of Inr fd \<Rightarrow> 0 \<le> fd | Inl e \<Rightarrow> True))"
| "file_allowed (CopyFile i) (fs, w) = (i < length fs)"
| "file_allowed (DropFile i) (fs, w) = (i < length fs)"
| "file_allowed (FopenFile i res) (fs, w) = (i < length fs)"
| "file_allowed (CloseFile i) (fs, w) = (i < length fs)"
| "file_allowed (FcloseFile i) (fs, w) = (i < length fs)"
| "file_allowed (UnlinkFile i res) (fs, w) = (i < length fs)"

text \<open>What the system hands out: an answer counts only if the call was made, i.e. the file was not open.\<close>

fun opened :: "file_op \<Rightarrow> file_obj list \<times> world \<Rightarrow> resource list" where
  "opened (OpenFile i (Inr fd)) (fs, w) = (if file_IsOpen (fs ! i, w) = Some False then [Fd fd] else [])"
| "opened (FopenFile i (Inr p)) (fs, w) = (if file_IsOpen (fs ! i, w) = Some False then [Stream p] else [])"
| "opened _ _ = []"

inductive file_reach :: "resource list \<Rightarrow> file_obj list \<times> world \<Rightarrow> bool" where
  files_start: "file_reach [] ([], start_world e)"
| files_step: "file_reach rs s \<Longrightarrow> file_allowed op s \<Longrightarrow> file_exec box op s = Some s' \<Longrightarrow> file_reach (opened op s @ rs) s'"

definition files_inv :: "resource list \<Rightarrow> file_obj list \<times> world \<Rightarrow> bool" where
  "files_inv rs s \<longleftrightarrow> file_inv (owners fref (fst s)) (snd s) \<and> all_res (snd s) = mset rs \<and> list_all named (fst s)"

section \<open>Opening\<close>

lemma file_Open_law:
  assumes "file_inv R w" "fref f \<in># R" "named f" "case res of Inr fd \<Rightarrow> 0 \<le> fd | Inl e \<Rightarrow> True"
  shows "\<exists>w'. file_Open box fl mo res (f, w) = Some (f, w') \<and> file_inv R w'
    \<and> all_res w' = (case res of Inr fd \<Rightarrow> if file_IsOpen (f, w) = Some False then add_mset (Fd fd) (all_res w) else all_res w
                     | Inl e \<Rightarrow> all_res w)"
proof -
  obtain d where d: "heap w (fref f) = Some d" "one_kind d" "DESCRIPTOR_NULL \<le> dfd d" by (rule file_cell[OF assms(1,2)])
  have n: "fname f \<noteq> []" "fname f \<noteq> ''stdin''" using assms(3) by (simp_all add: named_def)
  show ?thesis
  proof (cases "dfp d = None \<and> dfd d = DESCRIPTOR_NULL")
    case False
    then show ?thesis using d(1) assms(1)
      by (auto simp: file_Open_def file_IsOpen_def w_fail_def split: sum.splits)
  next
    case True
    have same: "d\<lparr>dfd := - 1\<rparr> = d" using True by (simp add: DESCRIPTOR_NULL_def)
    show ?thesis
    proof (cases res)
      case (Inl e)
      have "w\<lparr>heap := (heap w)(fref f \<mapsto> d)\<rparr> = w" using d(1) by (simp add: fun_upd_idem)
      then show ?thesis using True d n Inl assms(1) same by (simp add: file_Open_def upd_descriptor_def w_fail_def)
    next
      case (Inr fd)
      let ?d = "d\<lparr>dfd := fd\<rparr>"
      have fd: "0 \<le> fd" "fd \<noteq> DESCRIPTOR_NULL" using assms(4) Inr by (auto simp: DESCRIPTOR_NULL_def)
      have "file_inv R (w\<lparr>heap := (heap w)(fref f \<mapsto> ?d)\<rparr>)"
          "all_res (w\<lparr>heap := (heap w)(fref f \<mapsto> ?d)\<rparr>) + cell_res (Some d) = all_res w + cell_res (Some ?d)"
        using cell_set[OF assms(1,2) d(1), of ?d] True fd(1) by (simp_all add: one_kind_def DESCRIPTOR_NULL_def)
      then show ?thesis using True d(1) n Inr fd(2) by (simp add: file_Open_def upd_descriptor_def file_IsOpen_def)
    qed
  qed
qed

lemma Fopen_law:
  assumes "file_inv R w" "fref f \<in># R" "named f"
  shows "\<exists>w'. Fopen box mo res (f, w) = Some (f, w') \<and> file_inv R w'
    \<and> all_res w' = (case res of Inr p \<Rightarrow> if file_IsOpen (f, w) = Some False then add_mset (Stream p) (all_res w) else all_res w
                     | Inl e \<Rightarrow> all_res w)"
proof -
  obtain d where d: "heap w (fref f) = Some d" "one_kind d" "DESCRIPTOR_NULL \<le> dfd d" by (rule file_cell[OF assms(1,2)])
  have n: "fname f \<noteq> []" "fname f \<noteq> ''stdin''" using assms(3) by (simp_all add: named_def)
  show ?thesis
  proof (cases "dfp d = None \<and> dfd d = DESCRIPTOR_NULL")
    case False
    then show ?thesis using d(1) assms(1) n
      by (auto simp: Fopen_def file_IsOpen_def w_fail_def split: sum.splits)
  next
    case True
    have same: "d\<lparr>dfp := None\<rparr> = d" using True by simp
    show ?thesis
    proof (cases res)
      case (Inl e)
      have "w\<lparr>heap := (heap w)(fref f \<mapsto> d)\<rparr> = w" using d(1) by (simp add: fun_upd_idem)
      then show ?thesis using True d n Inl assms(1) by (simp add: Fopen_def upd_descriptor_def w_fail_def same)
    next
      case (Inr p)
      let ?d = "d\<lparr>dfp := Some p\<rparr>"
      have "file_inv R (w\<lparr>heap := (heap w)(fref f \<mapsto> ?d)\<rparr>)"
          "all_res (w\<lparr>heap := (heap w)(fref f \<mapsto> ?d)\<rparr>) + cell_res (Some d) = all_res w + cell_res (Some ?d)"
        using cell_set[OF assms(1,2) d(1), of ?d] True by (simp_all add: one_kind_def)
      then show ?thesis using True d(1) n Inr by (simp add: Fopen_def upd_descriptor_def file_IsOpen_def)
    qed
  qed
qed

lemma Unlink_law:
  assumes "file_inv R w" "fref f \<in># R" "named f"
  shows "\<exists>w'. Unlink box res (f, w) = Some (f, w') \<and> file_inv R w' \<and> all_res w' = all_res w"
proof -
  obtain d where d: "heap w (fref f) = Some d" by (rule file_cell[OF assms(1,2)])
  have n: "fname f \<noteq> []" using assms(3) by (simp add: named_def)
  obtain w' where w': "close_if_open f w = Some w'" "file_inv R w'" "all_res w' = all_res w"
    using file_Close_law[OF assms] Fclose_law[OF assms] d assms(1)
    by (cases "dfp d = None"; cases "dfd d = DESCRIPTOR_NULL") (auto simp: close_if_open_def)
  show ?thesis using w' n by (cases res) (simp_all add: Unlink_def w_fail_def)
qed

text \<open>Init touches only the name, the directory and the error object.\<close>

lemma file_Init_store:
  assumes "file_Init n d (f, w) = Some (f', w')"
  shows "fref f' = fref f \<and> w' = w\<lparr>w_err := w_err w'\<rparr>"
proof -
  have s: "fref f1 = fref f \<and> w1 = w\<lparr>w_err := w_err w1\<rparr>" if "set_name n (f, w) = Some (f1, w1)" for f1 w1
    using that by (auto simp: set_name_def w_fail_def split_name_def Let_def split: option.splits if_splits)
  from assms obtain f1 w1 where "set_name n (f, w) = Some (f1, w1)"
      "(f', w') = (if d \<noteq> None then set_dir d (f1, w1) else (f1\<lparr>fdir := []\<rparr>, w1))"
    by (cases "set_name n (f, w)") (auto simp: file_Init_def split: if_splits)
  with s[OF this(1)] show ?thesis by (cases d) (auto simp: set_dir_def)
qed

lemma file_assign_eq:
  "file_assign f g w = (case file_release (f\<lparr>fname := fname g, fdir := fdir g\<rparr>) w of
     None \<Rightarrow> None | Some w1 \<Rightarrow> map_option (Pair g) (retain (fref g) w1))"
  by (auto simp: file_assign_def Let_def split: option.splits intro!: option.map_cong)

lemma list_all_update: "list_all P xs \<Longrightarrow> P x \<Longrightarrow> list_all P (xs[i := x])"
  unfolding list_all_iff using set_update_subset_insert[of xs i x] by blast

lemma list_all_cut: "list_all P xs \<Longrightarrow> list_all P (take i xs @ drop (Suc i) xs)"
  by (auto simp: list_all_iff dest: in_set_takeD in_set_dropD)

lemma file_exec_step:
  assumes "files_inv rs s" "file_allowed op s"
  shows "\<exists>s'. file_exec box op s = Some s' \<and> files_inv (opened op s @ rs) s'"
proof -
  obtain fs w where s: "s = (fs, w)" by (cases s)
  have i: "file_inv (owners fref fs) w" "all_res w = mset rs" "list_all named fs"
    using assms(1) by (simp_all add: files_inv_def s)
  have n: "named (fs ! k)" if "k < length fs" for k using i(3) that by (simp add: list_all_length)
  have same: "add_mset (fref (fs ! k)) (owners fref fs - {#fref (fs ! k)#}) = owners fref fs" if "k < length fs" for k
    using owners_nth[OF that, of fref] by simp
  have upd: "\<exists>s'. update_at k fs r = Some s' \<and> files_inv (x @ rs) s'"
    if "k < length fs" "r = Some (fs ! k, w')" "file_inv (owners fref fs) w'" "all_res w' = mset x + mset rs" for k r w' x
    using that i(3) n[OF that(1)] same[OF that(1)] by (auto simp: update_at_def files_inv_def owners_update list_all_update)
  show ?thesis
  proof (cases op)
    case (MakeFile nm dr)
    obtain f w1 where 1: "File w = (f, w1)" by (cases "File w")
    then have f: "new_descriptor w = (fref f, w1)" by (auto simp: File_def Let_def split: prod.splits)
    from assms(2) obtain f' w' where 2: "file_Init (Some nm) dr (f, w1) = Some (f', w')" "named f'"
      by (auto simp: MakeFile s 1 split: option.splits)
    have w1: "file_inv (add_mset (fref f) (owners fref fs)) w1" "all_res w1 = mset rs"
      using fs.alloc_law[OF i(1) f] i(2) by simp_all
    have "fref f' = fref f" and e: "w' = w1\<lparr>w_err := w_err w'\<rparr>" using file_Init_store[OF 2(1)] by simp_all
    moreover have "file_inv (add_mset (fref f) (owners fref fs)) w'" "all_res w' = mset rs"
      using w1 by (subst e, simp)+
    ultimately show ?thesis using 2 i(3) by (simp add: MakeFile s 1 files_inv_def)
  next
    case (CopyFile k)
    then have k: "k < length fs" using assms(2) by (simp add: s)
    from fs.ret_law[OF i(1) owners_nth[OF k]] i(2,3) n[OF k] show ?thesis
      by (auto simp: CopyFile s file_copy_def files_inv_def)
  next
    case (AssignFile k j)
    then have k: "k < length fs" "j < length fs" "k \<noteq> j" using assms(2) by (simp_all add: s)
    let ?f = "(fs ! k)\<lparr>fname := fname (fs ! j), fdir := fdir (fs ! j)\<rparr>"
    have f: "named ?f" "fref ?f = fref (fs ! k)" using n[OF k(2)] by (simp_all add: named_def)
    from fs.swap_ok[OF i(1), of ?f "fref (fs ! j)"] f owners_nth[OF k(1)] owners_two[OF k] i(2,3) n[OF k(2)]
    show ?thesis
      by (auto simp: AssignFile s file_assign_eq update_at_def files_inv_def owners_update[OF k(1)] list_all_update)
  next
    case (DropFile k)
    then have k: "k < length fs" using assms(2) by (simp add: s)
    from fs.rel_law[OF i(1) owners_nth[OF k] n[OF k]] i(2,3) show ?thesis
      by (auto simp: DropFile s file_destroy_def files_inv_def owners_drop[OF k] list_all_cut simp del: list_all_append)
  next
    case (OpenFile k res)
    then have k: "k < length fs" "case res of Inr fd \<Rightarrow> 0 \<le> fd | Inl e \<Rightarrow> True" using assms(2) by (simp_all add: s)
    from file_Open_law[OF i(1) owners_nth[OF k(1)] n[OF k(1)] k(2), of box 0 0]
    obtain w' where w': "file_Open box 0 0 res (fs ! k, w) = Some (fs ! k, w')" "file_inv (owners fref fs) w'"
        "all_res w' = (case res of Inr fd \<Rightarrow> if file_IsOpen (fs ! k, w) = Some False then add_mset (Fd fd) (all_res w) else all_res w
                     | Inl e \<Rightarrow> all_res w)" by blast
    have "all_res w' = mset (opened op s) + mset rs" using w'(3) i(2) by (cases res) (simp_all add: OpenFile s)
    from upd[OF k(1) refl w'(2) this] w'(1) show ?thesis by (simp add: OpenFile s)
  next
    case (FopenFile k res)
    then have k: "k < length fs" using assms(2) by (simp add: s)
    from Fopen_law[OF i(1) owners_nth[OF k] n[OF k], of box "''r''" res]
    obtain w' where w': "Fopen box ''r'' res (fs ! k, w) = Some (fs ! k, w')" "file_inv (owners fref fs) w'"
        "all_res w' = (case res of Inr p \<Rightarrow> if file_IsOpen (fs ! k, w) = Some False then add_mset (Stream p) (all_res w) else all_res w
                     | Inl e \<Rightarrow> all_res w)" by blast
    have "all_res w' = mset (opened op s) + mset rs" using w'(3) i(2) by (cases res) (simp_all add: FopenFile s)
    from upd[OF k refl w'(2) this] w'(1) show ?thesis by (simp add: FopenFile s)
  next
    case (CloseFile k)
    then have k: "k < length fs" using assms(2) by (simp add: s)
    from file_Close_law[OF i(1) owners_nth[OF k] n[OF k]] i(2,3) show ?thesis by (auto simp: CloseFile s files_inv_def)
  next
    case (FcloseFile k)
    then have k: "k < length fs" using assms(2) by (simp add: s)
    from Fclose_law[OF i(1) owners_nth[OF k] n[OF k]] i(2,3) show ?thesis by (auto simp: FcloseFile s files_inv_def)
  next
    case (UnlinkFile k res)
    then have k: "k < length fs" using assms(2) by (simp add: s)
    from Unlink_law[OF i(1) owners_nth[OF k] n[OF k], of box res]
    obtain w' where w': "Unlink box res (fs ! k, w) = Some (fs ! k, w')" "file_inv (owners fref fs) w'" "all_res w' = all_res w"
      by blast
    have "all_res w' = mset (opened op s) + mset rs" using w'(3) i(2) by (simp add: UnlinkFile s)
    from upd[OF k refl w'(2) this] w'(1) show ?thesis by (simp add: UnlinkFile s)
  qed
qed

lemma file_reach_inv: "file_reach rs s \<Longrightarrow> files_inv rs s"
proof (induction rule: file_reach.induct)
  case (files_start e)
  show ?case by (simp add: files_inv_def store_good_def store_inv_def start_world_def total_of_def given_res_def)
next
  case (files_step rs s op box s')
  then show ?case using file_exec_step[of rs s op box] by auto
qed

section \<open>What sharing guarantees\<close>

text \<open>
  C13. Files are closed exactly once: in every state that a program of constructions with a name that is
  not stdin, copies, assignments between different files, Opens, Fopens, Closes, Fcloses, Unlinks and
  destructions can reach, any further such operation on live files succeeds without touching freed memory, and when the last file is gone
  the descriptors passed to \<^verbatim>\<open>close(2)\<close> and the streams passed to \<^verbatim>\<open>fclose(3)\<close> are,
  with their multiplicity, those that \<^verbatim>\<open>open(2)\<close> and \<^verbatim>\<open>fopen(3)\<close> returned.
\<close>

theorem files_closed_once:
  assumes "file_reach rs (fs, w)"
  shows "(file_allowed op (fs, w) \<longrightarrow> file_exec box op (fs, w) \<noteq> None)
    \<and> (fs = [] \<longrightarrow> mset (map Fd (closed w)) + mset (map Stream (fclosed w)) = mset rs \<and> heap w = Map.empty)"
proof -
  have i: "files_inv rs (fs, w)" by (rule file_reach_inv[OF assms])
  have "mset (map Fd (closed w)) + mset (map Stream (fclosed w)) = mset rs \<and> heap w = Map.empty" if "fs = []"
  proof -
    have e: "store_inv {#} w" "all_res w = mset rs" using i that by (simp_all add: files_inv_def store_good_def)
    have "heap w = Map.empty" by (rule store_inv_empty[OF e(1)])
    with e(2) show ?thesis by (simp add: total_of_def given_res_def)
  qed
  with file_exec_step[OF i, of op box] show ?thesis by auto
qed

fun file_run :: "file_op list \<Rightarrow> resource list \<Rightarrow> file_obj list \<times> world \<Rightarrow> (resource list \<times> file_obj list \<times> world) option" where
  "file_run [] rs s = Some (rs, s)"
| "file_run (op # ops) rs s = (if file_allowed op s
     then Option.bind (file_exec None op s) (file_run ops (opened op s @ rs)) else None)"

lemma file_run_reach: "file_run ops rs s = Some (rs', s') \<Longrightarrow> file_reach rs s \<Longrightarrow> file_reach rs' s'"
  by (induction ops arbitrary: rs s) (auto split: if_splits simp: bind_eq_Some_conv intro: files_step)

lemma named_examples: "named \<lparr>fname = ''log'', fdir = [], fref = r\<rparr>" "named \<lparr>fname = ''in'', fdir = [], fref = r\<rparr>"
  by (simp_all add: named_def)

lemma init_examples:
  "file_Init (Some ''log'') None st = Some ((fst st)\<lparr>fname := ''log'', fdir := []\<rparr>, snd st)"
  "file_Init (Some ''in'') None st = Some ((fst st)\<lparr>fname := ''in'', fdir := []\<rparr>, snd st)"
  by (simp_all add: file_Init_def set_name_def is_path_tainted_def split_name_def c_str_def)

text \<open>Two files: one opened with \<^verbatim>\<open>open(2)\<close>, copied, and both copies destroyed; one opened as a stream.\<close>

theorem files_closed_once_witness:
  "\<exists>w. file_reach [Stream 9, Fd 5] ([], w) \<and> closed w = [5] \<and> fclosed w = [9] \<and> heap w = Map.empty"
proof -
  let ?ops = "[MakeFile ''log'' None, OpenFile 0 (Inr 5), CopyFile 0, MakeFile ''in'' None, FopenFile 2 (Inr 9),
    DropFile 0, DropFile 0, DropFile 0]"
  have "\<exists>w. file_run ?ops [] ([], example_world) = Some ([Stream 9, Fd 5], [], w)"
    by (simp add: init_examples named_examples update_at_def File_def new_descriptor_def example_world_def start_world_def
        file_Open_def Fopen_def file_IsOpen_def upd_descriptor_def file_copy_def retain_def file_destroy_def file_release_def
        release_with_def close_either_def file_Close_def Fclose_def DESCRIPTOR_NULL_def)
  then obtain w where w: "file_reach [Stream 9, Fd 5] ([], w)"
    using file_run_reach[OF _ files_start] unfolding example_world_def by blast
  from files_closed_once[OF w] have m: "mset (map Fd (closed w)) + mset (map Stream (fclosed w)) = {#Stream 9, Fd 5#}"
    "heap w = Map.empty" by simp_all
  have k: "count (mset (map Fd xs)) (Fd n) = count (mset xs) n" "count (mset (map Stream ys)) (Stream p) = count (mset ys) p"
      "count (mset (map Stream ys)) (Fd n) = 0" "count (mset (map Fd xs)) (Stream p) = 0" for n p xs ys
    by (induction xs, simp_all) (induction ys, simp_all)+
  have "mset (closed w) = {#5#}" "mset (fclosed w) = {#9#}"
    using arg_cong[OF m(1), of "\<lambda>M. count M (Fd _)"] arg_cong[OF m(1), of "\<lambda>M. count M (Stream _)"]
    by (simp_all add: multiset_eq_iff k del: mset_map)
  then have c: "closed w = [5]" "fclosed w = [9]" by auto
  with w c m(2) show ?thesis by blast
qed

end
