(* ===== verification/Ssl_Context.thy ===== *)
theory Ssl_Context
  imports File_Obj
begin

text \<open>
  The contexts of SSLContext.h and SSLContext.cc. OpenSSL is not part of the repository: its answers
  are a parameter, the calls that change a context are recorded in order with the context, and so are
  the contexts freed. The constant \<^verbatim>\<open>SSL_MAX_SSL_SESSION_ID_LENGTH\<close> of its headers is
  the parameter sid_len. The calls without a context (loading and freeing the error strings) and the
  logging are left out.
\<close>

section \<open>Texts and passwords\<close>

text \<open>
  ssl_err_str: the texts of the error queue with a space between, in a string of 1024 bytes. A text is
  cut to the room that is left; the space is written whenever there is any, also over the last NUL.
\<close>

fun err_texts :: "string \<Rightarrow> string list \<Rightarrow> string" where
  "err_texts s [] = s"
| "err_texts s (t # ts) =
     (let s1 = (if 1024 - length s = 0 then s else s @ take (1024 - length s - 1) (c_str t))
      in err_texts (if ts \<noteq> [] \<and> 1024 - length s1 > 0 then s1 @ [SP] else s1) ts)"

definition ssl_err_str :: "string list \<Rightarrow> string" where
  "ssl_err_str queue = zfill 1024 (err_texts [] queue)"

lemma err_texts_length: "length s \<le> 1024 \<Longrightarrow> length (err_texts s ts) \<le> 1024"
  by (induction ts arbitrary: s) (auto simp: Let_def)

text \<open>The callback that gives OpenSSL the password: what is left in buf, and the count.\<close>

definition pem_passwd_cb :: "int \<Rightarrow> string \<Rightarrow> (string \<times> int) option" where
  "pem_passwd_cb sz userdata = (if sz \<le> 0 then None
     else (let p = take (nat sz - 1) (c_str userdata) in Some (zfill (nat sz) p, int (length p))))"

section \<open>The object\<close>

datatype ctx_call = Set_mode | Set_session_id string | Use_certificate string int | Set_password string
  | Use_private_key string int | Check_private_key | Load_verify_locations "string option" "string option"
  | Set_verify int | Set_verify_depth int | Set_session_cache_mode int | Set_options int

record sslcontext =
  ctx :: "nat option"
  session_id :: string
  ctx_cnt :: nat

record ctx_env =
  ctx_calls :: "(nat \<times> ctx_call) list"
  ctx_freed :: "nat list"

type_synonym ctx_st = "sslcontext \<times> ctx_env \<times> world"

definition SSLContext :: "nat \<Rightarrow> sslcontext" where
  "SSLContext sid_len = \<lparr>ctx = None, session_id = replicate sid_len NUL, ctx_cnt = 1\<rparr>"

definition ctx_destroy :: "sslcontext \<Rightarrow> ctx_env \<Rightarrow> ctx_env" where
  "ctx_destroy c e = (case ctx c of None \<Rightarrow> e | Some x \<Rightarrow> e\<lparr>ctx_freed := ctx_freed e @ [x]\<rparr>)"

definition ctx_fail :: "string \<Rightarrow> ctx_st \<Rightarrow> ctx_st" where
  "ctx_fail m st = (case st of (c, e, w) \<Rightarrow> (c, e, w_fail EX_SOFTWARE (''SSLContext::Init(): '' @ m) w))"

definition call :: "ctx_call \<Rightarrow> ctx_st \<Rightarrow> ctx_st" where
  "call k st = (case st of (c, e, w) \<Rightarrow> (c, e\<lparr>ctx_calls := ctx_calls e @ [(the (ctx c), k)]\<rparr>, w))"

section \<open>Init\<close>

text \<open>The arguments, and what OpenSSL answers: the texts are those of its error queue.\<close>

record ctx_args =
  arg_method :: bool
  arg_session_id :: "string option"
  arg_keyfile_name :: "string option"
  arg_keyfile_dir :: "string option"
  arg_keyfile_type :: int
  arg_password :: "string option"
  arg_certfile_name :: "string option"
  arg_certfile_dir :: "string option"
  arg_certfile_type :: int
  arg_CAfile :: "string option"
  arg_CApath :: "string option"
  arg_verify_mode :: int
  arg_verify_depth :: int
  arg_cache_mode :: int
  arg_options :: int

record ctx_answers =
  ans_new :: "nat option"
  ans_sid :: bool
  ans_cert :: bool
  ans_key :: bool
  ans_check :: bool
  ans_ca :: bool
  ans_queue_texts :: "string list"

definition err_of :: "ctx_answers \<Rightarrow> string" where
  "err_of a = c_str (ssl_err_str (ans_queue_texts a))"

text \<open>A call that can fail: Go when OpenSSL accepts it, else the error and the early return.\<close>

definition try_call :: "ctx_call \<Rightarrow> bool \<Rightarrow> string \<Rightarrow> ctx_st \<Rightarrow> (ctx_st, unit) run" where
  "try_call k accepted m st = (if accepted then Go (call k st) () else Stop (ctx_fail m st))"

text \<open>A File object on the stack around a part of the function, and the test that the file is there.\<close>

definition scoped :: "file_obj \<Rightarrow> (ctx_st, unit) run \<Rightarrow> (ctx_st, unit) run" where
  "scoped f r = (let leave = (\<lambda>st. case st of (c, e, w) \<Rightarrow> map_option (\<lambda>w'. (c, e, w')) (file_destroy f w)) in
     case r of
       Fault \<Rightarrow> Fault
     | Stop st \<Rightarrow> (case leave st of None \<Rightarrow> Fault | Some st' \<Rightarrow> Stop st')
     | Go st u \<Rightarrow> (case leave st of None \<Rightarrow> Fault | Some st' \<Rightarrow> Go st' u))"

definition with_file :: "(string \<Rightarrow> (int \<times> bool) option) \<Rightarrow> string \<Rightarrow> string option \<Rightarrow> string option
    \<Rightarrow> (string \<Rightarrow> ctx_st \<Rightarrow> (ctx_st, unit) run) \<Rightarrow> ctx_st \<Rightarrow> (ctx_st, unit) run" where
  "with_file stat what name dir body st = (case st of (c, e, w) \<Rightarrow>
     (case file_Init name dir (File w) of
        None \<Rightarrow> Fault
      | Some (f, w1) \<Rightarrow> scoped f
          (let p = c_str (file_path None f) in
           if \<not> Exists stat None f then Stop (ctx_fail (what @ '': '' @ p @ '', does not exist!'') (c, e, w1))
           else body p (c, e, w1))))"

definition load_key :: "(string \<Rightarrow> (int \<times> bool) option) \<Rightarrow> ctx_args \<Rightarrow> ctx_answers \<Rightarrow> ctx_st \<Rightarrow> (ctx_st, unit) run" where
  "load_key stat args a st =
     (if \<not> c_nonempty (arg_keyfile_name args) then Go st ()
      else with_file stat ''keyfile'' (arg_keyfile_name args) (arg_keyfile_dir args) (\<lambda>p st.
        let st1 = (if c_nonempty (arg_password args) then call (Set_password (c_str (the (arg_password args)))) st else st) in
        bind_run (try_call (Use_private_key p (arg_keyfile_type args)) (ans_key a)
                    (''SSL_CTX_use_PrivateKey_file() failed: '' @ err_of a) st1) (\<lambda>st _.
        try_call Check_private_key (ans_check a) (''SSL_CTX_check_private_key() failed: '' @ err_of a) st)) st)"

definition load_cert :: "(string \<Rightarrow> (int \<times> bool) option) \<Rightarrow> ctx_args \<Rightarrow> ctx_answers \<Rightarrow> ctx_st \<Rightarrow> (ctx_st, unit) run" where
  "load_cert stat args a st =
     (if \<not> c_nonempty (arg_certfile_name args) then Go st ()
      else with_file stat ''certfile'' (arg_certfile_name args) (arg_certfile_dir args) (\<lambda>p st.
        bind_run (try_call (Use_certificate p (arg_certfile_type args)) (ans_cert a)
                    (''SSL_CTX_use_certificate_file() failed: '' @ err_of a) st) (\<lambda>st _. load_key stat args a st)) st)"

text \<open>The message for a failed CA list takes both names as strings, also a NULL one.\<close>

definition load_CAs :: "ctx_args \<Rightarrow> ctx_answers \<Rightarrow> ctx_st \<Rightarrow> (ctx_st, unit) run" where
  "load_CAs args a st = (let f = arg_CAfile args; p = arg_CApath args in
     if \<not> c_nonempty f \<and> \<not> c_nonempty p then Go st ()
     else if ans_ca a then Go (call (Load_verify_locations f p) st) ()
     else (case (f, p, st) of
         (Some f, Some p, c, e, w) \<Rightarrow> Stop (c, e, w_fail EX_SOFTWARE
           (''SSLContext::SSL_CTX_load_verify_locations(): CAfile ('' @ c_str f @ ''), CApath('' @ c_str p @ ''): '' @ err_of a) w)
       | _ \<Rightarrow> Fault))"

definition set_session_id :: "nat \<Rightarrow> ctx_args \<Rightarrow> ctx_answers \<Rightarrow> ctx_st \<Rightarrow> (ctx_st, unit) run" where
  "set_session_id sid_len args a st = (case arg_session_id args of
      None \<Rightarrow> Fault
    | Some s \<Rightarrow> (let sid = take (sid_len - 1) (c_str s); st1 = ((fst st)\<lparr>session_id := zfill sid_len sid\<rparr>, snd st) in
        try_call (Set_session_id sid) (ans_sid a) (''SSL_CTX_set_session_id_context() failed: '' @ err_of a) st1))"

definition set_modes :: "ctx_args \<Rightarrow> ctx_st \<Rightarrow> ctx_st" where
  "set_modes args st = (let st1 = call (Set_session_cache_mode (arg_cache_mode args))
       (call (Set_verify_depth (arg_verify_depth args)) (call (Set_verify (arg_verify_mode args)) st))
     in if arg_options args > 0 then call (Set_options (arg_options args)) st1 else st1)"

definition ctx_Init :: "nat \<Rightarrow> (string \<Rightarrow> (int \<times> bool) option) \<Rightarrow> ctx_args \<Rightarrow> ctx_answers \<Rightarrow> ctx_st \<Rightarrow> (ctx_st, unit) run" where
  "ctx_Init sid_len stat args a st = (case st of (c, e, w) \<Rightarrow>
     if \<not> arg_method args then Stop (ctx_fail ''SSL_METHOD* is NULL'' st)
     else (case ans_new a of
         None \<Rightarrow> Stop (ctx_fail (''SSL_CTX_new() failed: '' @ err_of a) (c\<lparr>ctx := None\<rparr>, e, w))
       | Some x \<Rightarrow>
           bind_run (set_session_id sid_len args a (call Set_mode (c\<lparr>ctx := Some x\<rparr>, e, w))) (\<lambda>st _.
           bind_run (load_cert stat args a st) (\<lambda>st _.
           bind_run (load_CAs args a st) (\<lambda>st _. Go (set_modes args st) ())))))"

section \<open>What Init has done when it returns\<close>

text \<open>
  The outcome of a part: after an early return there is an error event and P holds, else G, both of
  the context and the recorded calls. A File object around the part does not change it.
\<close>

definition outcome :: "(ctx_st, unit) run \<Rightarrow> (sslcontext \<Rightarrow> ctx_env \<Rightarrow> bool) \<Rightarrow> (sslcontext \<Rightarrow> ctx_env \<Rightarrow> bool) \<Rightarrow> bool" where
  "outcome r P G \<longleftrightarrow> (case r of Fault \<Rightarrow> True | Stop (c, e, w) \<Rightarrow> event_flag (w_err w) \<and> P c e | Go (c, e, w) _ \<Rightarrow> G c e)"

lemma outcome_simps [simp]:
  "outcome Fault P G" "outcome (Stop (c, e, w)) P G \<longleftrightarrow> event_flag (w_err w) \<and> P c e" "outcome (Go (c, e, w) u) P G \<longleftrightarrow> G c e"
  by (simp_all add: outcome_def)

lemma outcome_mono: "outcome r P G \<Longrightarrow> (\<And>c e. P c e \<Longrightarrow> P' c e) \<Longrightarrow> (\<And>c e. G c e \<Longrightarrow> G' c e) \<Longrightarrow> outcome r P' G'"
  by (auto simp: outcome_def split: run.splits prod.splits)

lemma outcome_bind: "outcome r P (\<lambda>c e. \<forall>w. outcome (f (c, e, w) ()) P G) \<Longrightarrow> outcome (bind_run r f) P G"
  by (cases r) (auto simp: outcome_def split: prod.splits)

lemma outcome_scoped: "outcome r P G \<Longrightarrow> outcome (scoped f r) P G"
  by (cases r) (auto simp: scoped_def Let_def outcome_def split: option.splits dest: file_destroy_event)

lemma ctx_fail_simps [simp]: "ctx_fail m (c, e, w) = (c, e, w_fail EX_SOFTWARE (''SSLContext::Init(): '' @ m) w)"
  by (simp add: ctx_fail_def)

lemma w_fail_event [simp]: "event_flag (w_err (w_fail r m w))"
  by (simp add: w_fail_def)

text \<open>The calls made since a state, all on its context, and the sequences that set no verification mode.\<close>

definition made :: "sslcontext \<Rightarrow> ctx_env \<Rightarrow> ctx_call list \<Rightarrow> sslcontext \<Rightarrow> ctx_env \<Rightarrow> bool" where
  "made c0 e0 new c e \<longleftrightarrow> ctx c = ctx c0 \<and> ctx_calls e = ctx_calls e0 @ map (Pair (the (ctx c0))) new"

definition no_verify :: "ctx_call list \<Rightarrow> bool" where
  "no_verify ks \<longleftrightarrow> list_all (\<lambda>k. case k of Set_verify v \<Rightarrow> False | _ \<Rightarrow> True) ks"

definition gave_up :: "sslcontext \<Rightarrow> ctx_env \<Rightarrow> sslcontext \<Rightarrow> ctx_env \<Rightarrow> bool" where
  "gave_up c0 e0 c e \<longleftrightarrow> (\<exists>new. made c0 e0 new c e \<and> no_verify new)"

lemma made_call [simp]: "call k (c, e, w) = (c, e\<lparr>ctx_calls := ctx_calls e @ [(the (ctx c), k)]\<rparr>, w)"
  by (simp add: call_def)

lemma made_refl: "made c e [] c e"
  by (simp add: made_def)

lemma made_one: "made c0 e0 ks c e \<Longrightarrow> made c0 e0 (ks @ [k]) c (e\<lparr>ctx_calls := ctx_calls e @ [(the (ctx c), k)]\<rparr>)"
  by (simp add: made_def)

lemma made_trans: "made c0 e0 ks c1 e1 \<Longrightarrow> made c1 e1 ls c e \<Longrightarrow> made c0 e0 (ks @ ls) c e"
  by (simp add: made_def)

lemma gave_up_trans: "made c0 e0 ks c1 e1 \<Longrightarrow> no_verify ks \<Longrightarrow> gave_up c1 e1 c e \<Longrightarrow> gave_up c0 e0 c e"
  using made_trans by (fastforce simp: gave_up_def no_verify_def)

lemma gave_up_refl: "gave_up c e c e"
  unfolding gave_up_def using made_refl by (intro exI[of _ "[]"]) (simp add: no_verify_def)

lemma outcome_try_call: "outcome (try_call k acc m (c, e, w)) (gave_up c e) (made c e [k])"
  using made_one[OF made_refl, of c e k] gave_up_refl by (simp add: try_call_def)

lemma outcome_with_file:
  assumes "\<And>p w. outcome (body p (c, e, w)) (gave_up c e) G"
  shows "outcome (with_file stat what name dir body (c, e, w)) (gave_up c e) G"
  using assms gave_up_refl
  by (auto simp: with_file_def Let_def split: option.splits intro!: outcome_scoped)

text \<open>The calls for the key and the certificate, with the paths that the File objects give.\<close>

definition key_calls :: "ctx_args \<Rightarrow> string \<Rightarrow> ctx_call list" where
  "key_calls args q = (if c_nonempty (arg_keyfile_name args)
     then (if c_nonempty (arg_password args) then [Set_password (c_str (the (arg_password args)))] else [])
       @ [Use_private_key q (arg_keyfile_type args), Check_private_key] else [])"

definition cert_calls :: "ctx_args \<Rightarrow> string \<Rightarrow> string \<Rightarrow> ctx_call list" where
  "cert_calls args p q = (if c_nonempty (arg_certfile_name args)
     then Use_certificate p (arg_certfile_type args) # key_calls args q else [])"

lemma outcome_load_key: "outcome (load_key stat args a (c, e, w)) (gave_up c e) (\<lambda>c' e'. \<exists>q. made c e (key_calls args q) c' e')"
proof (cases "c_nonempty (arg_keyfile_name args)")
  case False
  then show ?thesis using made_refl by (simp add: load_key_def key_calls_def)
next
  case True
  let ?pw = "if c_nonempty (arg_password args) then [Set_password (c_str (the (arg_password args)))] else []"
  have "outcome (let st1 = if c_nonempty (arg_password args) then call (Set_password (c_str (the (arg_password args)))) (c, e, w) else (c, e, w)
      in bind_run (try_call (Use_private_key p (arg_keyfile_type args)) (ans_key a)
           (''SSL_CTX_use_PrivateKey_file() failed: '' @ err_of a) st1)
         (\<lambda>st _. try_call Check_private_key (ans_check a) (''SSL_CTX_check_private_key() failed: '' @ err_of a) st))
      (gave_up c e) (\<lambda>c' e'. \<exists>q. made c e (key_calls args q) c' e')" for p w
  proof -
    define st1 where "st1 = (if c_nonempty (arg_password args) then call (Set_password (c_str (the (arg_password args)))) (c, e, w) else (c, e, w))"
    obtain c1 e1 w1 where st1: "st1 = (c1, e1, w1)" by (cases st1)
    have pw: "made c e ?pw c1 e1" "no_verify ?pw"
      using st1 made_one[OF made_refl, of c e] made_refl[of c e] by (auto simp: st1_def no_verify_def split: if_splits)
    have "outcome (bind_run (try_call (Use_private_key p (arg_keyfile_type args)) (ans_key a) m st1)
        (\<lambda>st _. try_call Check_private_key (ans_check a) m' st))
      (gave_up c e) (\<lambda>c' e'. made c e (?pw @ [Use_private_key p (arg_keyfile_type args), Check_private_key]) c' e')" for m m'
      unfolding st1
    proof (rule outcome_bind, rule outcome_mono[OF outcome_try_call], goal_cases)
      case (1 c2 e2) then show ?case using pw gave_up_trans by blast
    next
      case (2 c2 e2)
      let ?ks = "?pw @ [Use_private_key p (arg_keyfile_type args)]"
      have "made c e ?ks c2 e2" "no_verify ?ks" using made_trans[OF pw(1) 2] pw(2) by (simp_all add: no_verify_def)
      then show ?case
        by (intro allI outcome_mono[OF outcome_try_call]) (blast intro: gave_up_trans, auto dest: made_trans)
    qed
    then show ?thesis unfolding Let_def st1_def[symmetric]
      by (rule outcome_mono) (use True in \<open>auto simp: key_calls_def\<close>)
  qed
  then show ?thesis using True unfolding load_key_def by (auto intro!: outcome_with_file)
qed

lemma outcome_load_cert:
  "outcome (load_cert stat args a (c, e, w)) (gave_up c e) (\<lambda>c' e'. \<exists>p q. made c e (cert_calls args p q) c' e')"
proof (cases "c_nonempty (arg_certfile_name args)")
  case False
  then show ?thesis using made_refl by (simp add: load_cert_def cert_calls_def)
next
  case True
  have "outcome (bind_run (try_call (Use_certificate p (arg_certfile_type args)) (ans_cert a) m (c, e, w))
      (\<lambda>st _. load_key stat args a st)) (gave_up c e) (\<lambda>c' e'. \<exists>p q. made c e (cert_calls args p q) c' e')" for p m w
  proof (rule outcome_bind, rule outcome_mono[OF outcome_try_call], goal_cases)
    case (2 c2 e2)
    have "no_verify [Use_certificate p (arg_certfile_type args)]" by (simp add: no_verify_def)
    with 2 show ?case
      by (intro allI outcome_mono[OF outcome_load_key])
        (blast intro: gave_up_trans, force simp: cert_calls_def True dest: made_trans[OF 2])
  qed
  then show ?thesis using True unfolding load_cert_def by (auto intro!: outcome_with_file)
qed

definition ca_calls :: "ctx_args \<Rightarrow> ctx_call list" where
  "ca_calls args = (if c_nonempty (arg_CAfile args) \<or> c_nonempty (arg_CApath args)
     then [Load_verify_locations (arg_CAfile args) (arg_CApath args)] else [])"

lemma outcome_load_CAs: "outcome (load_CAs args a (c, e, w)) (gave_up c e) (made c e (ca_calls args))"
  using made_refl made_one[OF made_refl, of c e] gave_up_refl
  by (auto simp: load_CAs_def ca_calls_def Let_def split: option.splits)

definition mode_calls :: "ctx_args \<Rightarrow> ctx_call list" where
  "mode_calls args = [Set_verify (arg_verify_mode args), Set_verify_depth (arg_verify_depth args),
     Set_session_cache_mode (arg_cache_mode args)] @ (if arg_options args > 0 then [Set_options (arg_options args)] else [])"

lemma set_modes_made: "set_modes args (c, e, w) = (c', e', w') \<Longrightarrow> made c e (mode_calls args) c' e'"
  by (auto simp: set_modes_def mode_calls_def Let_def made_def split: if_splits)

lemma outcome_session_id:
  "outcome (set_session_id sid_len args a (c, e, w)) (gave_up c e) (\<lambda>c' e'. \<exists>s. made c e [Set_session_id s] c' e')"
proof (cases "arg_session_id args")
  case (Some s)
  let ?sid = "take (sid_len - 1) (c_str s)" and ?c = "c\<lparr>session_id := zfill sid_len (take (sid_len - 1) (c_str s))\<rparr>"
  have "outcome (try_call (Set_session_id ?sid) (ans_sid a) m (?c, e, w)) (gave_up c e) (\<lambda>c' e'. \<exists>s. made c e [Set_session_id s] c' e')" for m
    by (rule outcome_mono[OF outcome_try_call]) (auto simp: gave_up_def made_def)
  then show ?thesis by (simp add: set_session_id_def Some Let_def)
qed (simp add: set_session_id_def)

lemma no_verify_simps [simp]:
  "no_verify []" "no_verify (ks @ ls) \<longleftrightarrow> no_verify ks \<and> no_verify ls"
  "no_verify (k # ks) \<longleftrightarrow> (case k of Set_verify v \<Rightarrow> False | _ \<Rightarrow> True) \<and> no_verify ks"
  "no_verify (cert_calls args p q)" "no_verify (ca_calls args)"
  by (auto simp: no_verify_def cert_calls_def key_calls_def ca_calls_def)

text \<open>Init after SSL_CTX_new: all the calls are made, or some and no verification mode is set.\<close>

lemma outcome_Init:
  assumes "arg_method args" "ans_new a = Some x"
  shows "outcome (ctx_Init sid_len stat args a (c, e, w)) (gave_up (c\<lparr>ctx := Some x\<rparr>) e)
    (\<lambda>c' e'. \<exists>s p q. made (c\<lparr>ctx := Some x\<rparr>) e
       ([Set_mode, Set_session_id s] @ cert_calls args p q @ ca_calls args @ mode_calls args) c' e')"
proof -
  let ?c = "c\<lparr>ctx := Some x\<rparr>"
  define e1 where "e1 = e\<lparr>ctx_calls := ctx_calls e @ [(x, Set_mode)]\<rparr>"
  have m1: "made ?c e [Set_mode] ?c e1" by (simp add: made_def e1_def)
  have run: "ctx_Init sid_len stat args a (c, e, w) = bind_run (set_session_id sid_len args a (?c, e1, w)) (\<lambda>st _.
      bind_run (load_cert stat args a st) (\<lambda>st _. bind_run (load_CAs args a st) (\<lambda>st _. Go (set_modes args st) ())))"
    using assms by (simp add: ctx_Init_def e1_def)
  show ?thesis unfolding run
  proof (rule outcome_bind, rule outcome_mono[OF outcome_session_id], goal_cases)
    case (1 c2 e2) then show ?case using gave_up_trans[OF m1] by simp
  next
    case (2 c2 e2)
    then obtain s where s: "made ?c e [Set_mode, Set_session_id s] c2 e2" using made_trans[OF m1] by fastforce
    show ?case
    proof (intro allI outcome_bind, rule outcome_mono[OF outcome_load_cert], goal_cases)
      case (1 w c3 e3) then show ?case using gave_up_trans[OF s] by simp
    next
      case (2 w c3 e3)
      then obtain p q where p: "made ?c e ([Set_mode, Set_session_id s] @ cert_calls args p q) c3 e3"
        using made_trans[OF s] by blast
      show ?case
      proof (intro allI outcome_bind, rule outcome_mono[OF outcome_load_CAs], goal_cases)
        case (1 w c4 e4) then show ?case using gave_up_trans[OF p] by simp
      next
        case (2 w c4 e4)
        have "outcome (Go (set_modes args (c4, e4, w)) ()) P (\<lambda>c' e'. \<exists>s p q. made ?c e
            ([Set_mode, Set_session_id s] @ cert_calls args p q @ ca_calls args @ mode_calls args) c' e')" for w P
        proof -
          obtain c5 e5 w5 where m: "set_modes args (c4, e4, w) = (c5, e5, w5)" by (cases "set_modes args (c4, e4, w)")
          from made_trans[OF made_trans[OF p 2] set_modes_made[OF m]] show ?thesis
            unfolding m by (simp add: append.assoc) blast
        qed
        then show ?case by blast
      qed
    qed
  qed
qed

text \<open>
  C30. Certificates are verified exactly after success: when Init returns without having failed, it has
  made on its new context, in this order, the calls for the session id, the certificate and its checked
  private key (when they are named), the CAs, the verification mode and depth, the cache mode and the
  options. When it returns early there is an error event and no verification mode has been set. A
  private key without a certificate is never loaded.
\<close>

theorem verify_mode_set_on_success:
  assumes "arg_method args" "ans_new a = Some x"
  shows "case ctx_Init sid_len stat args a (c, e, w) of
      Fault \<Rightarrow> arg_session_id args = None \<or> c_nonempty (arg_certfile_name args) \<or> \<not> ans_ca a
    | Stop (c', e', w') \<Rightarrow> event_flag (w_err w') \<and> ctx c' = Some x \<and>
        (\<exists>new. ctx_calls e' = ctx_calls e @ map (Pair x) new \<and> (\<forall>v. Set_verify v \<notin> set new))
    | Go (c', e', w') _ \<Rightarrow> ctx c' = Some x \<and>
        (\<exists>s p q. ctx_calls e' = ctx_calls e @ map (Pair x)
          ([Set_mode, Set_session_id s] @ cert_calls args p q @ ca_calls args
           @ [Set_verify (arg_verify_mode args), Set_verify_depth (arg_verify_depth args),
              Set_session_cache_mode (arg_cache_mode args)]
           @ (if arg_options args > 0 then [Set_options (arg_options args)] else [])))"
proof -
  have fault: "arg_session_id args = None \<or> c_nonempty (arg_certfile_name args) \<or> \<not> ans_ca a"
    if "ctx_Init sid_len stat args a (c, e, w) = Fault"
    using that assms
    by (auto simp: ctx_Init_def set_session_id_def try_call_def load_cert_def load_CAs_def Let_def call_def
        split: option.splits if_splits)
  have outcome: "outcome (ctx_Init sid_len stat args a (c, e, w)) (gave_up (c\<lparr>ctx := Some x\<rparr>) e)
    (\<lambda>c' e'. \<exists>s p q. made (c\<lparr>ctx := Some x\<rparr>) e
       ([Set_mode, Set_session_id s] @ cert_calls args p q @ ca_calls args @ mode_calls args) c' e')"
    by (rule outcome_Init[OF assms])
  show ?thesis
  proof (cases "ctx_Init sid_len stat args a (c, e, w)")
    case Fault then show ?thesis using fault by simp
  next
    case (Stop st')
    obtain c' e' w' where st': "st' = (c', e', w')" by (cases st')
    from outcome obtain new where new: "ctx_calls e' = ctx_calls e @ map (Pair x) new" "no_verify new" "ctx c' = Some x"
        "event_flag (w_err w')"
      unfolding Stop st' by (auto simp: gave_up_def made_def)
    moreover have "\<forall>v. Set_verify v \<notin> set new" using new(2) by (auto simp: no_verify_def list_all_iff)
    ultimately show ?thesis unfolding Stop st' by auto
  next
    case (Go st' u)
    obtain c' e' w' where st': "st' = (c', e', w')" by (cases st')
    from outcome obtain s p q where m: "made (c\<lparr>ctx := Some x\<rparr>) e
        ([Set_mode, Set_session_id s] @ cert_calls args p q @ ca_calls args @ mode_calls args) c' e'"
      unfolding Go st' by (auto simp del: append_Cons append_Nil)
    have "ctx c' = Some x" "ctx_calls e' = ctx_calls e @ map (Pair x)
        ([Set_mode, Set_session_id s] @ cert_calls args p q @ ca_calls args @ mode_calls args)"
      using m by (simp_all add: made_def)
    then show ?thesis unfolding Go st' mode_calls_def by (simp only: run.case prod.case) blast
  qed
qed

definition sample_args :: ctx_args where
  "sample_args = \<lparr>arg_method = True, arg_session_id = Some ''app'', arg_keyfile_name = Some ''key.pem'', arg_keyfile_dir = None,
     arg_keyfile_type = 1, arg_password = None, arg_certfile_name = None, arg_certfile_dir = None, arg_certfile_type = 1,
     arg_CAfile = Some ''ca.pem'', arg_CApath = None, arg_verify_mode = 1, arg_verify_depth = 2, arg_cache_mode = 2,
     arg_options = 0\<rparr>"

definition sample_answers :: ctx_answers where
  "sample_answers = \<lparr>ans_new = Some 7, ans_sid = True, ans_cert = True, ans_key = True, ans_check = True, ans_ca = True,
     ans_queue_texts = []\<rparr>"

theorem verify_mode_set_on_success_witness:
  "\<exists>st' s. ctx_Init 32 Map.empty sample_args sample_answers (SSLContext 32, \<lparr>ctx_calls = [], ctx_freed = []\<rparr>, start_world ErrorHandler) = Go st' ()
    \<and> ctx_calls (fst (snd st')) = map (Pair 7) [Set_mode, Set_session_id s, Load_verify_locations (Some ''ca.pem'') None,
        Set_verify 1, Set_verify_depth 2, Set_session_cache_mode 2]"
proof -
  let ?st = "(SSLContext 32, \<lparr>ctx_calls = [], ctx_freed = []\<rparr>, start_world ErrorHandler)"
  have a: "arg_method sample_args" "ans_new sample_answers = Some 7" by (simp_all add: sample_args_def sample_answers_def)
  obtain st' where r: "ctx_Init 32 Map.empty sample_args sample_answers ?st = Go st' ()"
    by (simp add: ctx_Init_def set_session_id_def try_call_def load_cert_def load_CAs_def Let_def sample_args_def
        sample_answers_def c_nonempty_def)
  with verify_mode_set_on_success[OF a, where sid_len = 32 and stat = Map.empty and c = "SSLContext 32"
      and e = "\<lparr>ctx_calls = [], ctx_freed = []\<rparr>" and w = "start_world ErrorHandler"]
  show ?thesis
    by (auto simp: sample_args_def c_nonempty_def cert_calls_def ca_calls_def c_str_def split: prod.splits)
qed

end
