(* ===== verification/Ssl_Conn.thy ===== *)
theory Ssl_Conn
  imports Tcp_Conn
begin

text \<open>
  The connections of SSLConn.h and SSLConn.cc: a TCPConn with an SSL object and the peer's
  certificate, both pointers. OpenSSL is not part of the repository; what it answers to the
  successive calls of SSL_connect, SSL_accept, SSL_write, SSL_read and SSL_shutdown is a script of
  answers, and the objects given to SSL_free and X509_free are recorded in order. Of its documented
  behaviour the model uses that SSL_write and SSL_read transfer at most the count they are given.
  Without an SSL object the operations are those of TCPConn. Logging is left out, one call apart.
\<close>

section \<open>The answers of OpenSSL\<close>

datatype ssl_code = ZERO_RETURN | WANT_READ | WANT_WRITE | WANT_ACCEPT | WANT_CONNECT | WANT_X509_LOOKUP
  | SSL_SYSCALL | SSL_ERROR | SSL_OTHER

text \<open>
  One answer: the value returned (negative or the count, which the caller's length bounds), the data
  for SSL_read, what SSL_get_error then says for an SSL object, whether the error queue is not
  empty, the text of the queue and that of errno.
\<close>

record ssl_answer =
  ans_ret :: int
  ans_data :: string
  ans_code :: "nat \<Rightarrow> ssl_code"
  ans_queue :: bool
  ans_text :: string
  ans_errno :: string

record ssl_env =
  ssl_freed :: "nat list"
  x509_freed :: "nat list"
  sent_shutdown :: "nat list"

record sslconn =
  s_tcp :: tcpconn
  ssl :: "nat option"
  peer_cert :: "nat option"

type_synonym ssl_st = "sslconn \<times> ssl_env \<times> world"

abbreviation s_ip :: "sslconn \<Rightarrow> ipcomm" where "s_ip c \<equiv> tc_ip (s_tcp c)"
abbreviation s_blocking :: "sslconn \<Rightarrow> bool" where "s_blocking c \<equiv> blocking_flag (s_ip c)"

definition ssl_fail :: "int \<Rightarrow> string \<Rightarrow> ssl_st \<Rightarrow> ssl_st" where
  "ssl_fail r m st = (case st of (c, e, w) \<Rightarrow> (c, e, w_fail r m w))"

definition ssl_note :: "string \<Rightarrow> ssl_st \<Rightarrow> ssl_st" where
  "ssl_note m st = (case st of (c, e, w) \<Rightarrow> (c, e, snd (note_event m (s_tcp c, w))))"

definition ssl_event :: "ssl_st \<Rightarrow> bool" where
  "ssl_event st = event_flag (w_err (snd (snd st)))"

definition on_tcp :: "(tcp_st \<Rightarrow> tcp_st option) \<Rightarrow> ssl_st \<Rightarrow> ssl_st option" where
  "on_tcp f st = (case st of (c, e, w) \<Rightarrow> map_option (\<lambda>(t, w'). (c\<lparr>s_tcp := t\<rparr>, e, w')) (f (s_tcp c, w)))"

section \<open>Construction and copies\<close>

definition SSLConn :: "world \<Rightarrow> sslconn \<times> world" where
  "SSLConn w = (case TCPConn w of (t, w') \<Rightarrow> (\<lparr>s_tcp = t, ssl = None, peer_cert = None\<rparr>, w'))"

definition free_cert :: "nat option \<Rightarrow> ssl_env \<Rightarrow> ssl_env" where
  "free_cert c e = (case c of None \<Rightarrow> e | Some x \<Rightarrow> e\<lparr>x509_freed := x509_freed e @ [x]\<rparr>)"

text \<open>The SSL object goes with the last reference to the descriptor.\<close>

definition free_ssl_if_last :: "sslconn \<Rightarrow> ssl_env \<Rightarrow> world \<Rightarrow> ssl_env option" where
  "free_ssl_if_last c e w = (case ssl c of
      None \<Rightarrow> Some e
    | Some s \<Rightarrow> map_option (\<lambda>d. if dcnt d = 1 then e\<lparr>ssl_freed := ssl_freed e @ [s]\<rparr> else e) (heap w (dref (s_ip c))))"

definition ssl_destroy :: "ssl_st \<Rightarrow> (ssl_env \<times> world) option" where
  "ssl_destroy st = (case st of (c, e, w) \<Rightarrow>
     (case free_ssl_if_last c (free_cert (peer_cert c) e) w of
        None \<Rightarrow> None
      | Some e' \<Rightarrow> map_option (Pair e') (tcp_destroy (s_tcp c) w)))"

text \<open>get_cert: the certificate SSL_get_peer_certificate gives for an SSL object.\<close>

definition cert_of :: "(nat \<Rightarrow> nat option) \<Rightarrow> nat option \<Rightarrow> nat option" where
  "cert_of get_cert s = (case s of None \<Rightarrow> None | Some x \<Rightarrow> get_cert x)"

definition ssl_copy :: "(nat \<Rightarrow> nat option) \<Rightarrow> sslconn \<Rightarrow> world \<Rightarrow> (sslconn \<times> world) option" where
  "ssl_copy get_cert src w = map_option
     (\<lambda>(t, w'). (\<lparr>s_tcp = t, ssl = ssl src, peer_cert = cert_of get_cert (ssl src)\<rparr>, w')) (tcp_copy (s_tcp src) w)"

definition ssl_assign :: "(nat \<Rightarrow> nat option) \<Rightarrow> sslconn \<Rightarrow> ssl_st \<Rightarrow> ssl_st option" where
  "ssl_assign get_cert src st = (case st of (c, e, w) \<Rightarrow>
     (case free_ssl_if_last c e w of
        None \<Rightarrow> None
      | Some e1 \<Rightarrow>
          (let c1 = c\<lparr>ssl := ssl src, peer_cert := cert_of get_cert (ssl src)\<rparr>; e2 = free_cert (peer_cert c) e1
           in map_option (\<lambda>(t, w'). (c1\<lparr>s_tcp := t\<rparr>, e2, w')) (tcp_assign (s_tcp c) (s_tcp src) w))))"

definition ssl_equal :: "(sock_addr \<Rightarrow> string option) \<Rightarrow> sslconn \<Rightarrow> sslconn \<Rightarrow> world \<Rightarrow> bool option" where
  "ssl_equal ntop c other w = tcp_equal ntop (s_tcp c) (s_tcp other) w"

definition ssl_clear :: "ssl_st \<Rightarrow> ssl_st option" where
  "ssl_clear st = (case st of (c, e, w) \<Rightarrow>
     (case free_ssl_if_last c e w of
        None \<Rightarrow> None
      | Some e1 \<Rightarrow> on_tcp tcp_clear (c\<lparr>ssl := None, peer_cert := None\<rparr>, free_cert (peer_cert c) e1, w)))"

definition ssl_print :: "(sock_addr \<Rightarrow> string option) \<Rightarrow> sslconn \<Rightarrow> world \<Rightarrow> string option" where
  "ssl_print ntop c w = map_option (\<lambda>s. zfill TCP_SCRATCH (sn_print TCP_SCRATCH [c_str s])) (tcp_print ntop (s_tcp c) w)"

section \<open>Setting up\<close>

definition ssl_Init :: "(int \<Rightarrow> (int \<times> string \<times> addrinfo list) list) \<Rightarrow> (int \<times> string) list \<Rightarrow> int \<Rightarrow> int
    \<Rightarrow> ssl_st \<Rightarrow> ssl_st option" where
  "ssl_Init getaddrinfo names family retry_cnt st =
     map_option (ssl_note ''SSLConn::Init(): '') (on_tcp (tcp_Init getaddrinfo names family retry_cnt) st)"

definition ssl_InitServer :: "int \<Rightarrow> ssl_st \<Rightarrow> ssl_st option" where
  "ssl_InitServer family st = map_option (ssl_note ''SSLConn::InitServer(): '')
     (on_tcp (\<lambda>t. Some (on_ip (InitServer family) t)) st)"

text \<open>
  Socket; sock are the arguments of IPComm::Socket, ctx whether a context is given, and new_ssl the
  result of SSL_new (or the text of the error queue).
\<close>

definition ssl_Socket :: "(ipcomm \<times> world \<Rightarrow> (ipcomm \<times> world) option) \<Rightarrow> bool \<Rightarrow> string + nat \<Rightarrow> ssl_st \<Rightarrow> ssl_st option" where
  "ssl_Socket sock ctx new_ssl st = (case on_tcp (on_ip_opt sock) st of
      None \<Rightarrow> None
    | Some st1 \<Rightarrow>
        if ssl_event st1 then Some (ssl_note ''SSLConn::Socket(): '' st1)
        else if \<not> ctx then Some st1
        else (case new_ssl of
            Inr s \<Rightarrow> Some ((fst st1)\<lparr>ssl := Some s\<rparr>, snd st1)
          | Inl t \<Rightarrow> Some (ssl_fail EX_SOFTWARE (''SSLConn::Socket(): SSL_new(3) failed: '' @ t)
                           ((fst st1)\<lparr>ssl := None\<rparr>, snd st1))))"

section \<open>Handshakes\<close>

text \<open>
  The two switches of Connect and Accept on a failed handshake have the same branches. fn is what the
  message starts with; host and fd are those printed; the result is None where the operation
  returns without an error, the socket being not ready.
\<close>

definition handshake_zero :: "string \<Rightarrow> string \<Rightarrow> int \<Rightarrow> nat \<Rightarrow> ssl_answer \<Rightarrow> string" where
  "handshake_zero fn host fd s a = (case ans_code a s of
      ZERO_RETURN \<Rightarrow> fn @ host @ '' terminated connection''
    | SSL_SYSCALL \<Rightarrow>
        if \<not> ans_queue a
        then fn @ ''Recevied EOF while trying to SSL_connect() to '' @ host @ '' on '' @ show_int fd
        else fn @ ''SSL_ERROR_SYSCALL: SSL_connect() to '' @ host @ '' failed: '' @ ans_text a
    | SSL_ERROR \<Rightarrow> fn @ ''Shutdown: SSL_ERROR_SSL: '' @ ans_text a
    | _ \<Rightarrow> fn @ ''unknown ERROR: '' @ ans_text a)"

definition handshake_negative :: "string \<Rightarrow> string \<Rightarrow> int \<Rightarrow> bool \<Rightarrow> nat \<Rightarrow> ssl_answer \<Rightarrow> string option" where
  "handshake_negative fn host fd blocking s a = (let on_conn = ''on blocking connection to '' @ host @ '' (fd '' @ show_int fd @ '')'' in
     case ans_code a s of
       WANT_READ \<Rightarrow> if blocking then Some (fn @ ''SSL_ERROR_WANT_READ/SSL_ERROR_WANT_WRITE: '' @ on_conn) else None
     | WANT_WRITE \<Rightarrow> if blocking then Some (fn @ ''SSL_ERROR_WANT_READ/SSL_ERROR_WANT_WRITE: '' @ on_conn) else None
     | WANT_ACCEPT \<Rightarrow> if blocking then Some (fn @ ''SSL_ERROR_WANT_ACCEPT/SSL_ERROR_WANT_CONNECT :'' @ on_conn) else None
     | WANT_CONNECT \<Rightarrow> if blocking then Some (fn @ ''SSL_ERROR_WANT_ACCEPT/SSL_ERROR_WANT_CONNECT :'' @ on_conn) else None
     | WANT_X509_LOOKUP \<Rightarrow> Some (fn @ ''SSL_ERROR_WANT_X509_LOOKUP: with host '' @ host @ '' (fd '' @ show_int fd @ '')'')
     | SSL_SYSCALL \<Rightarrow>
         if \<not> ans_queue a
         then Some (fn @ ''SSL_ERROR_SYSCALL: I/O error with '' @ host @ '' on fd '' @ show_int fd @ '': '' @ ans_errno a)
         else Some (fn @ ''SSL_ERROR_SYSCALL: '' @ ans_text a)
     | SSL_ERROR \<Rightarrow> Some (fn @ ''SSL_ERROR_SSL: '' @ ans_text a)
     | _ \<Rightarrow> Some (fn @ ''unknown ERROR: '' @ ans_text a))"

abbreviation s_host :: "(sock_addr \<Rightarrow> string option) \<Rightarrow> sslconn \<Rightarrow> string" where
  "s_host ntop c \<equiv> c_str (hostname ntop (s_ip c))"

text \<open>
  What Connect and Accept make of the answer a of SSL_connect or SSL_accept, for the SSL object s that
  they ask about the error and the certificate. A handshake that is not complete on a connection that
  does not block is not an error, and leaves no certificate.
\<close>

definition take_cert :: "(nat \<Rightarrow> nat option) \<Rightarrow> nat \<Rightarrow> ssl_st \<Rightarrow> ssl_st" where
  "take_cert get_cert s st = ((fst st)\<lparr>peer_cert := get_cert s\<rparr>, snd st)"

definition handshake :: "string \<Rightarrow> (sock_addr \<Rightarrow> string option) \<Rightarrow> (nat \<Rightarrow> nat option) \<Rightarrow> int \<Rightarrow> bool \<Rightarrow> nat
    \<Rightarrow> ssl_answer \<Rightarrow> ssl_st \<Rightarrow> ssl_st" where
  "handshake fn ntop get_cert fd blocking s a st =
     (if ans_ret a = 0 then ssl_fail EX_SOFTWARE (handshake_zero fn (s_host ntop (fst st)) fd s a) st
      else if ans_ret a < 0
      then (case handshake_negative fn (s_host ntop (fst st)) fd blocking s a of
          None \<Rightarrow> st
        | Some m \<Rightarrow> ssl_fail EX_SOFTWARE m st)
      else take_cert get_cert s st)"

text \<open>Connect. setfd is the result of SSL_set_fd, an error text on failure.\<close>

definition ssl_Connect :: "(sock_addr \<Rightarrow> string option) \<Rightarrow> (int \<times> string) option \<Rightarrow> string option \<Rightarrow> (nat \<Rightarrow> nat option)
    \<Rightarrow> ssl_answer list \<Rightarrow> ssl_st \<Rightarrow> ssl_st sys" where
  "ssl_Connect ntop res setfd get_cert script st = (case on_tcp (tcp_Connect ntop res) st of
      None \<Rightarrow> Undefined
    | Some st1 \<Rightarrow>
        if ssl_event st1 then Returns (ssl_note ''SSLConn::Connect(): '' st1)
        else (case ssl (fst st1) of
            None \<Rightarrow> Returns st1
          | Some s \<Rightarrow>
              (case (fd_of (s_ip (fst st1)) (snd (snd st1)), setfd, script) of
                 (None, _, _) \<Rightarrow> Undefined
               | (Some fd, Some t, _) \<Rightarrow>
                   Returns (ssl_fail EX_SOFTWARE (''SSLConn::Connect(): SSL_set_fd(3) failed: '' @ t) st1)
               | (Some fd, None, []) \<Rightarrow> Blocks
               | (Some fd, None, a # _) \<Rightarrow>
                   Returns (handshake ''SSLConn::Connect(): '' ntop get_cert fd (s_blocking (fst st1)) s a st1))))"

text \<open>
  Accept. The peer's handshake error is looked up for the listening object's own SSL object, and so
  is the peer's certificate; the descriptor printed is that of the listening object, and it is its
  blocking mode that decides. timeo is the result of the Setsockopt on the peer.
\<close>

definition SO_LEVEL :: int where "SO_LEVEL = 1"
definition SO_RCVTIMEO :: int where "SO_RCVTIMEO = 20"

definition accept_handshake :: "(sock_addr \<Rightarrow> string option) \<Rightarrow> (nat \<Rightarrow> nat option) \<Rightarrow> int \<Rightarrow> bool \<Rightarrow> nat
    \<Rightarrow> ssl_answer \<Rightarrow> ssl_st \<Rightarrow> ssl_st" where
  "accept_handshake = handshake ''SSLConn::Accept: ''"

definition ssl_Accept :: "(sock_addr \<Rightarrow> string option) \<Rightarrow> (int \<times> string) + (int \<times> sock_addr) \<Rightarrow> (int \<times> string) list
    \<Rightarrow> string option \<Rightarrow> string + nat \<Rightarrow> string option \<Rightarrow> (nat \<Rightarrow> nat option) \<Rightarrow> ssl_answer list
    \<Rightarrow> sslconn \<Rightarrow> ssl_st \<Rightarrow> ssl_st sys" where
  "ssl_Accept ntop res names timeo new_ssl setfd get_cert script server st =
     (case on_tcp (tcp_Accept res names (s_tcp server)) st of
        None \<Rightarrow> Undefined
      | Some st1 \<Rightarrow>
          if ssl_event st1 then Returns (ssl_note ''SSLConn::Accept(): '' st1)
          else (case on_tcp (on_ip_opt (ip_Setsockopt SO_LEVEL SO_RCVTIMEO timeo)) st1 of
              None \<Rightarrow> Undefined
            | Some st2 \<Rightarrow>
                (case ssl server of
                   None \<Rightarrow> Returns st2
                 | Some l \<Rightarrow>
                     (case new_ssl of
                        Inl t \<Rightarrow> Returns (ssl_fail EX_SOFTWARE (''SSLConn::Accept(): SSL_new(3) failed: '' @ t)
                                   ((fst st2)\<lparr>ssl := None\<rparr>, snd st2))
                      | Inr s \<Rightarrow>
                          (let st3 = ((fst st2)\<lparr>ssl := Some s\<rparr>, snd st2) in
                           case (fd_of (s_ip server) (snd (snd st3)), setfd, script) of
                             (None, _, _) \<Rightarrow> Undefined
                           | (Some fd, Some t, _) \<Rightarrow>
                               Returns (ssl_fail EX_SOFTWARE (''SSLConn::Accept(): SSL_set_fd(3) failed: '' @ t) st3)
                           | (Some fd, None, []) \<Rightarrow> Blocks
                           | (Some fd, None, a # _) \<Rightarrow>
                               Returns (accept_handshake ntop get_cert fd (s_blocking server) l a st3))))))"

definition ssl_Accept_new :: "(sock_addr \<Rightarrow> string option) \<Rightarrow> (int \<times> string) + (int \<times> sock_addr) \<Rightarrow> (int \<times> string) list
    \<Rightarrow> string option \<Rightarrow> string + nat \<Rightarrow> string option \<Rightarrow> (nat \<Rightarrow> nat option) \<Rightarrow> ssl_answer list
    \<Rightarrow> ssl_st \<Rightarrow> ssl_st sys" where
  "ssl_Accept_new ntop res names timeo new_ssl setfd get_cert script st =
     (case SSLConn (snd (snd st)) of (peer, w) \<Rightarrow>
        ssl_Accept ntop res names timeo new_ssl setfd get_cert script (fst st) (peer, fst (snd st), w))"

section \<open>Closing\<close>

definition close_tcp :: "ssl_answer list \<Rightarrow> ssl_st \<Rightarrow> (ssl_answer list \<times> ssl_st) sys" where
  "close_tcp script st = of_opt (map_option (Pair script) (on_tcp tcp_Close st))"

definition ssl_Shutdown :: "(sock_addr \<Rightarrow> string option) \<Rightarrow> bool \<Rightarrow> ssl_answer list \<Rightarrow> ssl_st \<Rightarrow> (ssl_answer list \<times> ssl_st) sys" where
  "ssl_Shutdown ntop unidirectional script st = (let c = fst st in
     case ssl c of
       None \<Rightarrow> close_tcp script st
     | Some s \<Rightarrow>
         (case fd_of (s_ip c) (snd (snd st)) of
            None \<Rightarrow> Undefined
          | Some fd \<Rightarrow>
              if fd = DESCRIPTOR_NULL
              then Returns (script, ssl_fail EX_SOFTWARE (''SSLConn::Shutdown(): '' @ s_host ntop c
                     @ [CHR 0x27] @ ''s socket is not open (i.e., fd is '' @ show_int DESCRIPTOR_NULL @ '')'') st)
              else (case script of
                  [] \<Rightarrow> Blocks
                | a # rest \<Rightarrow>
                    (case (if ans_ret a = 0 \<and> \<not> unidirectional then rest else script) of
                       [] \<Rightarrow> Blocks
                     | b # rest' \<Rightarrow>
                         if ans_ret b \<ge> 0 then close_tcp rest' st
                         else if ans_code b s = WANT_READ \<or> ans_code b s = WANT_WRITE
                         then (if s_blocking c
                               then close_tcp rest' (ssl_fail EX_SOFTWARE
                                 (''SSLConn::Shutdown(): Recevived SSL_ERROR_WANT_READ|WRITE on blocking connection with ''
                                  @ s_host ntop c) st)
                               else Returns (rest', st))
                         else close_tcp rest' (ssl_fail EX_SOFTWARE
                           (''SSLConn::Shutdown(): Unknown ERROR with '' @ s_host ntop c @ '': '' @ ans_text b) st)))))"

section \<open>Writing\<close>

text \<open>
  The error of a negative return, None where the count is returned without one: the wait for a read
  is never an error, that for a write only on a blocking connection.
\<close>

definition write_error :: "string \<Rightarrow> int \<Rightarrow> bool \<Rightarrow> ssl_code \<Rightarrow> ssl_answer \<Rightarrow> string option" where
  "write_error host fd blocking code a = (case code of
      ZERO_RETURN \<Rightarrow> Some (''SSLConn::Write(): SSL_ERROR_ZERO_RETURN: '' @ host @ '' terminated connection'')
    | WANT_READ \<Rightarrow> None
    | WANT_WRITE \<Rightarrow>
        if blocking
        then Some (''SSLConn::Write() SSL_ERROR_WANT_WRITE: on blocking connection to '' @ host @ '' on fd '' @ show_int fd)
        else None
    | SSL_SYSCALL \<Rightarrow>
        if \<not> ans_queue a
        then Some (''SSLConn::Write() SSL_ERROR_SYSCALL: I/O error with '' @ host @ '' on fd '' @ show_int fd @ '': '' @ ans_errno a)
        else Some (''SSLConn::Write() SSL_ERROR_SYSCALL: '' @ host @ '': '' @ ans_text a)
    | SSL_ERROR \<Rightarrow> Some (''SSLConn::Write() SSL_ERROR_SSL: '' @ host @ '': '' @ ans_text a)
    | _ \<Rightarrow> Some (''SSLConn::Write() unknown ERROR: '' @ ans_text a))"

definition mark_sent :: "nat \<Rightarrow> ssl_st \<Rightarrow> ssl_st" where
  "mark_sent s st = (case st of (c, e, w) \<Rightarrow> (c, e\<lparr>sent_shutdown := sent_shutdown e @ [s]\<rparr>, w))"

text \<open>What Write makes of the answer a, for the SSL object s; logged says whether the warning for a
  close notify is formatted: its format has two directives for one argument.\<close>

definition written :: "bool \<Rightarrow> (sock_addr \<Rightarrow> string option) \<Rightarrow> string \<Rightarrow> nat \<Rightarrow> nat \<Rightarrow> int \<Rightarrow> ssl_answer
    \<Rightarrow> ssl_answer list \<Rightarrow> wr_event list \<Rightarrow> ssl_st
    \<Rightarrow> (int \<times> string \<times> ssl_answer list \<times> wr_event list \<times> ssl_st) sys" where
  "written logged ntop buf buf_len s fd a rest evs st =
     (let c = fst st; r = min (ans_ret a) (to_int (int buf_len)) in
      if r = 0
      then (case ans_code a s of
          ZERO_RETURN \<Rightarrow>
            if logged then Undefined
            else bind_sys (ssl_Shutdown ntop False rest st) (\<lambda>(rest', st'). Returns (0, [], rest', evs, st'))
        | SSL_SYSCALL \<Rightarrow>
            if \<not> ans_queue a then Returns (0, [], rest, evs, mark_sent s st)
            else Returns (0, [], rest, evs, ssl_fail EX_SOFTWARE (''SSLConn::Write(): Received SSL_ERROR_SYSCALL: ''
                   @ s_host ntop c @ '' terminated connection: '' @ ans_text a) st)
        | SSL_ERROR \<Rightarrow> Returns (0, [], rest, evs, st)
        | _ \<Rightarrow> Returns (0, [], rest, evs, ssl_fail EX_SOFTWARE
                 (''SSLConn::Write(): returned 0, unknown ERROR: '' @ ans_text a) st))
      else if r < 0
      then (case write_error (s_host ntop c) fd (s_blocking c) (ans_code a s) a of
          None \<Rightarrow> Returns (r, [], rest, evs, st)
        | Some m \<Rightarrow> Returns (r, [], rest, evs, ssl_fail EX_SOFTWARE m st))
      else Returns (r, take (nat r) buf, rest, evs, st))"

text \<open>
  Write: the value returned, what went out, what is left of the two scripts, the state. The
  descriptor of a live object is always there, so looking it up once at the start changes nothing.
\<close>

definition ssl_Write :: "bool \<Rightarrow> (sock_addr \<Rightarrow> string option) \<Rightarrow> string \<Rightarrow> nat \<Rightarrow> ssl_answer list \<Rightarrow> wr_event list \<Rightarrow> ssl_st
    \<Rightarrow> (int \<times> string \<times> ssl_answer list \<times> wr_event list \<times> ssl_st) sys" where
  "ssl_Write logged ntop buf buf_len script evs st = (let c = fst st in
     case ssl c of
       None \<Rightarrow> bind_sys (tcp_Write buf buf_len evs (s_tcp c, snd (snd st))) (\<lambda>(n, wire, evs', t, w).
                 Returns (int n, wire, script, evs', c\<lparr>s_tcp := t\<rparr>, fst (snd st), w))
     | Some s \<Rightarrow>
         if buf_len = 0 then Returns (0, [], script, evs, st)
         else (case (fd_of (s_ip c) (snd (snd st)), script) of
             (None, _) \<Rightarrow> Undefined
           | (Some fd, []) \<Rightarrow> Blocks
           | (Some fd, a # rest) \<Rightarrow>
               if length buf < buf_len then Undefined
               else written logged ntop buf buf_len s fd a rest evs st))"

section \<open>Reading\<close>

definition read_error :: "string \<Rightarrow> int \<Rightarrow> bool \<Rightarrow> ssl_code \<Rightarrow> ssl_answer \<Rightarrow> string option" where
  "read_error host fd blocking code a = (case code of
      ZERO_RETURN \<Rightarrow> Some (''SSLConn::Read(): SSL_ERROR_ZERO_RETURN: '' @ host @ '' terminated connection'')
    | WANT_READ \<Rightarrow> None
    | WANT_WRITE \<Rightarrow>
        if blocking
        then Some (''SSLConn::Read(): SSL_ERROR_WANT_WRITE: on blocking connection to '' @ host @ '' on fd '' @ show_int fd)
        else None
    | SSL_SYSCALL \<Rightarrow>
        if \<not> ans_queue a
        then Some (''SSLConn::Read(): SSL_ERROR_SYSCALL: I/O error with '' @ host @ '' on fd '' @ show_int fd @ '': '' @ ans_errno a)
        else Some (''SSLConn::Read(): SSL_ERROR_SYSCALL: '' @ host @ '': '' @ ans_text a)
    | SSL_ERROR \<Rightarrow> Some (''SSLConn::Read(): SSL_ERROR_SSL: '' @ host @ '': '' @ ans_text a)
    | _ \<Rightarrow> Some ((if blocking then ''SSLConn::Read(): unknown blocking ERROR: ''
                  else ''SSLConn::Read(): unknown non-blocking ERROR: '') @ ans_text a))"

text \<open>
  Read: the value returned, the bytes stored at buf, eof, the scripts, the state. SSL_read takes the
  count as an int and stores at most that many bytes. A close notify of the peer is answered by
  Shutdown, which closes the descriptor; eof stays false.
\<close>

definition ssl_Read :: "(sock_addr \<Rightarrow> string option) \<Rightarrow> nat \<Rightarrow> ssl_answer list \<Rightarrow> rd_event list \<Rightarrow> ssl_st
    \<Rightarrow> (int \<times> string \<times> bool \<times> ssl_answer list \<times> rd_event list \<times> ssl_st) sys" where
  "ssl_Read ntop buf_len script evs st = (let c = fst st in
     case ssl c of
       None \<Rightarrow> bind_sys (tcp_Read buf_len evs (s_tcp c, snd (snd st))) (\<lambda>(n, bytes, eof, evs', t, w).
                 Returns (n, bytes, eof, script, evs', c\<lparr>s_tcp := t\<rparr>, fst (snd st), w))
     | Some s \<Rightarrow>
         (case (fd_of (s_ip c) (snd (snd st)), script) of
            (None, _) \<Rightarrow> Undefined
          | (Some fd, []) \<Rightarrow> Blocks
          | (Some fd, a # rest) \<Rightarrow>
              (let bytes = (if ans_ret a > 0 then take (nat (to_int (int buf_len))) (ans_data a) else []);
                   r = (if ans_ret a > 0 then int (length bytes) else ans_ret a) in
                if r = 0
                then (case ans_code a s of
                    ZERO_RETURN \<Rightarrow> bind_sys (ssl_Shutdown ntop False rest st) (\<lambda>(rest', st').
                      Returns (0, [], False, rest', evs, st'))
                  | SSL_SYSCALL \<Rightarrow>
                      if \<not> ans_queue a then Returns (0, [], True, rest, evs, mark_sent s st)
                      else Returns (0, [], False, rest, evs, ssl_fail EX_SOFTWARE (''SSLConn::Read(): Received SSL_ERROR_SYSCALL: ''
                             @ s_host ntop c @ '' terminated connection: '' @ ans_text a) st)
                  | SSL_ERROR \<Rightarrow> Returns (0, [], False, rest, evs, st)
                  | _ \<Rightarrow> Returns (0, [], False, rest, evs, ssl_fail EX_SOFTWARE
                           (''SSLConn::Read(): returned 0, unknown ERROR: '' @ ans_text a) st))
                else if r < 0
                then (case read_error (s_host ntop c) fd (s_blocking c) (ans_code a s) a of
                    None \<Rightarrow> Returns (r, [], False, rest, evs, st)
                  | Some m \<Rightarrow> Returns (r, [], False, rest, evs, ssl_fail EX_SOFTWARE m st))
                else Returns (r, bytes, False, rest, evs, st))))"

section \<open>Tests\<close>

text \<open>get_shutdown: the two bits (sent, received) of SSL_get_shutdown for the object.\<close>

definition IsShutdownInitiated :: "(nat option \<Rightarrow> bool \<times> bool) \<Rightarrow> sslconn \<Rightarrow> bool" where
  "IsShutdownInitiated get_shutdown c \<longleftrightarrow> fst (get_shutdown (ssl c)) \<or> snd (get_shutdown (ssl c))"

definition IsShutdownComplete :: "(nat option \<Rightarrow> bool \<times> bool) \<Rightarrow> sslconn \<Rightarrow> bool" where
  "IsShutdownComplete get_shutdown c \<longleftrightarrow> fst (get_shutdown (ssl c)) \<and> snd (get_shutdown (ssl c))"

section \<open>What a handshake promises\<close>

lemma ssl_event_simps [simp]:
  "ssl_event (ssl_fail r m st)" "ssl_event (mark_sent s st) = ssl_event st"
  by (cases st; simp add: ssl_event_def ssl_fail_def mark_sent_def w_fail_def)+

lemma ssl_note_event: "ssl_event (ssl_note m st) = ssl_event st"
  by (cases st) (simp add: ssl_note_def ssl_event_def note_event_def error_AppendMsg_def Let_def split: option.split)

lemma handshake_event:
  "ssl_event (handshake fn ntop g fd True s a st) \<longleftrightarrow> ssl_event st \<or> ans_ret a \<le> 0"
  "ans_ret a \<le> 0 \<Longrightarrow> peer_cert (fst (handshake fn ntop g fd True s a st)) = peer_cert (fst st)"
  "0 < ans_ret a \<Longrightarrow> handshake fn ntop g fd b s a st = take_cert g s st"
proof -
  have n: "handshake_negative fn h fd True s a \<noteq> None" for h
    by (cases "ans_code a s") (simp_all add: handshake_negative_def)
  consider "ans_ret a = 0" | "ans_ret a < 0" | "0 < ans_ret a" by linarith
  then have "(ssl_event (handshake fn ntop g fd True s a st) \<longleftrightarrow> ssl_event st \<or> ans_ret a \<le> 0)
    \<and> (ans_ret a \<le> 0 \<longrightarrow> peer_cert (fst (handshake fn ntop g fd True s a st)) = peer_cert (fst st))"
  proof cases
    case 2
    obtain m where m: "handshake_negative fn (s_host ntop (fst st)) fd True s a = Some m" using n by blast
    show ?thesis using 2 unfolding handshake_def m by (cases st) (simp add: ssl_fail_def ssl_event_def w_fail_def)
  qed (cases st; simp add: handshake_def ssl_fail_def ssl_event_def w_fail_def take_cert_def)+
  then show "ssl_event (handshake fn ntop g fd True s a st) \<longleftrightarrow> ssl_event st \<or> ans_ret a \<le> 0"
    "ans_ret a \<le> 0 \<Longrightarrow> peer_cert (fst (handshake fn ntop g fd True s a st)) = peer_cert (fst st)" by blast+
qed (simp add: handshake_def)

lemma tcp_Connect_quiet:
  assumes "tcp_Connect ntop res (c, w) = Some (c', w')" "\<not> event_flag (w_err w')" "blocking_flag (tc_ip c)"
  shows "res = None" "c' = c\<lparr>connected := True\<rparr>" "w' = w"
  using assms by (auto simp: tcp_Connect_def unknown_family_def tcp_fail_def w_fail_def Let_def
      split: if_splits option.splits)

lemma tcp_Accept_quiet:
  "tcp_Accept res names server st = Some st' \<Longrightarrow> \<not> event_flag (w_err (snd st')) \<Longrightarrow> \<exists>fd sa. res = Inr (fd, sa)"
  by (cases res) (auto simp: tcp_Accept_def unknown_family_def tcp_fail_def w_fail_def Let_def split: if_splits)

lemma ssl_Connect_quiet:
  assumes "ssl_Connect ntop res setfd g script (c, e, w) = Returns st'" "ssl c = Some s" "s_blocking c" "\<not> ssl_event st'"
  shows "res = None \<and> setfd = None \<and> (\<exists>a rest. script = a # rest \<and> 0 < ans_ret a)
    \<and> connected (s_tcp (fst st')) \<and> peer_cert (fst st') = g s"
proof -
  obtain t w1 where 1: "tcp_Connect ntop res (s_tcp c, w) = Some (t, w1)"
    using assms(1) by (cases "tcp_Connect ntop res (s_tcp c, w)") (auto simp: ssl_Connect_def on_tcp_def)
  let ?st = "(c\<lparr>s_tcp := t\<rparr>, e, w1)"
  note step = assms(1)[unfolded ssl_Connect_def on_tcp_def, simplified, unfolded 1, simplified]
  have q: "\<not> ssl_event ?st"
  proof
    assume e: "ssl_event ?st"
    then have "st' = ssl_note ''SSLConn::Connect(): '' ?st" using step by simp
    with e assms(4) show False by (simp add: ssl_note_event)
  qed
  from tcp_Connect_quiet[OF 1] q assms(3) have n: "res = None" "t = (s_tcp c)\<lparr>connected := True\<rparr>" "w1 = w"
    by (simp_all add: ssl_event_def)
  obtain fd a rest where f: "setfd = None" "script = a # rest" "st' = handshake ''SSLConn::Connect(): '' ntop g fd True s a ?st"
    using step q assms(2,3,4) by (cases "fd_of (tc_ip t) w1"; cases setfd; cases script) (auto simp: n)
  then have "0 < ans_ret a" using assms(4) by (simp add: handshake_event(1))
  then show ?thesis by (simp add: n f handshake_event(3) take_cert_def)
qed

lemma ssl_Accept_quiet:
  assumes "ssl_Accept ntop res names timeo new_ssl setfd g script server st = Returns st'" "ssl server = Some l"
    "s_blocking server" "\<not> ssl_event st'"
  shows "(\<exists>fd sa. res = Inr (fd, sa)) \<and> setfd = None \<and> (\<exists>a rest. script = a # rest \<and> 0 < ans_ret a)
    \<and> (\<exists>s. new_ssl = Inr s \<and> ssl (fst st') = Some s) \<and> peer_cert (fst st') = g l"
proof -
  obtain st1 where 1: "on_tcp (tcp_Accept res names (s_tcp server)) st = Some st1"
    using assms(1) by (cases "on_tcp (tcp_Accept res names (s_tcp server)) st") (auto simp: ssl_Accept_def)
  note step1 = assms(1)[unfolded ssl_Accept_def 1, simplified]
  have q: "\<not> ssl_event st1"
  proof
    assume e: "ssl_event st1"
    then have "st' = ssl_note ''SSLConn::Accept(): '' st1" using step1 by simp
    with e assms(4) show False by (simp add: ssl_note_event)
  qed
  have tcp: "\<exists>fd sa. res = Inr (fd, sa)"
    using 1 q by (auto simp: on_tcp_def ssl_event_def split: prod.splits dest!: tcp_Accept_quiet)
  obtain st2 where 2: "on_tcp (on_ip_opt (ip_Setsockopt SO_LEVEL SO_RCVTIMEO timeo)) st1 = Some st2"
    using step1 q by (cases "on_tcp (on_ip_opt (ip_Setsockopt SO_LEVEL SO_RCVTIMEO timeo)) st1") auto
  obtain s fd a rest where f: "new_ssl = Inr s" "setfd = None" "script = a # rest"
      "st' = handshake ''SSLConn::Accept: '' ntop g fd True l a ((fst st2)\<lparr>ssl := Some s\<rparr>, snd st2)"
    using step1 2 q assms(2,3,4)
    by (cases new_ssl; cases "fd_of (s_ip server) (snd (snd st2))"; cases setfd; cases script)
       (auto simp: accept_handshake_def Let_def)
  then have "0 < ans_ret a" using assms(4) by (simp add: handshake_event(1))
  with tcp show ?thesis by (simp add: f handshake_event(3) take_cert_def)
qed

text \<open>
  C31. What a caller may conclude when a handshake on a blocking connection has returned without an
  error. After Connect the connection is up, the SSL handshake is complete, and the certificate in the
  object is the one that this SSL object has of its peer. After Accept the connection and the
  handshake are complete and the peer's object has its new SSL object, but its certificate is that of
  the peer of the listening object's SSL object, whatever certificate the new peer has presented.
\<close>

theorem handshake_completes:
  assumes "\<not> ssl_event st'" "ssl c = Some s" "s_blocking c"
  shows "(ssl_Connect ntop res setfd g script (c, e, w) = Returns st' \<longrightarrow>
      res = None \<and> setfd = None \<and> (\<exists>a rest. script = a # rest \<and> 0 < ans_ret a)
      \<and> connected (s_tcp (fst st')) \<and> peer_cert (fst st') = g s)
    \<and> (ssl_Accept ntop acc names timeo new_ssl setfd g script c st = Returns st' \<longrightarrow>
      (\<exists>fd sa. acc = Inr (fd, sa)) \<and> setfd = None \<and> (\<exists>a rest. script = a # rest \<and> 0 < ans_ret a)
      \<and> (\<exists>s'. new_ssl = Inr s' \<and> ssl (fst st') = Some s') \<and> peer_cert (fst st') = g s)"
  using ssl_Connect_quiet[OF _ assms(2,3,1)] ssl_Accept_quiet[OF _ assms(2,3,1)] by blast

text \<open>A listening connection with SSL object 1, and a peer that gets SSL object 2, with certificate 8.\<close>

definition listening_conn :: sslconn where
  "listening_conn = (let c = fst (SSLConn example_world) in c\<lparr>ssl := Some 1,
     s_tcp := (s_tcp c)\<lparr>tc_ip := (s_ip c)\<lparr>address_family := AF_INET, dns_names := [''host'']\<rparr>\<rparr>\<rparr>)"

definition done_answer :: ssl_answer where
  "done_answer = \<lparr>ans_ret = 1, ans_data = [], ans_code = \<lambda>_. SSL_OTHER, ans_queue = False, ans_text = [], ans_errno = []\<rparr>"

definition handshake_world :: world where
  "handshake_world = snd (SSLConn example_world)"

definition no_ssl_env :: ssl_env where
  "no_ssl_env = \<lparr>ssl_freed = [], x509_freed = [], sent_shutdown = []\<rparr>"

definition connect_run :: "ssl_st sys" where
  "connect_run = ssl_Connect (\<lambda>_. None) None None (\<lambda>s. Some (s + 6)) [done_answer] (listening_conn, no_ssl_env, handshake_world)"

definition accept_run :: "ssl_st sys" where
  "accept_run = (case SSLConn handshake_world of (peer, w) \<Rightarrow>
     ssl_Accept (\<lambda>_. None) (Inr (9, \<lparr>sa_family = AF_INET, sa_port = 80, sa_addr = [10, 0, 0, 1]\<rparr>)) [(0, ''peer'')] None (Inr 2) None
       (\<lambda>s. Some (s + 6)) [done_answer] listening_conn (peer, no_ssl_env, w))"

lemmas handshake_run_defs = listening_conn_def handshake_world_def done_answer_def no_ssl_env_def SSLConn_def TCPConn_def
  IPComm_def new_descriptor_def example_world_def start_world_def on_tcp_def tcp_Connect_def known_family_def fd_of_def
  handshake_def take_cert_def ssl_event_def ErrorHandler_def Let_def

lemma connect_run_returns: "\<exists>st'. connect_run = Returns st' \<and> \<not> ssl_event st'"
  by (simp add: connect_run_def ssl_Connect_def handshake_run_defs)

lemma accept_run_returns: "\<exists>st'. accept_run = Returns st' \<and> \<not> ssl_event st'"
  by (simp add: accept_run_def ssl_Accept_def accept_handshake_def tcp_Accept_def set_fd_def set_address_family_def
      on_ip_opt_def ip_Setsockopt_def AF_INET_def AF_INET6_def AF_UNSPEC_def DESCRIPTOR_NULL_def ResolveDNSName_def handshake_run_defs)

theorem handshake_completes_witness:
  "(\<exists>st'. connect_run = Returns st' \<and> peer_cert (fst st') = Some 7)
    \<and> (\<exists>st'. accept_run = Returns st' \<and> ssl (fst st') = Some 2 \<and> peer_cert (fst st') = Some 7)"
proof -
  have c: "ssl listening_conn = Some 1" "s_blocking listening_conn" by (simp_all add: handshake_run_defs)
  obtain st1 st2 where r: "connect_run = Returns st1" "\<not> ssl_event st1" "accept_run = Returns st2" "\<not> ssl_event st2"
    using connect_run_returns accept_run_returns by blast
  note h = handshake_completes[OF r(2) c, of "\<lambda>_. None" None None "\<lambda>s. Some (s + 6)" "[done_answer]" no_ssl_env handshake_world]
    handshake_completes[OF r(4) c, of "\<lambda>_. None" None None "\<lambda>s. Some (s + 6)" "[done_answer]" no_ssl_env handshake_world
      "Inr (9, \<lparr>sa_family = AF_INET, sa_port = 80, sa_addr = [10, 0, 0, 1]\<rparr>)" "[(0, ''peer'')]" None "Inr 2"]
  show ?thesis using h r(1,3) by (simp add: connect_run_def accept_run_def split: prod.splits)
qed

section \<open>What Write promises\<close>

lemma to_int_le: "to_int (int n) \<le> int n"
  by (simp add: to_int_def signed_take_bit_int_less_eq_self_iff)

lemma written_sends_prefix:
  assumes "written logged ntop buf len s fd a rest evs st = Returns (r, wire, script', evs', st')" "len \<le> length buf"
  shows "sends_prefix buf len r wire (ssl_event st')"
proof -
  define r0 where "r0 = min (ans_ret a) (to_int (int len))"
  have le: "r0 \<le> int len" using to_int_le[of len] by (simp add: r0_def)
  consider "r0 = 0" | "r0 < 0" | "0 < r0" by linarith
  then show ?thesis
  proof cases
    case 1
    have "wire = [] \<and> r = 0" using assms(1) 1
      by (cases "ssl_Shutdown ntop False rest st"; cases "ans_code a s")
         (auto simp: written_def Let_def r0_def[symmetric] split: if_splits)
    then show ?thesis by simp
  next
    case 2
    then have "wire = [] \<and> r = r0" using assms(1)
      by (auto simp: written_def Let_def r0_def[symmetric] split: option.splits)
    then show ?thesis using 2 by simp
  next
    case 3
    then have "wire = take (nat r0) buf \<and> r = r0" using assms(1)
      by (auto simp: written_def Let_def r0_def[symmetric])
    moreover have "nat r0 \<le> len" using le by simp
    ultimately show ?thesis using le assms(2) by (simp add: sends_prefix_def min_absorb1)
  qed
qed

lemma ssl_Write_sends_prefix:
  assumes "ssl_Write logged ntop buf len script evs st = Returns (r, wire, script', evs', st')"
  shows "sends_prefix buf len r wire (ssl_event st')"
proof (cases "ssl (fst st)")
  case None
  then show ?thesis using assms
    by (cases "tcp_Write buf len evs (s_tcp (fst st), snd (snd st))")
       (auto simp: ssl_Write_def ssl_event_def dest!: tcp_Write_sends_prefix)
next
  case (Some s)
  show ?thesis
  proof (cases "len = 0")
    case True
    then show ?thesis using assms Some by (auto simp: ssl_Write_def)
  next
    case False
    then obtain a rest fd where ok: "script = a # rest" "fd_of (s_ip (fst st)) (snd (snd st)) = Some fd" "len \<le> length buf"
      using assms Some by (cases script; cases "fd_of (s_ip (fst st)) (snd (snd st))")
        (auto simp: ssl_Write_def Let_def split: if_splits)
    then have "written logged ntop buf len s fd a rest evs st = Returns (r, wire, script', evs', st')"
      using assms Some False by (simp add: ssl_Write_def)
    then show ?thesis using ok(3) by (rule written_sends_prefix)
  qed
qed

interpretation ssl_sender: sender
  "\<lambda>(script, evs, st) mem len. ssl_Write logged ntop mem len script evs st" "\<lambda>(script, evs, st). ssl_event st"
  for logged ntop
  by unfold_locales (auto dest: ssl_Write_sends_prefix)

end
