(* ===== verification/Ssl_Refs.thy ===== *)
theory Ssl_Refs
  imports Ssl_Conn Ip_Refs
begin

text \<open>
  Programs over SSLConn objects. An SSL object has no count of its own: it is freed with the last
  reference to the descriptor, by whichever of the objects that share the descriptor goes last, while
  each object has a reference of its own to the certificate of its peer. The theory gives the condition
  under which this accounting is right, that the SSL object is made before the descriptor is shared, and
  shows that then descriptors, SSL objects and certificates are each released exactly once.
\<close>

section \<open>Programs\<close>

text \<open>
  The live connections are a list, and an operation names them by position; the answers of the system and
  of OpenSSL come with the operation. Undefined is a use of freed memory.
\<close>

datatype ssl_op =
    MakeSsl
  | CopySsl nat
  | AssignSsl nat nat
  | ClearSsl nat
  | DropSsl nat
  | SocketSsl nat int bool "string + nat"
  | ConnectSsl nat "(int \<times> string) option" "string option" "ssl_answer list"
  | AcceptSsl nat "(int \<times> string) + (int \<times> sock_addr)" "(int \<times> string) list" "string option" "string + nat"
      "string option" "ssl_answer list"
  | ShutdownSsl nat bool "ssl_answer list"

type_synonym ssl_conns = "sslconn list \<times> ssl_env \<times> world"

abbreviation sref :: "sslconn \<Rightarrow> nat" where "sref c \<equiv> dref (s_ip c)"

definition put_at :: "nat \<Rightarrow> sslconn list \<Rightarrow> ssl_st sys \<Rightarrow> ssl_conns sys" where
  "put_at i cs r = bind_sys r (\<lambda>(c, e, w). Returns (cs[i := c], e, w))"

definition put_last :: "sslconn list \<Rightarrow> ssl_st sys \<Rightarrow> ssl_conns sys" where
  "put_last cs r = bind_sys r (\<lambda>(c, e, w). Returns (cs @ [c], e, w))"

fun ssl_exec :: "(sock_addr \<Rightarrow> string option) \<Rightarrow> (nat \<Rightarrow> nat option) \<Rightarrow> ssl_op \<Rightarrow> ssl_conns \<Rightarrow> ssl_conns sys" where
  "ssl_exec ntop g MakeSsl (cs, e, w) = (case SSLConn w of (c, w') \<Rightarrow> Returns (cs @ [c], e, w'))"
| "ssl_exec ntop g (CopySsl i) (cs, e, w) =
     put_last cs (of_opt (map_option (\<lambda>(c, w'). (c, e, w')) (ssl_copy g (cs ! i) w)))"
| "ssl_exec ntop g (AssignSsl i j) (cs, e, w) = put_at i cs (of_opt (ssl_assign g (cs ! j) (cs ! i, e, w)))"
| "ssl_exec ntop g (ClearSsl i) (cs, e, w) = put_at i cs (of_opt (ssl_clear (cs ! i, e, w)))"
| "ssl_exec ntop g (DropSsl i) (cs, e, w) =
     of_opt (map_option (\<lambda>(e', w'). (take i cs @ drop (Suc i) cs, e', w')) (ssl_destroy (cs ! i, e, w)))"
| "ssl_exec ntop g (SocketSsl i fd ctx new_ssl) (cs, e, w) = put_at i cs (of_opt
     (ssl_Socket (ip_Socket (address_family (s_ip (cs ! i)), 1, 0) (Inr fd) None None None) ctx new_ssl (cs ! i, e, w)))"
| "ssl_exec ntop g (ConnectSsl i res setfd script) (cs, e, w) = put_at i cs (ssl_Connect ntop res setfd g script (cs ! i, e, w))"
| "ssl_exec ntop g (AcceptSsl i res names timeo new_ssl setfd script) (cs, e, w) =
     put_last cs (ssl_Accept_new ntop res names timeo new_ssl setfd g script (cs ! i, e, w))"
| "ssl_exec ntop g (ShutdownSsl i uni script) (cs, e, w) =
     put_at i cs (bind_sys (ssl_Shutdown ntop uni script (cs ! i, e, w)) (\<lambda>(rest, st). Returns st))"

text \<open>
  A careful caller: the operations are on live objects, none is assigned to itself, and Socket is for
  objects without a descriptor. The SSL object is made for a descriptor that nobody shares yet and that
  has none, and Connect is called on an object without a certificate. The resolver answers.
\<close>

fun ssl_allowed :: "ssl_op \<Rightarrow> ssl_conns \<Rightarrow> bool" where
  "ssl_allowed MakeSsl (cs, e, w) = True"
| "ssl_allowed (CopySsl i) (cs, e, w) = (i < length cs)"
| "ssl_allowed (AssignSsl i j) (cs, e, w) = (i < length cs \<and> j < length cs \<and> i \<noteq> j)"
| "ssl_allowed (ClearSsl i) (cs, e, w) = (i < length cs)"
| "ssl_allowed (DropSsl i) (cs, e, w) = (i < length cs)"
| "ssl_allowed (SocketSsl i fd ctx new_ssl) (cs, e, w) =
     (i < length cs \<and> 0 \<le> fd \<and> fd_of (s_ip (cs ! i)) w = Some DESCRIPTOR_NULL
      \<and> (ctx \<longrightarrow> ssl (cs ! i) = None \<and> count (owners sref cs) (sref (cs ! i)) = 1))"
| "ssl_allowed (ConnectSsl i res setfd script) (cs, e, w) = (i < length cs \<and> peer_cert (cs ! i) = None)"
| "ssl_allowed (AcceptSsl i res names timeo new_ssl setfd script) (cs, e, w) =
     (i < length cs \<and> resolve_loop DNS_RETRY names \<noteq> None \<and> (case res of Inl _ \<Rightarrow> True | Inr (fd, sa) \<Rightarrow> 0 \<le> fd))"
| "ssl_allowed (ShutdownSsl i uni script) (cs, e, w) = (i < length cs)"

text \<open>
  What the operation has got from the system and from OpenSSL: the descriptors of \<^verbatim>\<open>socket(2)\<close>
  and \<^verbatim>\<open>accept(2)\<close>, the objects of SSL_new, and the references of SSL_get_peer_certificate.
\<close>

fun new_fds :: "ssl_op \<Rightarrow> ssl_conns \<Rightarrow> int list" where
  "new_fds (SocketSsl i fd ctx new_ssl) s = [fd]"
| "new_fds (AcceptSsl i (Inr (fd, sa)) names timeo new_ssl setfd script) (cs, e, w) =
     (if known_family (s_tcp (cs ! i)) then [fd] else [])"
| "new_fds _ s = []"

definition opt_list :: "'a option \<Rightarrow> 'a list" where
  "opt_list x = (case x of None \<Rightarrow> [] | Some a \<Rightarrow> [a])"

fun new_ssls :: "ssl_op \<Rightarrow> ssl_conns \<Rightarrow> nat list" where
  "new_ssls (SocketSsl i fd ctx new_ssl) (cs', e', w') = (if ctx then opt_list (ssl (cs' ! i)) else [])"
| "new_ssls (AcceptSsl i res names timeo new_ssl setfd script) (cs', e', w') = opt_list (ssl (last cs'))"
| "new_ssls _ s' = []"

fun new_certs :: "ssl_op \<Rightarrow> ssl_conns \<Rightarrow> nat list" where
  "new_certs (CopySsl i) (cs', e', w') = opt_list (peer_cert (last cs'))"
| "new_certs (AssignSsl i j) (cs', e', w') = opt_list (peer_cert (cs' ! i))"
| "new_certs (ConnectSsl i res setfd script) (cs', e', w') = opt_list (peer_cert (cs' ! i))"
| "new_certs (AcceptSsl i res names timeo new_ssl setfd script) (cs', e', w') = opt_list (peer_cert (last cs'))"
| "new_certs _ s' = []"

inductive ssl_reach :: "int list \<Rightarrow> nat list \<Rightarrow> nat list \<Rightarrow> ssl_conns \<Rightarrow> bool" where
  ssl_start: "ssl_reach [] [] [] ([], no_ssl_env, start_world e)"
| ssl_step: "ssl_reach fds ss xs s \<Longrightarrow> ssl_allowed op s \<Longrightarrow> ssl_exec ntop g op s = Returns s'
    \<Longrightarrow> ssl_reach (new_fds op s @ fds) (new_ssls op s' @ ss) (new_certs op s' @ xs) s'"

section \<open>What the live objects hold\<close>

text \<open>
  m says which SSL object goes with a descriptor; all objects that share a descriptor agree with it, so the
  SSL objects held are those of the descriptors referred to. Certificates are held by the objects.
\<close>

definition ssl_held :: "(nat \<Rightarrow> nat option) \<Rightarrow> nat multiset \<Rightarrow> nat multiset" where
  "ssl_held m R = (\<Sum>r \<in> set_mset R. mset (opt_list (m r)))"

definition agree :: "(nat \<Rightarrow> nat option) \<Rightarrow> sslconn list \<Rightarrow> bool" where
  "agree m cs \<longleftrightarrow> (\<forall>c \<in> set cs. ssl c = m (sref c))"

definition certs_held :: "sslconn list \<Rightarrow> nat multiset" where
  "certs_held cs = mset (concat (map (opt_list \<circ> peer_cert) cs))"

definition ssl_inv :: "int list \<Rightarrow> nat list \<Rightarrow> nat list \<Rightarrow> ssl_conns \<Rightarrow> bool" where
  "ssl_inv fds ss xs s \<longleftrightarrow> (case s of (cs, e, w) \<Rightarrow>
     store_inv (owners sref cs) w \<and> all_fds w = mset fds
     \<and> (\<exists>m. agree m cs \<and> mset (ssl_freed e) + ssl_held m (owners sref cs) = mset ss)
     \<and> mset (x509_freed e) + certs_held cs = mset xs)"

lemma opt_list_simps [simp]: "opt_list None = []" "opt_list (Some a) = [a]"
  by (simp_all add: opt_list_def)

lemma ssl_held_again [simp]: "r \<in># R \<Longrightarrow> ssl_held m (add_mset r R) = ssl_held m R"
  by (simp add: ssl_held_def insert_absorb)

lemma ssl_held_new: "r \<notin># R \<Longrightarrow> ssl_held (m(r := x)) (add_mset r R) = mset (opt_list x) + ssl_held m R"
proof -
  assume r: "r \<notin># R"
  have "(\<Sum>a \<in> set_mset R. mset (opt_list ((m(r := x)) a))) = (\<Sum>a \<in> set_mset R. mset (opt_list (m a)))"
    using r by (intro sum.cong) auto
  with r show ?thesis by (simp add: ssl_held_def)
qed

lemma ssl_held_remove:
  assumes "r \<in># R"
  shows "ssl_held m (R - {#r#}) + (if count R r = 1 then mset (opt_list (m r)) else {#}) = ssl_held m R"
proof (cases "count R r = 1")
  case True
  have "set_mset (R - {#r#}) = set_mset R - {r}" using True by (auto simp: set_eq_iff count_greater_zero_iff[symmetric] simp del: count_greater_zero_iff)
  then show ?thesis using True assms by (simp add: ssl_held_def sum.remove[of "set_mset R" r])
next
  case False
  have "count R r > 1" using assms False by (metis count_greater_zero_iff nat_neq_iff less_one)
  then have "set_mset (R - {#r#}) = set_mset R" by (auto simp: set_eq_iff count_greater_zero_iff[symmetric] simp del: count_greater_zero_iff)
  then show ?thesis using False by (simp add: ssl_held_def)
qed

lemma ssl_held_cong: "(\<And>r. r \<in># R \<Longrightarrow> m r = m' r) \<Longrightarrow> ssl_held m R = ssl_held m' R"
  unfolding ssl_held_def by (intro sum.cong) auto

lemma certs_snoc [simp]: "certs_held (cs @ [c]) = mset (opt_list (peer_cert c)) + certs_held cs"
  by (simp add: certs_held_def)

lemma certs_update:
  "i < length cs \<Longrightarrow> certs_held (cs[i := c]) + mset (opt_list (peer_cert (cs ! i))) = mset (opt_list (peer_cert c)) + certs_held cs"
  by (subst (3) id_take_nth_drop[of i cs]) (simp_all add: certs_held_def upd_conv_take_nth_drop)

lemma certs_drop:
  "i < length cs \<Longrightarrow> certs_held (take i cs @ drop (Suc i) cs) + mset (opt_list (peer_cert (cs ! i))) = certs_held cs"
  by (subst (4) id_take_nth_drop[of i cs]) (simp_all add: certs_held_def)

lemma agree_snoc: "agree m (cs @ [c]) \<longleftrightarrow> agree m cs \<and> ssl c = m (sref c)"
  by (auto simp: agree_def)

lemma agree_new: "agree m cs \<Longrightarrow> r \<notin># owners sref cs \<Longrightarrow> agree (m(r := x)) cs"
  by (auto simp: agree_def owners_def)

lemma agree_update: "agree m cs \<Longrightarrow> ssl c = m (sref c) \<Longrightarrow> agree m (cs[i := c])"
  by (auto simp: agree_def dest!: set_update_subset_insert[THEN subsetD])

lemma agree_update_at:
  assumes "agree m cs" "i < length cs" "r \<notin># owners sref cs - {#sref (cs ! i)#}" "ssl c = x" "sref c = r"
  shows "agree (m(r := x)) (cs[i := c])"
proof -
  have "sref (cs ! k) \<noteq> r" if "k < length cs" "k \<noteq> i" for k
    using owners_two[OF assms(2) that(1), of sref] that(2) assms(3) by auto
  then have "ssl (cs[i := c] ! k) = (m(r := x)) (sref (cs[i := c] ! k))" if "k < length cs" for k
    using assms(1,4,5) that by (cases "k = i") (auto simp: agree_def)
  then show ?thesis by (auto simp: agree_def in_set_conv_nth)
qed

lemma agree_nth: "agree m cs \<Longrightarrow> i < length cs \<Longrightarrow> ssl (cs ! i) = m (sref (cs ! i))"
  by (simp add: agree_def)

lemma agree_drop: "agree m cs \<Longrightarrow> agree m (take i cs @ drop (Suc i) cs)"
  by (auto simp: agree_def dest: in_set_takeD in_set_dropD)

section \<open>What the operations do to the store\<close>

lemma free_cert_simps [simp]:
  "mset (x509_freed (free_cert x e)) = mset (opt_list x) + mset (x509_freed e)" "ssl_freed (free_cert x e) = ssl_freed e"
  by (cases x; simp add: free_cert_def)+

text \<open>The SSL object goes exactly when the last reference goes.\<close>

lemma free_ssl_law:
  assumes "store_inv R w" "sref c \<in># R" "ssl c = m (sref c)"
  shows "\<exists>e'. free_ssl_if_last c e w = Some e' \<and> x509_freed e' = x509_freed e
    \<and> mset (ssl_freed e') + ssl_held m (R - {#sref c#}) = mset (ssl_freed e) + ssl_held m R"
proof -
  obtain d where d: "heap w (sref c) = Some d" "dcnt d = count R (sref c)" using store_inv_mem[OF assms(1,2)] by blast
  show ?thesis using d assms(3) ssl_held_remove[OF assms(2), of m]
    by (cases "m (sref c)") (auto simp: free_ssl_if_last_def split: if_splits)
qed

text \<open>What no operation but those on references changes: the reference, what was freed, and the store.\<close>

definition refd :: "ssl_st \<Rightarrow> nat \<times> ssl_env \<times> (nat \<Rightarrow> descriptor option) \<times> nat \<times> int list" where
  "refd st = (case st of (c, e, w) \<Rightarrow> (sref c, e, heap w, next_ref w, closed w))"

lemma refd_simps [simp]:
  "refd (ssl_fail r m st) = refd st" "refd (ssl_note m st) = refd st" "refd (take_cert g s st) = refd st"
  "refd (c\<lparr>ssl := x\<rparr>, p) = refd (c, p)"
  by (cases st; cases p; simp add: refd_def ssl_fail_def ssl_note_def note_event_def take_cert_def w_fail_def)+

lemma ssl_simps [simp]:
  "ssl (fst (ssl_fail r m st)) = ssl (fst st)" "ssl (fst (ssl_note m st)) = ssl (fst st)" "ssl (fst (take_cert g s st)) = ssl (fst st)"
  by (cases st; simp add: ssl_fail_def ssl_note_def take_cert_def)+

lemma handshake_simps [simp]:
  "refd (handshake fn ntop g fd b s a st) = refd st" "ssl (fst (handshake fn ntop g fd b s a st)) = ssl (fst st)"
  by (simp_all add: handshake_def split: option.split)

lemma refdD:
  "refd (c', e', w') = refd (c, e, w) \<Longrightarrow> sref c' = sref c \<and> e' = e \<and> store_inv R w' = store_inv R w \<and> all_fds w' = all_fds w"
  by (simp add: refd_def same_storeD[of w w'] same_store_def)

lemma refd_fd: "refd st' = refd st \<Longrightarrow> fd_of x (snd (snd st')) = fd_of x (snd (snd st))"
  "refd st' = refd st \<Longrightarrow> fd_of (s_ip (fst st')) w = fd_of (s_ip (fst st)) w"
  by (auto simp: refd_def fd_of_def split: prod.splits)

lemma tcp_Connect_refd: "on_tcp (tcp_Connect ntop res) st = Some st' \<Longrightarrow> refd st' = refd st \<and> ssl (fst st') = ssl (fst st)"
  by (auto simp: on_tcp_def tcp_Connect_def refd_def Let_def unknown_family_def tcp_fail_def w_fail_def
      split: prod.splits option.splits if_splits)

lemma ssl_Connect_law:
  assumes "fd_of (s_ip c) w \<noteq> None"
  shows "ssl_Connect ntop res setfd g script (c, e, w) \<noteq> Undefined"
    and "ssl_Connect ntop res setfd g script (c, e, w) = Returns st' \<Longrightarrow> refd st' = refd (c, e, w) \<and> ssl (fst st') = ssl c"
proof -
  have "on_tcp (tcp_Connect ntop res) (c, e, w) \<noteq> None"
    using assms by (auto simp: on_tcp_def tcp_Connect_def Let_def split: option.splits)
  then obtain st1 where 1: "on_tcp (tcp_Connect ntop res) (c, e, w) = Some st1" by blast
  note r = tcp_Connect_refd[OF this]
  have f: "fd_of (s_ip (fst st1)) (snd (snd st1)) \<noteq> None" using assms r refd_fd[of st1 "(c, e, w)"] by simp
  show "ssl_Connect ntop res setfd g script (c, e, w) \<noteq> Undefined"
    using f by (auto simp: ssl_Connect_def 1 split: option.splits list.splits)
  show "ssl_Connect ntop res setfd g script (c, e, w) = Returns st' \<Longrightarrow> refd st' = refd (c, e, w) \<and> ssl (fst st') = ssl c"
    using r f by (auto simp: ssl_Connect_def 1 split: option.splits list.splits if_splits)
qed

lemma ip_Setsockopt_refd:
  assumes "fd_of (s_ip (fst st)) (snd (snd st)) \<noteq> None"
  shows "\<exists>st'. on_tcp (on_ip_opt (ip_Setsockopt level n res)) st = Some st' \<and> refd st' = refd st"
  using assms by (cases st) (auto simp: on_tcp_def on_ip_opt_def ip_Setsockopt_def w_fail_def refd_def Let_def split: option.splits)

lemma resolve_law:
  assumes "resolve_loop retry names \<noteq> None"
  shows "\<exists>x' w'. ResolveDNSName retry names (x, w) = Some (x', w') \<and> dref x' = dref x \<and> same_store w w'"
  using assms by (auto simp: ResolveDNSName_def w_fail_def same_store_def Let_def split: prod.splits)

lemma set_address_family_ref [simp]: "dref (set_address_family f x) = dref x"
  by (simp add: set_address_family_def Let_def)

lemma set_fd_ref: "dref x = dref y \<Longrightarrow> set_fd fd x w = set_fd fd y w"
  by (auto simp: set_fd_def split: option.split)

lemma tcp_Accept_law:
  assumes "store_inv R w" "dref (tc_ip c) \<in># R" "fd_of (tc_ip c) w = Some DESCRIPTOR_NULL" "dref (tc_ip server) \<in># R"
    "resolve_loop DNS_RETRY names \<noteq> None" "case res of Inl _ \<Rightarrow> True | Inr (fd, sa) \<Rightarrow> 0 \<le> fd"
  shows "\<exists>c' w'. tcp_Accept res names server (c, w) = Some (c', w') \<and> dref (tc_ip c') = dref (tc_ip c) \<and> store_inv R w'
    \<and> all_fds w' = mset (case res of Inl _ \<Rightarrow> [] | Inr (fd, sa) \<Rightarrow> if known_family server then [fd] else []) + all_fds w"
proof (cases "known_family server")
  case False
  then show ?thesis using assms(1)
    by (auto simp: tcp_Accept_def unknown_family_def tcp_fail_def w_fail_def all_fds_def split: sum.splits)
next
  case True
  obtain d where d: "heap w (dref (tc_ip server)) = Some d" using store_inv_mem[OF assms(1,4)] by blast
  show ?thesis
  proof (cases res)
    case (Inl er)
    then show ?thesis using True d assms(1)
      by (cases er) (simp add: tcp_Accept_def fd_of_def tcp_fail_def w_fail_def set_address_family_def all_fds_def Let_def)
  next
    case (Inr a)
    obtain fd sa where a: "a = (fd, sa)" by (cases a)
    have "0 \<le> fd" using assms(6) by (simp add: Inr a)
    from set_fd_law[OF assms(1-3) this] obtain w1 where 1: "set_fd fd (tc_ip c) w = Some w1" "store_inv R w1"
      "all_fds w1 = add_mset fd (all_fds w)" by blast
    define x where "x = (let y = set_address_family (sa_family sa) ((tc_ip c)\<lparr>sockaddr := sa\<rparr>)
      in if blocking_flag (tc_ip server) then y else y\<lparr>blocking_flag := False\<rparr>)"
    have x: "dref x = dref (tc_ip c)" by (simp add: x_def Let_def)
    obtain x' w' where 2: "ResolveDNSName DNS_RETRY names (x, w1) = Some (x', w')" "dref x' = dref x" "same_store w1 w'"
      using resolve_law[OF assms(5)] by blast
    have f: "set_fd fd (set_address_family (sa_family sa) ((tc_ip c)\<lparr>sockaddr := sa\<rparr>)) w = Some w1"
      using 1(1) by (subst set_fd_ref[of _ "tc_ip c"]) simp_all
    have "tcp_Accept res names server (c, w) = Some (c\<lparr>tc_ip := x', connected := True\<rparr>, w')"
      using 2(1) f by (simp add: tcp_Accept_def True fd_of_def d Inr a Let_def on_ip_opt_def x_def)
    then show ?thesis using 1(2,3) 2 x same_storeD[OF 2(3)] by (simp add: Inr a True)
  qed
qed

lemma ssl_Accept_law:
  assumes "store_inv R w" "sref c \<in># R" "fd_of (s_ip c) w = Some DESCRIPTOR_NULL" "sref server \<in># R"
    "resolve_loop DNS_RETRY names \<noteq> None" "case res of Inl _ \<Rightarrow> True | Inr (fd, sa) \<Rightarrow> 0 \<le> fd"
  shows "ssl_Accept ntop res names timeo new_ssl setfd g script server (c, e, w) \<noteq> Undefined"
    and "ssl_Accept ntop res names timeo new_ssl setfd g script server (c, e, w) = Returns (c', e', w') \<Longrightarrow>
      sref c' = sref c \<and> e' = e \<and> store_inv R w'
      \<and> all_fds w' = mset (case res of Inl _ \<Rightarrow> [] | Inr (fd, sa) \<Rightarrow> if known_family (s_tcp server) then [fd] else []) + all_fds w"
proof -
  obtain t w1 where 1: "tcp_Accept res names (s_tcp server) (s_tcp c, w) = Some (t, w1)" "dref (tc_ip t) = sref c" "store_inv R w1"
    "all_fds w1 = mset (case res of Inl _ \<Rightarrow> [] | Inr (fd, sa) \<Rightarrow> if known_family (s_tcp server) then [fd] else []) + all_fds w"
    using tcp_Accept_law[OF assms] by blast
  define st1 where "st1 = (c\<lparr>s_tcp := t\<rparr>, e, w1)"
  have on: "on_tcp (tcp_Accept res names (s_tcp server)) (c, e, w) = Some st1" by (simp add: on_tcp_def 1(1) st1_def)
  have "fd_of (s_ip (fst st1)) (snd (snd st1)) \<noteq> None"
    using store_inv_mem[OF 1(3)] assms(2) 1(2) by (fastforce simp: fd_of_def st1_def)
  then obtain st2 where 2: "on_tcp (on_ip_opt (ip_Setsockopt SO_LEVEL SO_RCVTIMEO timeo)) st1 = Some st2" "refd st2 = refd st1"
    using ip_Setsockopt_refd by blast
  have "fd_of (s_ip server) (snd (snd st1)) \<noteq> None" using store_inv_mem[OF 1(3) assms(4)] by (auto simp: fd_of_def st1_def)
  then have f: "fd_of (s_ip server) (snd (snd st2)) \<noteq> None" using refd_fd(1)[OF 2(2)] by simp
  show "ssl_Accept ntop res names timeo new_ssl setfd g script server (c, e, w) \<noteq> Undefined"
    using f by (auto simp: ssl_Accept_def on 2(1) Let_def split: option.splits sum.splits list.splits)
  assume "ssl_Accept ntop res names timeo new_ssl setfd g script server (c, e, w) = Returns (c', e', w')"
  then have "refd (c', e', w') = refd st1"
    using f 2(2) by (auto simp: ssl_Accept_def on 2(1) Let_def accept_handshake_def
        split: option.splits sum.splits list.splits if_splits dest!: arg_cong[of _ "(c', e', w')" refd])
  from refdD[OF this[unfolded st1_def]] 1 show "sref c' = sref c \<and> e' = e \<and> store_inv R w'
      \<and> all_fds w' = mset (case res of Inl _ \<Rightarrow> [] | Inr (fd, sa) \<Rightarrow> if known_family (s_tcp server) then [fd] else []) + all_fds w"
    by simp
qed

lemma tcp_Close_law:
  assumes "store_inv R w" "sref c \<in># R"
  shows "\<exists>c' w'. on_tcp tcp_Close (c, e, w) = Some (c', e, w') \<and> store_inv R w' \<and> all_fds w' = all_fds w
    \<and> sref c' = sref c \<and> ssl c' = ssl c \<and> peer_cert c' = peer_cert c"
  using Close_law[OF assms] by (auto simp: on_tcp_def tcp_Close_def)

text \<open>Shutdown closes at most the descriptor of the connection; the SSL object stays.\<close>

lemma ssl_Shutdown_law:
  assumes "store_inv R w" "sref c \<in># R"
  shows "ssl_Shutdown ntop uni script (c, e, w) \<noteq> Undefined"
    and "ssl_Shutdown ntop uni script (c, e, w) = Returns (rest, c', e', w') \<Longrightarrow>
      sref c' = sref c \<and> ssl c' = ssl c \<and> peer_cert c' = peer_cert c \<and> e' = e \<and> store_inv R w' \<and> all_fds w' = all_fds w"
proof -
  have f: "fd_of (s_ip c) w \<noteq> None" using store_inv_mem[OF assms] by (auto simp: fd_of_def)
  have err: "store_inv R (w_fail r m w)" "all_fds (w_fail r m w) = all_fds w" for r m
    using assms(1) by (simp_all add: w_fail_def all_fds_def)
  have close: "close_tcp s (c, e, v) \<noteq> Undefined \<and> (close_tcp s (c, e, v) = Returns (rest, c', e', w') \<longrightarrow>
      sref c' = sref c \<and> ssl c' = ssl c \<and> peer_cert c' = peer_cert c \<and> e' = e \<and> store_inv R w' \<and> all_fds w' = all_fds w)"
    if "store_inv R v" "all_fds v = all_fds w" for s v
    using tcp_Close_law[OF that(1) assms(2), of e] that(2) by (auto simp: close_tcp_def)
  note c = close[OF assms(1) refl] close[OF err]
  show "ssl_Shutdown ntop uni script (c, e, w) \<noteq> Undefined"
    using f c by (auto simp: ssl_Shutdown_def ssl_fail_def Let_def split: option.splits list.splits)
  show "ssl_Shutdown ntop uni script (c, e, w) = Returns (rest, c', e', w') \<Longrightarrow>
      sref c' = sref c \<and> ssl c' = ssl c \<and> peer_cert c' = peer_cert c \<and> e' = e \<and> store_inv R w' \<and> all_fds w' = all_fds w"
    using f c err assms(1) by (auto simp: ssl_Shutdown_def ssl_fail_def Let_def split: option.splits list.splits if_splits)
qed

lemma ssl_Socket_law:
  assumes "store_inv R w" "sref c \<in># R" "fd_of (s_ip c) w = Some DESCRIPTOR_NULL" "0 \<le> fd"
  shows "\<exists>c' w'. ssl_Socket (ip_Socket a (Inr fd) None None None) ctx new_ssl (c, e, w) = Some (c', e, w') \<and> sref c' = sref c
    \<and> peer_cert c' = peer_cert c \<and> (\<not> ctx \<longrightarrow> ssl c' = ssl c) \<and> store_inv R w' \<and> all_fds w' = add_mset fd (all_fds w)"
proof -
  obtain x w1 where 1: "ip_Socket a (Inr fd) None None None (s_ip c, w) = Some (x, w1)" "dref x = sref c" "store_inv R w1"
    "all_fds w1 = add_mset fd (all_fds w)" using Socket_law[OF assms] by blast
  define c1 where "c1 = c\<lparr>s_tcp := (s_tcp c)\<lparr>tc_ip := x\<rparr>\<rparr>"
  have c1: "sref c1 = sref c" "peer_cert c1 = peer_cert c" "ssl c1 = ssl c" by (simp_all add: c1_def 1(2))
  have on: "on_tcp (on_ip_opt (ip_Socket a (Inr fd) None None None)) (c, e, w) = Some (c1, e, w1)"
    by (simp add: on_tcp_def on_ip_opt_def 1(1) c1_def)
  have err: "store_inv R (w_fail r m w1)" "all_fds (w_fail r m w1) = all_fds w1" for r m
    using 1(3) by (simp_all add: w_fail_def all_fds_def)
  show ?thesis using 1(3,4) c1 err
    by (cases new_ssl) (auto simp: ssl_Socket_def on ssl_note_def note_event_def ssl_fail_def all_fds_def)
qed

section \<open>The invariant is kept\<close>

lemma ssl_invE:
  assumes "ssl_inv fds ss xs (cs, e, w)"
  obtains m where "store_inv (owners sref cs) w" "all_fds w = mset fds" "agree m cs"
    "mset (ssl_freed e) + ssl_held m (owners sref cs) = mset ss" "mset (x509_freed e) + certs_held cs = mset xs"
  using assms by (auto simp: ssl_inv_def)

lemma ssl_invI:
  "store_inv (owners sref cs) w \<Longrightarrow> all_fds w = mset fds \<Longrightarrow> agree m cs \<Longrightarrow>
    mset (ssl_freed e) + ssl_held m (owners sref cs) = mset ss \<Longrightarrow> mset (x509_freed e) + certs_held cs = mset xs
    \<Longrightarrow> ssl_inv fds ss xs (cs, e, w)"
  by (auto simp: ssl_inv_def)

lemma owners_same: "i < length cs \<Longrightarrow> sref c = sref (cs ! i) \<Longrightarrow> owners sref (cs[i := c]) = owners sref cs"
  using owners_nth[of i cs sref] by (simp add: owners_update)

lemma inv_put:
  assumes "ssl_inv fds ss xs (cs, e, w)" "i < length cs" "sref c = sref (cs ! i)" "ssl c = ssl (cs ! i)"
    "store_inv (owners sref cs) w'" "all_fds w' = mset fds' + all_fds w"
    "mset (opt_list (peer_cert c)) = mset xs' + mset (opt_list (peer_cert (cs ! i)))"
  shows "ssl_inv (fds' @ fds) ss (xs' @ xs) (cs[i := c], e, w')"
proof -
  obtain m where m: "all_fds w = mset fds" "agree m cs" "mset (ssl_freed e) + ssl_held m (owners sref cs) = mset ss"
    "mset (x509_freed e) + certs_held cs = mset xs" by (rule ssl_invE[OF assms(1)])
  have c: "certs_held (cs[i := c]) = mset xs' + certs_held cs"
    using certs_update[OF assms(2), of c] assms(7) by (simp add: ac_simps)
  show ?thesis
    by (rule ssl_invI[where m = m])
       (use assms(5,6) m owners_same[OF assms(2,3)] agree_update[OF m(2)] agree_nth[OF m(2) assms(2)] assms(3,4) c in
         \<open>simp_all add: ac_simps\<close>)
qed

lemma inv_snoc:
  assumes "ssl_inv fds ss xs (cs, e, w)" "sref c \<notin># owners sref cs" "store_inv (add_mset (sref c) (owners sref cs)) w'"
    "all_fds w' = mset fds' + all_fds w"
  shows "ssl_inv (fds' @ fds) (opt_list (ssl c) @ ss) (opt_list (peer_cert c) @ xs) (cs @ [c], e, w')"
proof -
  obtain m where m: "all_fds w = mset fds" "agree m cs" "mset (ssl_freed e) + ssl_held m (owners sref cs) = mset ss"
    "mset (x509_freed e) + certs_held cs = mset xs" by (rule ssl_invE[OF assms(1)])
  show ?thesis
    by (rule ssl_invI[where m = "m(sref c := ssl c)"])
       (use assms(3,4) m ssl_held_new[OF assms(2)] agree_new[OF m(2) assms(2)] in \<open>simp_all add: agree_snoc ac_simps\<close>)
qed

lemma SSLConn_fresh:
  assumes "store_inv R w" "SSLConn w = (c, w')"
  shows "sref c \<notin># R" "store_inv (add_mset (sref c) R) w'" "all_fds w' = all_fds w" "fd_of (s_ip c) w' = Some DESCRIPTOR_NULL"
    "ssl c = None" "peer_cert c = None"
proof -
  obtain r w1 where n: "new_descriptor w = (r, w1)" by (cases "new_descriptor w")
  have c: "sref c = r" "w' = w1" "ssl c = None" "peer_cert c = None"
    using assms(2) by (auto simp: SSLConn_def TCPConn_def IPComm_def n Let_def)
  with ds.alloc_law[OF assms(1) n]
  show "sref c \<notin># R" "store_inv (add_mset (sref c) R) w'" "all_fds w' = all_fds w" "ssl c = None" "peer_cert c = None" by simp_all
  show "fd_of (s_ip c) w' = Some DESCRIPTOR_NULL" using n c by (auto simp: fd_of_def new_descriptor_def)
qed

text \<open>The operations on references, one by one.\<close>

lemma copy_step:
  assumes "ssl_inv fds ss xs (cs, e, w)" "i < length cs"
  shows "\<exists>c w'. ssl_copy g (cs ! i) w = Some (c, w') \<and> ssl_inv fds ss (opt_list (peer_cert c) @ xs) (cs @ [c], e, w')"
proof -
  obtain m where m: "store_inv (owners sref cs) w" "all_fds w = mset fds" "agree m cs"
    "mset (ssl_freed e) + ssl_held m (owners sref cs) = mset ss" "mset (x509_freed e) + certs_held cs = mset xs"
    by (rule ssl_invE[OF assms(1)])
  have r: "sref (cs ! i) \<in># owners sref cs" by (rule owners_nth[OF assms(2)])
  obtain w' where w': "retain (sref (cs ! i)) w = Some w'" "store_inv (add_mset (sref (cs ! i)) (owners sref cs)) w'"
    "all_fds w' = all_fds w" using ds.ret_law[OF m(1) r] by blast
  define c where "c = (cs ! i)\<lparr>peer_cert := cert_of g (ssl (cs ! i))\<rparr>"
  have "ssl_copy g (cs ! i) w = Some (c, w')"
    by (simp add: ssl_copy_def tcp_copy_def ip_copy_def w'(1) c_def)
  moreover have "ssl_inv fds ss (opt_list (peer_cert c) @ xs) (cs @ [c], e, w')"
    by (rule ssl_invI[where m = m])
       (use m w' r agree_nth[OF m(3) assms(2)] in \<open>simp_all add: c_def agree_snoc ac_simps\<close>)
  ultimately show ?thesis by blast
qed

lemma assign_step:
  assumes "ssl_inv fds ss xs (cs, e, w)" "i < length cs" "j < length cs" "i \<noteq> j"
  shows "\<exists>c e' w'. ssl_assign g (cs ! j) (cs ! i, e, w) = Some (c, e', w')
    \<and> ssl_inv fds ss (opt_list (peer_cert c) @ xs) (cs[i := c], e', w')"
proof -
  obtain m where m: "store_inv (owners sref cs) w" "all_fds w = mset fds" "agree m cs"
    "mset (ssl_freed e) + ssl_held m (owners sref cs) = mset ss" "mset (x509_freed e) + certs_held cs = mset xs"
    by (rule ssl_invE[OF assms(1)])
  let ?R = "owners sref cs" and ?r = "sref (cs ! i)" and ?s = "sref (cs ! j)"
  have r: "?r \<in># ?R" "?s \<in># ?R - {#?r#}" by (rule owners_nth[OF assms(2)], rule owners_two[OF assms(2-4)])
  obtain e1 where e1: "free_ssl_if_last (cs ! i) e w = Some e1" "x509_freed e1 = x509_freed e"
    "mset (ssl_freed e1) + ssl_held m (?R - {#?r#}) = mset (ssl_freed e) + ssl_held m ?R"
    using free_ssl_law[where c = "cs ! i" and m = m, OF m(1) r(1) agree_nth[OF m(3) assms(2)]] by blast
  obtain w1 w2 where w: "release (s_ip (cs ! i)) w = Some w1" "retain ?s w1 = Some w2"
    "store_inv (add_mset ?s (?R - {#?r#})) w2" "all_fds w2 = all_fds w"
    using ds.swap_ok[OF m(1) r(1) TrueI r(2)] by blast
  define c where "c = (cs ! j)\<lparr>peer_cert := cert_of g (ssl (cs ! j))\<rparr>"
  let ?e = "free_cert (peer_cert (cs ! i)) e1"
  have "ssl_assign g (cs ! j) (cs ! i, e, w) = Some (c, ?e, w2)"
    by (simp add: ssl_assign_def tcp_assign_def ip_assign_def e1(1) w(1,2) c_def)
  moreover have "owners sref (cs[i := c]) = add_mset ?s (?R - {#?r#})" by (simp add: owners_update[OF assms(2)] c_def)
  then have "ssl_inv fds ss (opt_list (peer_cert c) @ xs) (cs[i := c], ?e, w2)"
    by (intro ssl_invI[where m = m])
       (use m w e1 r agree_update[OF m(3), of c] agree_nth[OF m(3) assms(3)] certs_update[OF assms(2), of c] in
         \<open>simp_all add: c_def ac_simps\<close>)
  ultimately show ?thesis by blast
qed

lemma clear_step:
  assumes "ssl_inv fds ss xs (cs, e, w)" "i < length cs"
  shows "\<exists>c e' w'. ssl_clear (cs ! i, e, w) = Some (c, e', w') \<and> ssl_inv fds ss xs (cs[i := c], e', w')"
proof -
  obtain m where m: "store_inv (owners sref cs) w" "all_fds w = mset fds" "agree m cs"
    "mset (ssl_freed e) + ssl_held m (owners sref cs) = mset ss" "mset (x509_freed e) + certs_held cs = mset xs"
    by (rule ssl_invE[OF assms(1)])
  let ?R = "owners sref cs" and ?r = "sref (cs ! i)"
  have r: "?r \<in># ?R" by (rule owners_nth[OF assms(2)])
  obtain e1 where e1: "free_ssl_if_last (cs ! i) e w = Some e1" "x509_freed e1 = x509_freed e"
    "mset (ssl_freed e1) + ssl_held m (?R - {#?r#}) = mset (ssl_freed e) + ssl_held m ?R"
    using free_ssl_law[where c = "cs ! i" and m = m, OF m(1) r agree_nth[OF m(3) assms(2)]] by blast
  obtain w1 where w1: "release (s_ip (cs ! i)) w = Some w1" "store_inv (?R - {#?r#}) w1" "all_fds w1 = all_fds w"
    using ds.rel_law[OF m(1) r TrueI] by blast
  obtain n w2 where n: "new_descriptor w1 = (n, w2)" by (cases "new_descriptor w1")
  note w2 = ds.alloc_law[OF w1(2) n]
  obtain c where c: "ssl_clear (cs ! i, e, w) = Some (c, free_cert (peer_cert (cs ! i)) e1, w2)" "sref c = n" "ssl c = None"
    "peer_cert c = None"
    using e1(1) w1(1) n by (simp add: ssl_clear_def on_tcp_def tcp_clear_def on_ip_opt_def ip_clear_def)
  have "owners sref (cs[i := c]) = add_mset n (?R - {#?r#})" by (simp add: owners_update[OF assms(2)] c(2))
  then have "ssl_inv fds ss xs (cs[i := c], free_cert (peer_cert (cs ! i)) e1, w2)"
    by (intro ssl_invI[where m = "m(n := None)"])
       (use m e1 w1 w2 agree_update_at[OF m(3) assms(2), of n c None] c ssl_held_new[of n "?R - {#?r#}" m None]
          certs_update[OF assms(2), of c] in \<open>simp_all add: ac_simps\<close>)
  with c(1) show ?thesis by blast
qed

lemma destroy_step:
  assumes "ssl_inv fds ss xs (cs, e, w)" "i < length cs"
  shows "\<exists>e' w'. ssl_destroy (cs ! i, e, w) = Some (e', w') \<and> ssl_inv fds ss xs (take i cs @ drop (Suc i) cs, e', w')"
proof -
  obtain m where m: "store_inv (owners sref cs) w" "all_fds w = mset fds" "agree m cs"
    "mset (ssl_freed e) + ssl_held m (owners sref cs) = mset ss" "mset (x509_freed e) + certs_held cs = mset xs"
    by (rule ssl_invE[OF assms(1)])
  let ?R = "owners sref cs" and ?r = "sref (cs ! i)" and ?e = "free_cert (peer_cert (cs ! i)) e"
  have r: "?r \<in># ?R" by (rule owners_nth[OF assms(2)])
  obtain e1 where e1: "free_ssl_if_last (cs ! i) ?e w = Some e1" "x509_freed e1 = x509_freed ?e"
    "mset (ssl_freed e1) + ssl_held m (?R - {#?r#}) = mset (ssl_freed e) + ssl_held m ?R"
    using free_ssl_law[where c = "cs ! i" and m = m, OF m(1) r agree_nth[OF m(3) assms(2)], of ?e] by auto
  obtain w1 where w1: "release (s_ip (cs ! i)) w = Some w1" "store_inv (?R - {#?r#}) w1" "all_fds w1 = all_fds w"
    using ds.rel_law[OF m(1) r TrueI] by blast
  have "ssl_destroy (cs ! i, e, w) = Some (e1, w1)"
    by (simp add: ssl_destroy_def tcp_destroy_def ip_destroy_def e1(1) w1(1))
  moreover have "ssl_inv fds ss xs (take i cs @ drop (Suc i) cs, e1, w1)"
    by (rule ssl_invI[where m = m])
       (use m e1 w1 agree_drop[OF m(3)] certs_drop[OF assms(2)] in
         \<open>simp_all add: owners_drop[OF assms(2)] ac_simps del: set_append\<close>)
  ultimately show ?thesis by blast
qed

text \<open>Socket with a context puts the SSL object on a descriptor of which this is the only owner.\<close>

lemma ssl_held_set: "r \<in># R \<Longrightarrow> m r = None \<Longrightarrow> ssl_held (m(r := x)) R = mset (opt_list x) + ssl_held m R"
  using sum.remove[of "set_mset R" r "\<lambda>a. mset (opt_list ((m(r := x)) a))"] sum.remove[of "set_mset R" r "\<lambda>a. mset (opt_list (m a))"]
    sum.cong[of "set_mset R - {r}" "set_mset R - {r}" "\<lambda>a. mset (opt_list ((m(r := x)) a))" "\<lambda>a. mset (opt_list (m a))"]
  by (simp add: ssl_held_def)

lemma socket_step:
  assumes "ssl_inv fds ss xs (cs, e, w)" "ssl_allowed (SocketSsl i fd ctx n) (cs, e, w)"
  shows "\<exists>c w'. ssl_Socket (ip_Socket a (Inr fd) None None None) ctx n (cs ! i, e, w) = Some (c, e, w')
    \<and> ssl_inv (fd # fds) ((if ctx then opt_list (ssl c) else []) @ ss) xs (cs[i := c], e, w')"
proof -
  obtain m where m: "store_inv (owners sref cs) w" "all_fds w = mset fds" "agree m cs"
    "mset (ssl_freed e) + ssl_held m (owners sref cs) = mset ss" "mset (x509_freed e) + certs_held cs = mset xs"
    by (rule ssl_invE[OF assms(1)])
  have i: "i < length cs" "0 \<le> fd" "fd_of (s_ip (cs ! i)) w = Some DESCRIPTOR_NULL" using assms(2) by simp_all
  have r: "sref (cs ! i) \<in># owners sref cs" by (rule owners_nth[OF i(1)])
  obtain c w' where c: "ssl_Socket (ip_Socket a (Inr fd) None None None) ctx n (cs ! i, e, w) = Some (c, e, w')"
    "sref c = sref (cs ! i)" "peer_cert c = peer_cert (cs ! i)" "\<not> ctx \<longrightarrow> ssl c = ssl (cs ! i)" "store_inv (owners sref cs) w'"
    "all_fds w' = add_mset fd (all_fds w)" using ssl_Socket_law[OF m(1) r i(3,2)] by blast
  have "ssl_inv (fd # fds) ((if ctx then opt_list (ssl c) else []) @ ss) xs (cs[i := c], e, w')"
  proof (cases ctx)
    case False
    then show ?thesis using inv_put[OF assms(1) i(1) c(2) _ c(5), of "[fd]" "[]"] c(3,4,6) by simp
  next
    case True
    then have a: "ssl (cs ! i) = None" "count (owners sref cs) (sref (cs ! i)) = 1" using assms(2) by simp_all
    have f: "m (sref (cs ! i)) = None" using agree_nth[OF m(3) i(1)] a(1) by simp
    have "sref (cs ! i) \<notin># owners sref cs - {#sref (cs ! i)#}" using a(2) by (simp add: not_in_iff)
    note g = agree_update_at[OF m(3) i(1) this, of c "ssl c"]
    show ?thesis
      by (rule ssl_invI[where m = "m(sref (cs ! i) := ssl c)"])
         (use m c True g ssl_held_set[where m = m, OF r f, of "ssl c"] owners_same[OF i(1) c(2)] certs_update[OF i(1), of c] in
           \<open>simp_all add: ac_simps\<close>)
  qed
  with c(1) show ?thesis by blast
qed

lemma connect_step:
  assumes "ssl_inv fds ss xs (cs, e, w)" "i < length cs" "peer_cert (cs ! i) = None"
  shows "ssl_Connect ntop res setfd g script (cs ! i, e, w) \<noteq> Undefined"
    and "ssl_Connect ntop res setfd g script (cs ! i, e, w) = Returns (c, e', w')
      \<Longrightarrow> ssl_inv fds ss (opt_list (peer_cert c) @ xs) (cs[i := c], e', w')"
proof -
  obtain m where m: "store_inv (owners sref cs) w" by (rule ssl_invE[OF assms(1)])
  have f: "fd_of (s_ip (cs ! i)) w \<noteq> None"
    using store_inv_mem[OF m owners_nth[OF assms(2)]] by (auto simp: fd_of_def)
  show "ssl_Connect ntop res setfd g script (cs ! i, e, w) \<noteq> Undefined" by (rule ssl_Connect_law(1)[OF f])
  assume "ssl_Connect ntop res setfd g script (cs ! i, e, w) = Returns (c, e', w')"
  note r = ssl_Connect_law(2)[OF f this]
  from refdD[OF conjunct1[OF r], of "owners sref cs"] r m assms(3) show "ssl_inv fds ss (opt_list (peer_cert c) @ xs) (cs[i := c], e', w')"
    using inv_put[OF assms(1,2), of c w' "[]" "opt_list (peer_cert c)"] by simp
qed

lemma accept_step:
  assumes "ssl_inv fds ss xs (cs, e, w)" "i < length cs" "resolve_loop DNS_RETRY names \<noteq> None"
    "case res of Inl _ \<Rightarrow> True | Inr (fd, sa) \<Rightarrow> 0 \<le> fd"
  defines "fds' \<equiv> (case res of Inl _ \<Rightarrow> [] | Inr (fd, sa) \<Rightarrow> if known_family (s_tcp (cs ! i)) then [fd] else [])"
  shows "ssl_Accept_new ntop res names timeo n setfd g script (cs ! i, e, w) \<noteq> Undefined"
    and "ssl_Accept_new ntop res names timeo n setfd g script (cs ! i, e, w) = Returns (c, e', w')
      \<Longrightarrow> ssl_inv (fds' @ fds) (opt_list (ssl c) @ ss) (opt_list (peer_cert c) @ xs) (cs @ [c], e', w')"
proof -
  obtain m where m: "store_inv (owners sref cs) w" by (rule ssl_invE[OF assms(1)])
  obtain p w1 where p: "SSLConn w = (p, w1)" by (cases "SSLConn w")
  note q = SSLConn_fresh[OF m p]
  have s: "sref (cs ! i) \<in># add_mset (sref p) (owners sref cs)" using owners_nth[OF assms(2), of sref] by simp
  have eq: "ssl_Accept_new ntop res names timeo n setfd g script (cs ! i, e, w)
      = ssl_Accept ntop res names timeo n setfd g script (cs ! i) (p, e, w1)" by (simp add: ssl_Accept_new_def p)
  note law = ssl_Accept_law[where c = p and server = "cs ! i", OF q(2) _ q(4) s assms(3,4)]
  show "ssl_Accept_new ntop res names timeo n setfd g script (cs ! i, e, w) \<noteq> Undefined"
    unfolding eq by (rule law(1)) simp
  assume "ssl_Accept_new ntop res names timeo n setfd g script (cs ! i, e, w) = Returns (c, e', w')"
  then have r: "sref c = sref p" "e' = e" "store_inv (add_mset (sref p) (owners sref cs)) w'" "all_fds w' = mset fds' + all_fds w"
    using law(2) q(3) unfolding eq fds'_def by simp_all
  show "ssl_inv (fds' @ fds) (opt_list (ssl c) @ ss) (opt_list (peer_cert c) @ xs) (cs @ [c], e', w')"
    using inv_snoc[OF assms(1), of c w' fds'] r q(1) by simp
qed

lemma shutdown_step:
  assumes "ssl_inv fds ss xs (cs, e, w)" "i < length cs"
  shows "ssl_Shutdown ntop uni script (cs ! i, e, w) \<noteq> Undefined"
    and "ssl_Shutdown ntop uni script (cs ! i, e, w) = Returns (rest, c, e', w') \<Longrightarrow> ssl_inv fds ss xs (cs[i := c], e', w')"
proof -
  obtain m where m: "store_inv (owners sref cs) w" by (rule ssl_invE[OF assms(1)])
  note law = ssl_Shutdown_law[OF m owners_nth[OF assms(2)]]
  show "ssl_Shutdown ntop uni script (cs ! i, e, w) \<noteq> Undefined" by (rule law(1))
  assume "ssl_Shutdown ntop uni script (cs ! i, e, w) = Returns (rest, c, e', w')"
  from law(2)[OF this] show "ssl_inv fds ss xs (cs[i := c], e', w')"
    using inv_put[OF assms, of c w' "[]" "[]"] by simp
qed

lemma put_simps [simp]:
  "put_at i cs r = Undefined \<longleftrightarrow> r = Undefined" "put_last cs r = Undefined \<longleftrightarrow> r = Undefined"
  "put_at i cs r = Returns s' \<longleftrightarrow> (\<exists>c e w. r = Returns (c, e, w) \<and> s' = (cs[i := c], e, w))"
  "put_last cs r = Returns s' \<longleftrightarrow> (\<exists>c e w. r = Returns (c, e, w) \<and> s' = (cs @ [c], e, w))"
  by (cases r; auto simp: put_at_def put_last_def)+

lemma ssl_exec_step:
  assumes "ssl_inv fds ss xs s" "ssl_allowed op s"
  shows "ssl_exec ntop g op s \<noteq> Undefined
    \<and> (ssl_exec ntop g op s = Returns s' \<longrightarrow> ssl_inv (new_fds op s @ fds) (new_ssls op s' @ ss) (new_certs op s' @ xs) s')"
proof -
  obtain cs e w where s: "s = (cs, e, w)" by (cases s)
  note i = assms(1)[unfolded s]
  show ?thesis
  proof (cases op)
    case MakeSsl
    obtain m where m: "store_inv (owners sref cs) w" by (rule ssl_invE[OF i])
    obtain c w1 where c: "SSLConn w = (c, w1)" by (cases "SSLConn w")
    note q = SSLConn_fresh[OF m c]
    show ?thesis using inv_snoc[OF i q(1,2), of "[]"] q(3,5,6) by (auto simp: MakeSsl s c)
  next
    case (CopySsl k)
    then show ?thesis using copy_step[OF i, of k g] assms(2) by (auto simp: s)
  next
    case (AssignSsl k j)
    then show ?thesis using assign_step[OF i, of k j g] assms(2) by (auto simp: s)
  next
    case (ClearSsl k)
    then show ?thesis using clear_step[OF i, of k] assms(2) by (auto simp: s)
  next
    case (DropSsl k)
    then show ?thesis using destroy_step[OF i, of k] assms(2) by (auto simp: s)
  next
    case (SocketSsl k fd ctx n)
    then show ?thesis
      using socket_step[OF i, of k fd ctx n "(address_family (s_ip (cs ! k)), 1, 0)"] assms(2) by (auto simp: s)
  next
    case (ConnectSsl k res setfd script)
    then show ?thesis using connect_step[OF i, of k ntop res setfd g script] assms(2) by (auto simp: s)
  next
    case (AcceptSsl k res names timeo n setfd script)
    have f: "new_fds op s = (case res of Inl _ \<Rightarrow> [] | Inr (fd, sa) \<Rightarrow> if known_family (s_tcp (cs ! k)) then [fd] else [])"
      by (cases res) (auto simp: AcceptSsl s)
    show ?thesis unfolding f using accept_step[OF i, of k names res ntop timeo n setfd g script] assms(2) by (auto simp: AcceptSsl s)
  next
    case (ShutdownSsl k uni script)
    then show ?thesis using shutdown_step[OF i, of k ntop uni script] assms(2)
      by (cases "ssl_Shutdown ntop uni script (cs ! k, e, w)") (auto simp: s)
  qed
qed

lemma ssl_reach_inv: "ssl_reach fds ss xs s \<Longrightarrow> ssl_inv fds ss xs s"
proof (induction rule: ssl_reach.induct)
  case (ssl_start e)
  show ?case by (simp add: ssl_inv_def store_inv_def start_world_def all_fds_def held_def no_ssl_env_def ssl_held_def
      certs_held_def agree_def)
next
  case (ssl_step fds ss xs s op ntop g s')
  then show ?case using ssl_exec_step[of fds ss xs s op ntop g s'] by auto
qed

section \<open>What the accounting guarantees\<close>

text \<open>
  C14. Connections give back what they have taken, exactly once: in every state that a program of
  constructions, copies, assignments between different objects, clears, destructions, Shutdowns, Accepts
  of a new object, Connects on objects without a certificate, and Sockets on objects without a
  descriptor can reach, when Socket makes an SSL object only for an object that has none and shares its
  descriptor with nobody, a further such operation never touches freed memory, and when the last object is gone the
  descriptors closed, the SSL objects freed and the certificates freed are, with their multiplicity,
  those that the system and OpenSSL have handed out.
\<close>

theorem ssl_objects_freed_once:
  assumes "ssl_reach fds ss xs (cs, e, w)"
  shows "(ssl_allowed op (cs, e, w) \<longrightarrow> ssl_exec ntop g op (cs, e, w) \<noteq> Undefined)
    \<and> (cs = [] \<longrightarrow> mset (closed w) = mset fds \<and> mset (ssl_freed e) = mset ss \<and> mset (x509_freed e) = mset xs
         \<and> heap w = Map.empty)"
proof -
  have i: "ssl_inv fds ss xs (cs, e, w)" by (rule ssl_reach_inv[OF assms])
  obtain m where m: "store_inv (owners sref cs) w" "all_fds w = mset fds"
    "mset (ssl_freed e) + ssl_held m (owners sref cs) = mset ss" "mset (x509_freed e) + certs_held cs = mset xs"
    by (rule ssl_invE[OF i])
  have "cs = [] \<longrightarrow> heap w = Map.empty" using m(1) store_inv_empty[of w] by auto
  with m ssl_exec_step[OF i] show ?thesis
    by (auto simp: ssl_held_def certs_held_def all_fds_def held_def)
qed

text \<open>
  A connection with SSL object 2 and certificate 8, opened on descriptor 7, copied and destroyed twice.
\<close>

fun ssl_run :: "ssl_op list \<Rightarrow> int list \<times> nat list \<times> nat list \<times> ssl_conns \<Rightarrow> (int list \<times> nat list \<times> nat list \<times> ssl_conns) option" where
  "ssl_run [] r = Some r"
| "ssl_run (op # ops) (fds, ss, xs, s) = (if ssl_allowed op s
     then (case ssl_exec (\<lambda>_. None) (\<lambda>s. Some (s + 6)) op s of
         Returns s' \<Rightarrow> ssl_run ops (new_fds op s @ fds, new_ssls op s' @ ss, new_certs op s' @ xs, s')
       | _ \<Rightarrow> None)
     else None)"

lemma ssl_run_reach:
  "ssl_run ops (fds, ss, xs, s) = Some (fds', ss', xs', s') \<Longrightarrow> ssl_reach fds ss xs s \<Longrightarrow> ssl_reach fds' ss' xs' s'"
proof (induction ops arbitrary: fds ss xs s)
  case (Cons op ops)
  then obtain s1 where s1: "ssl_allowed op s" "ssl_exec (\<lambda>_. None) (\<lambda>s. Some (s + 6)) op s = Returns s1"
    "ssl_run ops (new_fds op s @ fds, new_ssls op s1 @ ss, new_certs op s1 @ xs, s1) = Some (fds', ss', xs', s')"
    by (auto split: if_splits sys.splits)
  show ?case by (rule Cons.IH[OF s1(3) ssl_step[OF Cons.prems(2) s1(1,2)]])
qed simp

lemmas ssl_op_defs = SSLConn_def TCPConn_def put_at_def put_last_def ssl_copy_def tcp_copy_def ssl_destroy_def tcp_destroy_def
  free_cert_def free_ssl_if_last_def ssl_Socket_def on_tcp_def on_ip_opt_def ssl_event_def cert_of_def owners_def
  no_ssl_env_def example_world_def start_world_def ErrorHandler_def ip_op_defs

lemma ssl_run_ends:
  "\<exists>e w. ssl_run [MakeSsl, SocketSsl 0 7 True (Inr 2), CopySsl 0, DropSsl 0, DropSsl 0] ([], [], [], [], no_ssl_env, example_world)
    = Some ([7], [2], [8], [], e, w)"
  by (simp add: ssl_op_defs)

theorem ssl_objects_freed_once_witness:
  "\<exists>e w. ssl_reach [7] [2] [8] ([], e, w) \<and> closed w = [7] \<and> ssl_freed e = [2] \<and> x509_freed e = [8]"
proof -
  obtain e w where r: "ssl_reach [7] [2] [8] ([], e, w)"
    using ssl_run_ends ssl_run_reach[OF _ ssl_start] unfolding example_world_def by blast
  with ssl_objects_freed_once[OF r] show ?thesis by fastforce
qed

text \<open>
  The condition is needed: a copy made before Socket shares the descriptor but not the SSL object, and
  when it goes last the SSL object is never freed.
\<close>

fun ssl_run_any :: "ssl_op list \<Rightarrow> ssl_conns \<Rightarrow> ssl_conns sys" where
  "ssl_run_any [] s = Returns s"
| "ssl_run_any (op # ops) s = bind_sys (ssl_exec (\<lambda>_. None) (\<lambda>s. Some (s + 6)) op s) (ssl_run_any ops)"

lemma late_ssl_object_leaks:
  "\<exists>e w. ssl_run_any [MakeSsl, CopySsl 0, SocketSsl 0 7 True (Inr 2), DropSsl 0, DropSsl 0] ([], no_ssl_env, example_world)
    = Returns ([], e, w) \<and> closed w = [7] \<and> ssl_freed e = []"
  by (simp add: ssl_op_defs)

end
