(* ===== verification/Tcp_Session.thy ===== *)
theory Tcp_Session
  imports Msg_Hdr File_Obj Ssl_Conn
begin

text \<open>
  The sessions of TCPSession.h and TCPSession.cc, with the message records of MsgInfo.h: a connection
  with a read buffer and a write buffer, the header and state of the incoming message, and the queue
  of the outgoing ones. A buffer is the whole memory of its allocation; the lengths next to it are the
  source's signed fields. The two mutexes are flags, and locking a mutex that is held Blocks. Memory
  fresh from the allocator has the bytes junk. Every operation is one thread's; logging is left out.
\<close>

section \<open>Memory\<close>

definition mem_get :: "string \<Rightarrow> int \<Rightarrow> int \<Rightarrow> string option" where
  "mem_get mem off n =
     (if 0 \<le> off \<and> 0 \<le> n \<and> off + n \<le> int (length mem) then Some (take (nat n) (drop (nat off) mem)) else None)"

definition mem_put :: "string \<Rightarrow> int \<Rightarrow> string \<Rightarrow> string option" where
  "mem_put mem off d =
     (if 0 \<le> off \<and> off + int (length d) \<le> int (length mem)
      then Some (take (nat off) mem @ d @ drop (nat off + length d) mem) else None)"

definition mem_move :: "string \<Rightarrow> int \<Rightarrow> int \<Rightarrow> int \<Rightarrow> string option" where
  "mem_move mem dst src n = (case mem_get mem src n of None \<Rightarrow> None | Some d \<Rightarrow> mem_put mem dst d)"

definition fresh :: "(nat \<Rightarrow> char) \<Rightarrow> nat \<Rightarrow> string" where
  "fresh junk n = map junk [0..<n]"

definition realloc_mem :: "(nat \<Rightarrow> char) \<Rightarrow> string \<Rightarrow> int \<Rightarrow> string" where
  "realloc_mem junk mem n = take (nat n) mem @ fresh junk (nat n - length mem)"

lemma length_fresh [simp]: "length (fresh junk n) = n"
  by (simp add: fresh_def)

lemma mem_get_SomeD: "mem_get mem off n = Some d \<Longrightarrow> int (length d) = n \<and> d = take (nat n) (drop (nat off) mem)"
  by (auto simp: mem_get_def split: if_splits)

lemma mem_put_length: "mem_put mem off d = Some mem' \<Longrightarrow> length mem' = length mem"
  by (auto simp: mem_put_def split: if_splits)

section \<open>The state\<close>

record msg_info =
  mi_initialized :: bool
  mi_storage :: "8 word"
  mi_storage_initialized :: bool
  mi_msg_id :: "16 word"
  mi_hdr_len :: int
  mi_body_len :: int
  mi_buf_offset :: int
  mi_file_offset :: int

definition SESSION_USE_MEM :: "8 word" where "SESSION_USE_MEM = 0"
definition SESSION_USE_DISC :: "8 word" where "SESSION_USE_DISC = 1"
definition TCPSESSION_THREAD_NULL :: nat where "TCPSESSION_THREAD_NULL = 0"
definition kDefaultBufSize :: int where "kDefaultBufSize = 4096"
definition kDefaultTimeout :: int where "kDefaultTimeout = 300"

definition zero_info :: msg_info where
  "zero_info = \<lparr>mi_initialized = False, mi_storage = 0, mi_storage_initialized = False, mi_msg_id = 0,
     mi_hdr_len = 0, mi_body_len = 0, mi_buf_offset = 0, mi_file_offset = 0\<rparr>"

record session =
  s_conn :: sslconn
  framing_type :: "8 word"
  handle :: "16 word"
  timeout :: int
  synchronize_connection :: bool
  synchronize_status :: "8 word"
  rbuf :: "string option"
  rbuf_size :: int
  rbuf_len :: int
  rfile :: file_obj
  rpending :: msg_info
  rhdr :: msghdr
  rtid :: nat
  wbuf :: "string option"
  wbuf_size :: int
  wbuf_len :: int
  wfiles :: "file_obj list"
  wpending :: "msg_info list"
  whdrs :: "msghdr list"
  in_lock :: bool
  out_lock :: bool

text \<open>What the sessions of a process share: the store, the OpenSSL records, the two id counters.\<close>

record genv =
  gw :: world
  gssl :: ssl_env
  g_msg_id :: "16 word"
  g_session_id :: "16 word"

type_synonym sess_st = "session \<times> genv"

definition s_fail :: "int \<Rightarrow> string \<Rightarrow> sess_st \<Rightarrow> sess_st" where
  "s_fail r m st = (fst st, (snd st)\<lparr>gw := w_fail r m (gw (snd st))\<rparr>)"

definition s_event :: "sess_st \<Rightarrow> bool" where
  "s_event st = event_flag (w_err (gw (snd st)))"

definition s_append :: "string \<Rightarrow> sess_st \<Rightarrow> sess_st" where
  "s_append m st = (fst st, (snd st)\<lparr>gw := (gw (snd st))\<lparr>w_err := error_AppendMsg (Some m) (w_err (gw (snd st)))\<rparr>\<rparr>)"

definition lock_in :: "sess_st \<Rightarrow> sess_st sys" where
  "lock_in st = (if in_lock (fst st) then Blocks else Returns ((fst st)\<lparr>in_lock := True\<rparr>, snd st))"

definition lock_out :: "sess_st \<Rightarrow> sess_st sys" where
  "lock_out st = (if out_lock (fst st) then Blocks else Returns ((fst st)\<lparr>out_lock := True\<rparr>, snd st))"

definition unlock_in :: "sess_st \<Rightarrow> sess_st" where
  "unlock_in st = ((fst st)\<lparr>in_lock := False\<rparr>, snd st)"

definition unlock_out :: "sess_st \<Rightarrow> sess_st" where
  "unlock_out st = ((fst st)\<lparr>out_lock := False\<rparr>, snd st)"

definition on_rfile :: "(file_st \<Rightarrow> file_st option) \<Rightarrow> sess_st \<Rightarrow> sess_st sys" where
  "on_rfile f st = of_opt (map_option (\<lambda>(fl, w). ((fst st)\<lparr>rfile := fl\<rparr>, (snd st)\<lparr>gw := w\<rparr>))
     (f (rfile (fst st), gw (snd st))))"

definition put_conn :: "ssl_st \<Rightarrow> sess_st \<Rightarrow> sess_st" where
  "put_conn c st = ((fst st)\<lparr>s_conn := fst c\<rparr>, (snd st)\<lparr>gssl := fst (snd c), gw := snd (snd c)\<rparr>)"

abbreviation conn_st :: "sess_st \<Rightarrow> ssl_st" where
  "conn_st st \<equiv> (s_conn (fst st), gssl (snd st), gw (snd st))"

section \<open>Construction\<close>

definition TCPSession :: "8 word \<Rightarrow> int \<Rightarrow> genv \<Rightarrow> sess_st" where
  "TCPSession framing now g =
     (case SSLConn (gw g) of (c, w1) \<Rightarrow> (case File w1 of (f, w2) \<Rightarrow>
        (\<lparr>s_conn = c, framing_type = framing, handle = g_session_id g, timeout = now + kDefaultTimeout,
          synchronize_connection = False, synchronize_status = 0, rbuf = None, rbuf_size = 0, rbuf_len = 0,
          rfile = f, rpending = zero_info, rhdr = MsgHdr framing, rtid = TCPSESSION_THREAD_NULL,
          wbuf = None, wbuf_size = 0, wbuf_len = 0, wfiles = [], wpending = [], whdrs = [],
          in_lock = False, out_lock = False\<rparr>,
         g\<lparr>gw := w2, g_session_id := g_session_id g + 1\<rparr>)))"

fun destroy_files :: "file_obj list \<Rightarrow> world \<Rightarrow> world option" where
  "destroy_files [] w = Some w"
| "destroy_files (f # fs) w = (case file_destroy f w of None \<Rightarrow> None | Some w' \<Rightarrow> destroy_files fs w')"

definition sess_destroy :: "sess_st \<Rightarrow> genv option" where
  "sess_destroy st = (let s = fst st; g = snd st in
     case destroy_files (wfiles s) (gw g) of
       None \<Rightarrow> None
     | Some w1 \<Rightarrow> (case file_destroy (rfile s) w1 of
           None \<Rightarrow> None
         | Some w2 \<Rightarrow> map_option (\<lambda>(e, w3). g\<lparr>gw := w3, gssl := e\<rparr>) (ssl_destroy (s_conn s, gssl g, w2))))"

fun copy_files :: "file_obj list \<Rightarrow> world \<Rightarrow> world option" where
  "copy_files [] w = Some w"
| "copy_files (f # fs) w = (case file_copy f w of None \<Rightarrow> None | Some (f', w') \<Rightarrow> copy_files fs w')"

text \<open>
  The copy constructor; ok_r and ok_w are the results of the two \<^verbatim>\<open>malloc(3)\<close> calls. On a
  failure it returns with the buffers it has and with the fields that are assigned later, the
  mutexes among them, left as the memory was: they are those of the session raw.
\<close>

definition copy_buf :: "(nat \<Rightarrow> char) \<Rightarrow> int \<Rightarrow> string option \<Rightarrow> int \<Rightarrow> string option sys" where
  "copy_buf junk sz src len =
     (let new = (if sz > 0 then Some (fresh junk (nat sz)) else None) in
      if len = 0 then Returns new
      else (case (new, src) of
          (Some m, Some d) \<Rightarrow>
            (case mem_get d 0 len of
               None \<Rightarrow> Undefined
             | Some x \<Rightarrow> of_opt (map_option Some (mem_put m 0 x)))
        | _ \<Rightarrow> Undefined))"

definition sess_copy :: "(nat \<Rightarrow> nat option) \<Rightarrow> bool \<Rightarrow> bool \<Rightarrow> (nat \<Rightarrow> char) \<Rightarrow> session \<Rightarrow> session \<Rightarrow> genv \<Rightarrow> sess_st sys" where
  "sess_copy get_cert ok_r ok_w junk raw src g =
     (case ssl_copy get_cert (s_conn src) (gw g) of
        None \<Rightarrow> Undefined
      | Some (c, w1) \<Rightarrow>
          (case file_copy (rfile src) w1 of
             None \<Rightarrow> Undefined
           | Some (f, w2) \<Rightarrow>
               (case copy_files (wfiles src) w2 of
                  None \<Rightarrow> Undefined
                | Some w3 \<Rightarrow>
                    (let g' = g\<lparr>gw := w3\<rparr>;
                         base = raw\<lparr>s_conn := c, rfile := f, rhdr := rhdr src, wfiles := wfiles src,
                           wpending := wpending src, whdrs := whdrs src, rbuf := None, rbuf_size := 0, rbuf_len := 0,
                           wbuf := None, wbuf_size := 0, wbuf_len := 0\<rparr> in
                     if rbuf_size src > 0 \<and> \<not> ok_r then Returns (base, g')
                     else if wbuf_size src > 0 \<and> \<not> ok_w
                     then Returns (base\<lparr>rbuf := (if rbuf_size src > 0 then Some (fresh junk (nat (rbuf_size src))) else None)\<rparr>, g')
                     else bind_sys (copy_buf junk (rbuf_size src) (rbuf src) (rbuf_len src)) (\<lambda>rb.
                          bind_sys (copy_buf junk (wbuf_size src) (wbuf src) (wbuf_len src)) (\<lambda>wb.
                          Returns (base\<lparr>framing_type := framing_type src, handle := handle src, timeout := timeout src,
                            synchronize_connection := synchronize_connection src,
                            synchronize_status := synchronize_status src,
                            rbuf := rb, rbuf_size := rbuf_size src, rbuf_len := rbuf_len src,
                            rpending := rpending src, rtid := rtid src,
                            wbuf := wb, wbuf_size := wbuf_size src, wbuf_len := wbuf_len src,
                            in_lock := False, out_lock := False\<rparr>, g')))))))"

section \<open>Mutators\<close>

definition set_handle :: "16 word \<Rightarrow> session \<Rightarrow> session" where "set_handle h s = s\<lparr>handle := h\<rparr>"

definition set_synchronize_status :: "8 word \<Rightarrow> session \<Rightarrow> session" where
  "set_synchronize_status x s = s\<lparr>synchronize_status := x\<rparr>"

definition sess_set_connected :: "bool \<Rightarrow> sess_st \<Rightarrow> sess_st sys" where
  "sess_set_connected b st = bind_sys (lock_in st) (\<lambda>st1. bind_sys (lock_out st1) (\<lambda>st2.
     let c = s_conn (fst st2); st3 = ((fst st2)\<lparr>s_conn := c\<lparr>s_tcp := set_connected b (s_tcp c)\<rparr>\<rparr>, snd st2)
     in Returns (unlock_in (unlock_out st3))))"

text \<open>set_rfile; res is the result of \<^verbatim>\<open>open(2)\<close>.\<close>

definition set_rfile :: "string + int \<Rightarrow> string option \<Rightarrow> sess_st \<Rightarrow> sess_st sys" where
  "set_rfile res pth st =
     (if \<not> c_nonempty pth then Returns (s_fail EX_SOFTWARE ''TCPSession::set_rfile(): path is NULL or empty'' st)
      else bind_sys (of_opt (file_IsOpen (rfile (fst st), gw (snd st)))) (\<lambda>is_open.
        if is_open then Returns (s_fail EX_SOFTWARE ''TCPSession::set_rfile(): rfile is open'' st)
        else bind_sys (lock_in st) (\<lambda>st1.
          bind_sys (if fname (rfile (fst st1)) \<noteq> [] then on_rfile (\<lambda>(f, w). file_clear f w) st1 else Returns st1) (\<lambda>st2.
          let p = (rpending (fst st2))\<lparr>mi_file_offset := 0, mi_storage := SESSION_USE_DISC, mi_storage_initialized := True\<rparr>;
              st3 = ((fst st2)\<lparr>rpending := p\<rparr>, snd st2) in
          bind_sys (on_rfile (\<lambda>f. map_option snd (file_InitFromBuf pth f)) st3) (\<lambda>st4.
          bind_sys (on_rfile (file_Open None 577 416 res) st4) (\<lambda>st5.
          Returns (unlock_in (if s_event st5 then s_append ''TCPSession::set_rfile(): '' st5 else st5))))))))"

definition set_rtid :: "nat \<Rightarrow> sess_st \<Rightarrow> sess_st sys" where
  "set_rtid i st = bind_sys (lock_in st) (\<lambda>st1. Returns (unlock_in ((fst st1)\<lparr>rtid := i\<rparr>, snd st1)))"

definition set_storage :: "int \<Rightarrow> sess_st \<Rightarrow> sess_st sys" where
  "set_storage x st = bind_sys (lock_in st) (\<lambda>st1. Returns (unlock_in
     ((fst st1)\<lparr>rpending := (rpending (fst st1))\<lparr>mi_storage := word_of_int x, mi_storage_initialized := True\<rparr>\<rparr>, snd st1)))"

text \<open>delete_whdr erases the first archived header with the id.\<close>

fun erase_hdr :: "16 word \<Rightarrow> msghdr list \<Rightarrow> msghdr list" where
  "erase_hdr i [] = []"
| "erase_hdr i (h # hs) = (if msg_id h = i then hs else h # erase_hdr i hs)"

definition delete_whdr :: "16 word \<Rightarrow> sess_st \<Rightarrow> sess_st sys" where
  "delete_whdr i st = bind_sys (lock_out st) (\<lambda>st1.
     Returns (unlock_out ((fst st1)\<lparr>whdrs := erase_hdr i (whdrs (fst st1))\<rparr>, snd st1)))"

definition sess_print :: "(sock_addr \<Rightarrow> string option) \<Rightarrow> (nat \<Rightarrow> string) \<Rightarrow> sess_st \<Rightarrow> string option" where
  "sess_print ntop show_ptr st = (let s = fst st; w = gw (snd st); col = [CHR '':''] in
     case (ssl_print ntop (s_conn s) w, file_print show_ptr (rfile s, w)) of
       (Some a, Some b) \<Rightarrow> Some (zfill (nat kDefaultBufSize) (sn_print (nat kDefaultBufSize)
         [c_str a @ col @ show_nat (unat (handle s)) @ col @ show_nat (rtid s) @ col @ show_int (rbuf_size s) @ col
          @ show_int (rbuf_len s) @ col @ show_bool (mi_initialized (rpending s)) @ col @ c_str b @ col
          @ show_int (wbuf_size s) @ col @ show_int (wbuf_len s) @ col @ show_nat (length (wfiles s)) @ col
          @ show_nat (length (wpending s)) @ col @ show_nat (length (whdrs s))]))
     | _ \<Rightarrow> None)"

text \<open>Init; ok_r and ok_w are the results of \<^verbatim>\<open>calloc(3)\<close> and \<^verbatim>\<open>malloc(3)\<close>.\<close>

definition sess_Init :: "bool \<Rightarrow> bool \<Rightarrow> (nat \<Rightarrow> char) \<Rightarrow> sess_st \<Rightarrow> sess_st" where
  "sess_Init ok_r ok_w junk st =
     (if rbuf (fst st) \<noteq> None then s_fail EX_SOFTWARE ''TCPSession::Init(): rbuf is not NULL'' st
      else if rtid (fst st) \<noteq> TCPSESSION_THREAD_NULL then s_fail EX_SOFTWARE ''TCPSession::Init(): rtid is not NULL'' st
      else if \<not> ok_r then s_fail EX_OSERR (''TCPSession::Init(): rbuf calloc('' @ show_int kDefaultBufSize @ '') failed'') st
      else (let st1 = ((fst st)\<lparr>rbuf := Some (replicate (nat kDefaultBufSize) NUL), rbuf_size := kDefaultBufSize, rbuf_len := 0\<rparr>, snd st) in
        if \<not> ok_w
        then (let st2 = ((fst st1)\<lparr>wbuf := None\<rparr>, snd st1)
              in s_fail EX_OSERR (''TCPSession::Init(): wbuf malloc('' @ show_int kDefaultBufSize @ '') failed'') st2)
        else ((fst st1)\<lparr>wbuf := Some (fresh junk (nat kDefaultBufSize)), wbuf_size := kDefaultBufSize, wbuf_len := 0\<rparr>, snd st1)))"

section \<open>The private routines\<close>

definition ShiftRbuf :: "int \<Rightarrow> int \<Rightarrow> sess_st \<Rightarrow> sess_st sys" where
  "ShiftRbuf len offset st = (let s = fst st in
     case rbuf s of
       None \<Rightarrow> Returns (s_fail EX_SOFTWARE ''TCPSession::ShiftRbuf(): rbuf_ is NULL'' st)
     | Some mem \<Rightarrow>
         if len + offset > rbuf_len s
         then (let new_len = rbuf_len s - offset
               in bind_sys (of_opt (mem_move mem offset (offset + new_len) (rbuf_len s - (new_len + offset)))) (\<lambda>mem'.
                  Returns (s\<lparr>rbuf := Some mem', rbuf_len := rbuf_len s - new_len\<rparr>, snd st)))
         else bind_sys (of_opt (mem_move mem offset (offset + len) (rbuf_len s - (len + offset)))) (\<lambda>mem'.
                Returns (s\<lparr>rbuf := Some mem', rbuf_len := rbuf_len s - len\<rparr>, snd st)))"

definition ResetRbuf :: "sess_st \<Rightarrow> sess_st sys" where
  "ResetRbuf st =
     (if rbuf (fst st) = None then Returns (s_fail EX_SOFTWARE ''TCPSession::ResetRbuf(): rbuf_ is NULL'' st)
      else (let st1 = ((fst st)\<lparr>rbuf_len := 0\<rparr>, snd st) in
        bind_sys (if mi_storage (rpending (fst st1)) = SESSION_USE_DISC then on_rfile (\<lambda>(f, w). file_clear f w) st1
                  else Returns st1) (\<lambda>st2.
        Returns ((fst st2)\<lparr>rhdr := mh_clear (rhdr (fst st2)), rpending := zero_info\<rparr>, snd st2))))"

definition ResetWbuf :: "sess_st \<Rightarrow> sess_st sys" where
  "ResetWbuf st =
     (if wbuf (fst st) = None then Returns (s_fail EX_SOFTWARE ''TCPSession::ResetWbuf(): wbuf_ is NULL'' st)
      else bind_sys (of_opt (destroy_files (wfiles (fst st)) (gw (snd st)))) (\<lambda>w.
        Returns ((fst st)\<lparr>wbuf_len := 0, wfiles := [], wpending := []\<rparr>, (snd st)\<lparr>gw := w\<rparr>)))"

section \<open>Incoming messages\<close>

text \<open>
  InitIncomingMsg. calloc_ok is the result of \<^verbatim>\<open>calloc(3)\<close> for the chunked body, alloc that
  of the later reallocations, ptr_bytes as for MsgHdr::InitFromBuf. After a failure of the calloc the
  mutex stays locked. incoming_body is what follows a parsed header: used is the number of bytes the
  header took, cb the buffer for a chunked body.
\<close>

definition incoming_body :: "nat \<Rightarrow> chunk_buf \<Rightarrow> sess_st \<Rightarrow> sess_st sys" where
  "incoming_body used cb st = (case cb_data cb of
      None \<Rightarrow> Undefined
    | Some d \<Rightarrow>
        if NUL \<notin> set d then Undefined
        else if c_str d = [] then ShiftRbuf (int used) 0 st
        else (case rbuf (fst st) of
            None \<Rightarrow> Undefined
          | Some mem \<Rightarrow>
              bind_sys (of_opt (mem_put mem 0 (c_str d))) (\<lambda>mem'.
              bind_sys (ShiftRbuf (int used - int (length (c_str d))) (int (length (c_str d)))
                         ((fst st)\<lparr>rbuf := Some mem'\<rparr>, snd st)) (\<lambda>st1.
              case set_body_len (length (c_str d)) (rhdr (fst st1), w_err (gw (snd st1))) of
                (h, e) \<Rightarrow> Returns ((fst st1)\<lparr>rhdr := h\<rparr>, (snd st1)\<lparr>gw := (gw (snd st1))\<lparr>w_err := e\<rparr>\<rparr>)))))"

definition incoming_info :: "sess_st \<Rightarrow> sess_st sys" where
  "incoming_info st = (case mh_hdr_len (rhdr (fst st)) of
      None \<Rightarrow> Undefined
    | Some hl \<Rightarrow> Returns ((fst st)\<lparr>rpending := (rpending (fst st))\<lparr>mi_initialized := True,
        mi_msg_id := msg_id (rhdr (fst st)), mi_hdr_len := int hl,
        mi_body_len := to_ssize_t (mh_body_len (rhdr (fst st))), mi_buf_offset := 0, mi_file_offset := 0,
        mi_storage := SESSION_USE_MEM\<rparr>\<rparr>, snd st))"

definition put_env :: "msg_env \<Rightarrow> sess_st \<Rightarrow> sess_st" where
  "put_env e st = ((fst st)\<lparr>rhdr := env_hdr e\<rparr>,
     (snd st)\<lparr>g_msg_id := msg_id_hash e, gw := (gw (snd st))\<lparr>w_err := env_err e\<rparr>\<rparr>)"

definition InitIncomingMsg :: "basic_hdr \<Rightarrow> (nat \<Rightarrow> bool) \<Rightarrow> bool \<Rightarrow> sess_st \<Rightarrow> (bool \<times> sess_st) sys" where
  "InitIncomingMsg ptr_bytes alloc calloc_ok st = (case rbuf (fst st) of
      None \<Rightarrow> Returns (False, s_fail EX_SOFTWARE ''TCPSession::InitIncomingMsg(): rbuf is NULL'' st)
    | Some mem \<Rightarrow>
        if rbuf_len (fst st) = 0 then Returns (False, st)
        else bind_sys (lock_in st) (\<lambda>st1.
          if \<not> calloc_ok
          then Returns (False, s_fail EX_OSERR (''TCPSession::InitIncomingMsg(): calloc(3) failed for size ''
                 @ show_int kDefaultBufSize @ ''b'') st1)
          else (case mh_InitFromBuf ptr_bytes alloc (Some mem) (to_size_t (rbuf_len (fst st1)))
                  \<lparr>env_hdr = rhdr (fst st1), msg_id_hash = g_msg_id (snd st1), env_err = w_err (gw (snd st1)),
                   env_chunk = \<lparr>cb_data = Some (replicate (nat kDefaultBufSize) NUL), cb_size = nat kDefaultBufSize\<rparr>\<rparr> of
              Fault \<Rightarrow> Undefined
            | Stop e \<Rightarrow>
                (let st2 = put_env e st1 in
                 bind_sys (if s_event st2 then ResetRbuf (s_append ''TCPSession::InitIncomingMsg(): '' st2)
                           else Returns st2) (\<lambda>st3. Returns (False, unlock_in st3)))
            | Go e used \<Rightarrow>
                bind_sys (incoming_body (case used of None \<Rightarrow> 0 | Some k \<Rightarrow> k) (env_chunk e) (put_env e st1)) (\<lambda>st2.
                bind_sys (incoming_info st2) (\<lambda>st3. Returns (True, unlock_in st3))))))"

text \<open>
  Read: the value returned, eof, the rest of the scripts and the state. ptr is the text of the buffer's
  address, alloc the result of the \<^verbatim>\<open>realloc(3)\<close>.
\<close>

definition sess_Read :: "(sock_addr \<Rightarrow> string option) \<Rightarrow> string \<Rightarrow> bool \<Rightarrow> (nat \<Rightarrow> char) \<Rightarrow> ssl_answer list \<Rightarrow> rd_event list
    \<Rightarrow> sess_st \<Rightarrow> (int \<times> bool option \<times> ssl_answer list \<times> rd_event list \<times> sess_st) sys" where
  "sess_Read ntop ptr alloc junk script evs st = (case rbuf (fst st) of
      None \<Rightarrow> Returns (0, None, script, evs, s_fail EX_SOFTWARE ''TCPSession::Read(): rbuf is NULL'' st)
    | Some mem \<Rightarrow> bind_sys (lock_in st) (\<lambda>st1.
        let s = fst st1 in
        if rbuf_size s < rbuf_len s then Undefined
        else bind_sys (ssl_Read ntop (nat (rbuf_size s - rbuf_len s)) script evs (conn_st st1)) (\<lambda>(r, bytes, eof, script', evs', c).
          bind_sys (of_opt (mem_put mem (rbuf_len s) bytes)) (\<lambda>mem'.
          let st2 = put_conn c ((fst st1)\<lparr>rbuf := Some mem'\<rparr>, snd st1) in
          if s_event st2
          then bind_sys (ResetRbuf (s_append (''TCPSession::Read(): rbuf_ '' @ ptr @ '', rbuf_len_ '' @ show_int (rbuf_len s)
                 @ '', rbuf_size_ '' @ show_int (rbuf_size s) @ '', eof '' @ show_bool eof @ '': clearing rbuf_: '') st2))
                 (\<lambda>st3. Returns (0, Some eof, script', evs', unlock_in st3))
          else (let st3 = ((fst st2)\<lparr>rbuf_len := rbuf_len s + r\<rparr>, snd st2) in
            if rbuf_len s + r \<noteq> rbuf_size s then Returns (r, Some eof, script', evs', unlock_in st3)
            else (let n = rbuf_size s + kDefaultBufSize in
              if \<not> alloc
              then bind_sys (ResetRbuf (s_fail EX_OSERR (''TCPSession::Read(): realloc('' @ show_int n @ '') failed'') st3))
                     (\<lambda>st4. Returns (0, Some eof, script', evs', unlock_in st4))
              else Returns (r, Some eof, script', evs', unlock_in
                     ((fst st3)\<lparr>rbuf := Some (realloc_mem junk mem' n), rbuf_size := n\<rparr>, snd st3))))))))"

text \<open>
  StreamIncomingMsg: the value returned, the bytes that went to the file, the rest of the script of
  \<^verbatim>\<open>write(2)\<close> and the state. A count below 0 would become an unsigned one.
\<close>

definition file_write :: "string \<Rightarrow> wr_event list \<Rightarrow> (((int \<times> string) + nat) \<times> wr_event list) sys" where
  "file_write d evs = (if d = [] then Returns (Inr 0, evs) else (case evs of
      [] \<Rightarrow> Blocks
    | Takes k # evs' \<Rightarrow> Returns (Inr (min k (length d)), evs')
    | WrErr e m # evs' \<Rightarrow> Returns (Inl (e, m), evs')))"

definition StreamIncomingMsg :: "(nat \<Rightarrow> string) \<Rightarrow> wr_event list \<Rightarrow> sess_st \<Rightarrow> (int \<times> string \<times> wr_event list \<times> sess_st) sys" where
  "StreamIncomingMsg show_ptr evs st = (case rbuf (fst st) of
      None \<Rightarrow> Returns (1, [], evs, s_fail EX_SOFTWARE ''TCPSession::StreamIncomingMsg(): rbuf is NULL'' st)
    | Some mem \<Rightarrow> bind_sys (of_opt (file_IsOpen (rfile (fst st), gw (snd st)))) (\<lambda>is_open.
        if \<not> is_open then Returns (1, [], evs, s_fail EX_SOFTWARE ''TCPSession::StreamIncomingMsg(): rfile not open'' st)
        else if \<not> mi_initialized (rpending (fst st))
        then Returns (1, [], evs, s_fail EX_SOFTWARE ''TCPSession::Write(): rpending not initialized'' st)
        else bind_sys (lock_in st) (\<lambda>st1.
          let s = fst st1; p = rpending s;
              n = min (mi_body_len p - mi_file_offset p) (rbuf_len s) in
          bind_sys (of_opt (mem_get mem 0 n)) (\<lambda>d.
          bind_sys (file_write d evs) (\<lambda>(res, evs'). case res of
            Inl (e, m) \<Rightarrow>
              bind_sys (of_opt (file_print show_ptr (rfile s, gw (snd st1)))) (\<lambda>fp.
              bind_sys (ResetRbuf (s_fail EX_IOERR (''TCPSession::StreamIncomingMsg(): write('' @ c_str fp @ '') failed, n -1, rbuf len ''
                  @ show_int (rbuf_len s) @ '', hdr len '' @ show_int (mi_hdr_len p) @ '': '' @ m) st1))
                (\<lambda>st2. Returns (1, [], evs', unlock_in st2)))
          | Inr k \<Rightarrow>
              (let p' = p\<lparr>mi_file_offset := mi_file_offset p + int k\<rparr> in
               bind_sys (ShiftRbuf (int k) 0 (s\<lparr>rpending := p'\<rparr>, snd st1)) (\<lambda>st2.
               if mi_file_offset p' \<ge> mi_body_len p'
               then bind_sys (on_rfile (\<lambda>(f, w). map_option (Pair f) (file_Close f w)) st2) (\<lambda>st3.
                      Returns (0, take k d, evs', unlock_in st3))
               else Returns (1, take k d, evs', unlock_in st2))))))))"

definition ClearIncomingMsg :: "sess_st \<Rightarrow> sess_st sys" where
  "ClearIncomingMsg st =
     (if rbuf (fst st) = None then Returns (s_fail EX_SOFTWARE ''TCPSession::ClearIncomingMsg(): rbuf_ is NULL'' st)
      else bind_sys (lock_in st) (\<lambda>st1.
        bind_sys (if mi_storage (rpending (fst st1)) = SESSION_USE_MEM
                  then ShiftRbuf (mi_body_len (rpending (fst st1))) 0 st1
                  else on_rfile (\<lambda>(f, w). file_clear f w) st1) (\<lambda>st2.
        Returns (unlock_in ((fst st2)\<lparr>rhdr := mh_clear (rhdr (fst st2)), rpending := zero_info\<rparr>, snd st2)))))"

section \<open>Outgoing messages\<close>

text \<open>
  What the two AddMsg operations share: room in the write buffer, the record of the message (its flag
  initialized is never set, nor read), and the copy of a piece into the buffer.
\<close>

definition make_room :: "string \<Rightarrow> bool \<Rightarrow> (nat \<Rightarrow> char) \<Rightarrow> int \<Rightarrow> sess_st \<Rightarrow> (bool \<times> sess_st) sys" where
  "make_room fn alloc junk need st = (let s = fst st in
     if need + wbuf_len s > wbuf_size s
     then (let n = need + wbuf_len s + kDefaultBufSize in
       if \<not> alloc then Returns (False, s_fail EX_OSERR (fn @ ''realloc('' @ show_int n @ '') failed'') st)
       else bind_sys (of_opt (wbuf s)) (\<lambda>mem. Returns (True, s\<lparr>wbuf := Some (realloc_mem junk mem n), wbuf_size := n\<rparr>, snd st)))
     else Returns (True, st))"

definition new_info :: "8 word \<Rightarrow> 16 word \<Rightarrow> int \<Rightarrow> int \<Rightarrow> msg_info" where
  "new_info storage i hl bl = \<lparr>mi_initialized = False, mi_storage = storage, mi_storage_initialized = True,
     mi_msg_id = i, mi_hdr_len = hl, mi_body_len = bl, mi_buf_offset = 0, mi_file_offset = 0\<rparr>"

definition append_wbuf :: "string \<Rightarrow> int \<Rightarrow> session \<Rightarrow> session sys" where
  "append_wbuf src n s = bind_sys (of_opt (mem_get src 0 n)) (\<lambda>d.
     bind_sys (of_opt (wbuf s)) (\<lambda>mem. bind_sys (of_opt (mem_put mem (wbuf_len s) d)) (\<lambda>mem'.
       Returns (s\<lparr>wbuf := Some mem', wbuf_len := wbuf_len s + n\<rparr>))))"

definition archive_hdr :: "msghdr \<Rightarrow> session \<Rightarrow> session" where
  "archive_hdr h s = (if IsMsgRequest h then s\<lparr>whdrs := whdrs s @ [h]\<rparr> else s)"

definition AddMsgBuf :: "bool \<Rightarrow> (nat \<Rightarrow> char) \<Rightarrow> string option \<Rightarrow> int \<Rightarrow> string \<Rightarrow> int \<Rightarrow> msghdr \<Rightarrow> sess_st \<Rightarrow> (bool \<times> sess_st) sys" where
  "AddMsgBuf alloc junk framing_hdr hl msg_body bl whdr st =
     (if wbuf (fst st) = None then Returns (False, s_fail EX_SOFTWARE ''TCPSession::AddMsgBuf(): wbuf_ is NULL'' st)
      else if \<not> c_nonempty framing_hdr
      then Returns (False, s_fail EX_SOFTWARE ''TCPSession::AddMsgBuf(): framing_hdr is NULL or empty'' st)
      else bind_sys (lock_out st) (\<lambda>st1.
        bind_sys (make_room ''TCPSession::AddMsgBuf(): '' alloc junk (hl + bl) st1) (\<lambda>(ok, st2).
        if \<not> ok then Returns (False, unlock_out st2)
        else (let s = (fst st2)\<lparr>wpending := wpending (fst st2) @ [new_info SESSION_USE_MEM (msg_id whdr) hl bl]\<rparr> in
          bind_sys (append_wbuf (the framing_hdr) hl s) (\<lambda>s1.
          bind_sys (append_wbuf msg_body bl s1) (\<lambda>s2.
          Returns (True, unlock_out (archive_hdr whdr s2, snd st2))))))))"

text \<open>
  AddMsgFile pushes a copy of the File object, which takes a reference to its descriptor; the copies
  and destructions when the vector moves to a larger array cancel out.
\<close>

definition AddMsgFile :: "bool \<Rightarrow> (nat \<Rightarrow> char) \<Rightarrow> string option \<Rightarrow> int \<Rightarrow> file_obj \<Rightarrow> int \<Rightarrow> msghdr \<Rightarrow> sess_st \<Rightarrow> (bool \<times> sess_st) sys" where
  "AddMsgFile alloc junk framing_hdr hl msg_body bl whdr st =
     (if wbuf (fst st) = None then Returns (False, s_fail EX_SOFTWARE ''TCPSession::AddMsgFile(): wbuf is NULL'' st)
      else if \<not> c_nonempty framing_hdr
      then Returns (False, s_fail EX_SOFTWARE ''TCPSession::AddMsgFile(): framing_hdr is NULL or empty'' st)
      else bind_sys (lock_out st) (\<lambda>st1.
        bind_sys (make_room ''TCPSession::AddMsgFile(): '' alloc junk hl st1) (\<lambda>(ok, st2).
        if \<not> ok then Returns (False, unlock_out st2)
        else (let s = (fst st2)\<lparr>wpending := wpending (fst st2) @ [new_info SESSION_USE_DISC (msg_id whdr) hl bl]\<rparr> in
          bind_sys (append_wbuf (the framing_hdr) hl s) (\<lambda>s1.
          bind_sys (of_opt (file_copy msg_body (gw (snd st2)))) (\<lambda>(f, w).
          Returns (True, unlock_out (archive_hdr whdr (s1\<lparr>wfiles := wfiles s1 @ [f]\<rparr>), (snd st2)\<lparr>gw := w\<rparr>))))))))"

subsection \<open>Write\<close>

text \<open>
  The results: the value returned, what went out, the rest of the scripts of OpenSSL and of
  \<^verbatim>\<open>write(2)\<close> and the state. send is the connection's Write of n bytes from an offset of
  the write buffer; a negative count would become a huge one.
\<close>

type_synonym write_result = "int \<times> string \<times> ssl_answer list \<times> wr_event list \<times> sess_st"

definition front :: "session \<Rightarrow> msg_info" where
  "front s = hd (wpending s)"

definition set_front :: "msg_info \<Rightarrow> session \<Rightarrow> session" where
  "set_front m s = s\<lparr>wpending := m # tl (wpending s)\<rparr>"

definition send_wbuf :: "bool \<Rightarrow> (sock_addr \<Rightarrow> string option) \<Rightarrow> int \<Rightarrow> int \<Rightarrow> ssl_answer list \<Rightarrow> wr_event list \<Rightarrow> sess_st
    \<Rightarrow> write_result sys" where
  "send_wbuf logged ntop off n script evs st = (case wbuf (fst st) of
      None \<Rightarrow> Undefined
    | Some mem \<Rightarrow>
        if off < 0 \<or> n < 0 \<or> int (length mem) < off then Undefined
        else bind_sys (ssl_Write logged ntop (drop (nat off) mem) (nat n) script evs (conn_st st))
          (\<lambda>(r, wire, script', evs', c). Returns (r, wire, script', evs', put_conn c st)))"

definition reset_out :: "sess_st \<Rightarrow> sess_st sys" where
  "reset_out st = bind_sys (ResetWbuf st) (\<lambda>st1. Returns (unlock_out st1))"

definition wbuf_text :: "string \<Rightarrow> session \<Rightarrow> string" where
  "wbuf_text ptr s = ''TCPSession::Write(): wbuf_ '' @ ptr @ '', wbuf_len_ '' @ show_int (wbuf_len s)
     @ '', wbuf_size_ '' @ show_int (wbuf_size s)"

definition write_mem :: "bool \<Rightarrow> (sock_addr \<Rightarrow> string option) \<Rightarrow> string \<Rightarrow> ssl_answer list \<Rightarrow> wr_event list \<Rightarrow> sess_st
    \<Rightarrow> write_result sys" where
  "write_mem logged ntop ptr script evs st =
     (let m = front (fst st); msg_len = mi_hdr_len m + mi_body_len m in
      bind_sys (send_wbuf logged ntop (mi_buf_offset m) (msg_len - mi_buf_offset m) script evs st)
        (\<lambda>(r, wire, script', evs', st1).
        if s_event st1
        then bind_sys (reset_out (s_append (wbuf_text ptr (fst st1) @ '', msg_len '' @ show_int msg_len @ '', offset ''
               @ show_int (mi_buf_offset m) @ '': '') st1)) (\<lambda>st2. Returns (0, wire, script', evs', st2))
        else Returns (r, wire, script', evs', unlock_out
               (set_front (m\<lparr>mi_buf_offset := mi_buf_offset m + r\<rparr>) (fst st1), snd st1))))"

text \<open>
  The body of a message in a file: opening is the result of \<^verbatim>\<open>open(2)\<close>, seek the error of
  \<^verbatim>\<open>lseek(2)\<close>, rds what the reads of the file give. hdr_sent is what the header's Write returned
  in the same call.
\<close>

definition open_front :: "string + int \<Rightarrow> string option \<Rightarrow> (nat \<Rightarrow> string) \<Rightarrow> sess_st \<Rightarrow> (bool \<times> sess_st) sys" where
  "open_front opening seek show_ptr st = (let m = front (fst st) in case wfiles (fst st) of
      [] \<Rightarrow> Undefined
    | f # fs \<Rightarrow>
        bind_sys (of_opt (file_IsOpen (f, gw (snd st)))) (\<lambda>is_open.
        if is_open then Returns (True, st)
        else bind_sys (of_opt (file_Open None 0 0 opening (f, gw (snd st)))) (\<lambda>(f', w).
          let st1 = ((fst st)\<lparr>wfiles := f' # fs\<rparr>, (snd st)\<lparr>gw := w\<rparr>) in
          if s_event st1
          then bind_sys (reset_out (s_append (''TCPSession::Write(): current offset '' @ show_int (mi_file_offset m) @ '': '') st1))
                 (\<lambda>st2. Returns (False, st2))
          else (case seek of
              None \<Rightarrow> Returns (True, st1)
            | Some t \<Rightarrow>
                bind_sys (of_opt (file_print show_ptr (f', gw (snd st1)))) (\<lambda>fp.
                bind_sys (reset_out (s_fail EX_IOERR (''TCPSession::Write(): lseek('' @ c_str fp @ '') failed: '' @ t) st1))
                  (\<lambda>st2. Returns (False, st2)))))))"

definition write_chunk :: "bool \<Rightarrow> (sock_addr \<Rightarrow> string option) \<Rightarrow> (nat \<Rightarrow> string) \<Rightarrow> int \<Rightarrow> string
    \<Rightarrow> ssl_answer list \<Rightarrow> wr_event list \<Rightarrow> rd_event list \<Rightarrow> sess_st \<Rightarrow> (write_result \<times> rd_event list) sys" where
  "write_chunk logged ntop show_ptr hdr_sent wire0 script evs rds st =
     (let m = front (fst st); left = mi_body_len m - mi_file_offset m;
          amount = (if int FILE_CHUNK_SIZE < left then int FILE_CHUNK_SIZE else left) in
      if amount < 0 \<or> wfiles (fst st) = [] then Undefined
      else bind_sys (sys_read (nat amount) rds) (\<lambda>(res, rds').
        bind_sys (of_opt (file_print show_ptr (hd (wfiles (fst st)), gw (snd st)))) (\<lambda>fp.
        let at_offset = '', file_offset is '' @ show_int (mi_file_offset m) @ '', size is '' @ show_int (mi_body_len m) in
        case res of
          Inl _ \<Rightarrow> bind_sys (reset_out (s_fail EX_IOERR (''TCPSession::Write(): read('' @ c_str fp @ '') failed'' @ at_offset) st))
                     (\<lambda>st1. Returns ((hdr_sent, wire0, script, evs, st1), rds'))
        | Inr d \<Rightarrow>
            if d = []
            then bind_sys (reset_out (s_fail EX_IOERR (''TCPSession::Write(): TOOD(aka) read EOF from '' @ c_str fp
                   @ '', but file_offset is '' @ show_int (mi_file_offset m) @ '', size is '' @ show_int (mi_body_len m)) st))
                   (\<lambda>st1. Returns ((hdr_sent, wire0, script, evs, st1), rds'))
            else bind_sys (ssl_Write logged ntop d (length d) script evs (conn_st st)) (\<lambda>(r, wire, script', evs', c).
              let st1 = put_conn c st in
              if s_event st1
              then bind_sys (of_opt (file_print show_ptr (hd (wfiles (fst st1)), gw (snd st1)))) (\<lambda>fp1.
                   bind_sys (reset_out (s_append (''TCPSession::Write(): file '' @ c_str fp1 @ '', body_len ''
                     @ show_int (mi_body_len m) @ '', file_offset '' @ show_int (mi_file_offset m) @ '': '') st1))
                     (\<lambda>st2. Returns ((0, wire0 @ wire, script', evs', st2), rds')))
              else Returns ((r, wire0 @ wire, script', evs', unlock_out
                     (set_front (m\<lparr>mi_file_offset := mi_file_offset m + r\<rparr>) (fst st1), snd st1)), rds')))))"

definition write_disc :: "bool \<Rightarrow> (sock_addr \<Rightarrow> string option) \<Rightarrow> string \<Rightarrow> (nat \<Rightarrow> string) \<Rightarrow> string + int \<Rightarrow> string option
    \<Rightarrow> ssl_answer list \<Rightarrow> wr_event list \<Rightarrow> rd_event list \<Rightarrow> sess_st \<Rightarrow> (write_result \<times> rd_event list) sys" where
  "write_disc logged ntop ptr show_ptr opening seek script evs rds st =
     (let m = front (fst st); hl = mi_hdr_len m in
      bind_sys (if mi_buf_offset m < hl
                then send_wbuf logged ntop (mi_buf_offset m) (hl - mi_buf_offset m) script evs st
                else Returns (0, [], script, evs, st)) (\<lambda>(r, wire, script1, evs1, st1).
      if mi_buf_offset m < hl \<and> s_event st1
      then bind_sys (reset_out (s_append (wbuf_text ptr (fst st1) @ '', hdr_len '' @ show_int hl @ '', offset ''
             @ show_int (mi_buf_offset m) @ '': '') st1)) (\<lambda>st2. Returns ((0, wire, script1, evs1, st2), rds))
      else (let st2 = (set_front (m\<lparr>mi_buf_offset := mi_buf_offset m + r\<rparr>) (fst st1), snd st1) in
        if mi_buf_offset m + r < hl then Returns ((r, wire, script1, evs1, unlock_out st2), rds)
        else bind_sys (open_front opening seek show_ptr st2) (\<lambda>(ok, st3).
          if \<not> ok then Returns ((0, wire, script1, evs1, st3), rds)
          else write_chunk logged ntop show_ptr r wire script1 evs1 rds st3))))"

definition sess_Write :: "bool \<Rightarrow> (sock_addr \<Rightarrow> string option) \<Rightarrow> string \<Rightarrow> (nat \<Rightarrow> string) \<Rightarrow> string + int \<Rightarrow> string option
    \<Rightarrow> ssl_answer list \<Rightarrow> wr_event list \<Rightarrow> rd_event list \<Rightarrow> sess_st \<Rightarrow> (write_result \<times> rd_event list) sys" where
  "sess_Write logged ntop ptr show_ptr opening seek script evs rds st = (let s = fst st in
     if wbuf s = None
     then Returns ((0, [], script, evs, s_fail EX_SOFTWARE ''TCPSession::Write(): wbuf is NULL'' st), rds)
     else if wpending s = []
     then Returns ((0, [], script, evs, s_fail EX_SOFTWARE ''TCPSession::Write(): wpending is empty'' st), rds)
     else if \<not> connected (s_tcp (s_conn s))
     then Returns ((0, [], script, evs, s_fail EX_SOFTWARE ''TCPSession::Write(): not connected'' st), rds)
     else bind_sys (lock_out st) (\<lambda>st1.
       if mi_storage (front s) = SESSION_USE_MEM
       then bind_sys (write_mem logged ntop ptr script evs st1) (\<lambda>x. Returns (x, rds))
       else write_disc logged ntop ptr show_ptr opening seek script evs rds st1))"

subsection \<open>The queue\<close>

text \<open>
  Erasing the first element of the vector of files assigns each element its successor, with File's
  assignment, and destroys the last.
\<close>

fun shift_files :: "file_obj list \<Rightarrow> world \<Rightarrow> (file_obj list \<times> world) option" where
  "shift_files [] w = None"
| "shift_files [f] w = map_option (Pair []) (file_destroy f w)"
| "shift_files (f # g # fs) w = (case file_assign f g w of
      None \<Rightarrow> None
    | Some (f', w1) \<Rightarrow> map_option (\<lambda>(r, w2). (f' # r, w2)) (shift_files (g # fs) w1))"

definition drop_wbuf :: "int \<Rightarrow> sess_st \<Rightarrow> sess_st sys" where
  "drop_wbuf n st = (case wbuf (fst st) of
      None \<Rightarrow> Undefined
    | Some mem \<Rightarrow> bind_sys (of_opt (mem_move mem 0 n (wbuf_len (fst st) - n))) (\<lambda>mem'.
        Returns ((fst st)\<lparr>wbuf := Some mem', wbuf_len := wbuf_len (fst st) - n\<rparr>, snd st)))"

definition PopOutgoingMsgQueue :: "sess_st \<Rightarrow> sess_st sys" where
  "PopOutgoingMsgQueue st =
     (if wbuf (fst st) = None then Returns (s_fail EX_SOFTWARE ''TCPSession::PopOutgoingMsgQueue(): wbuf_ is NULL'' st)
      else if wpending (fst st) = []
      then Returns (s_fail EX_SOFTWARE ''TCPSession::PopOutgoingMsgQueue(): wpending is empty'' st)
      else bind_sys (lock_out st) (\<lambda>st1. let m = front (fst st1) in
        bind_sys (if mi_storage m = SESSION_USE_MEM then drop_wbuf (mi_hdr_len m + mi_body_len m) st1
                  else bind_sys (drop_wbuf (mi_hdr_len m) st1) (\<lambda>st2.
                       bind_sys (of_opt (shift_files (wfiles (fst st2)) (gw (snd st2)))) (\<lambda>(fs, w).
                       Returns ((fst st2)\<lparr>wfiles := fs\<rparr>, (snd st2)\<lparr>gw := w\<rparr>)))) (\<lambda>st3.
        Returns (unlock_out ((fst st3)\<lparr>wpending := tl (wpending (fst st3))\<rparr>, snd st3)))))"

section \<open>Tests\<close>

definition IsIncomingMsgInitialized :: "session \<Rightarrow> bool" where
  "IsIncomingMsgInitialized s \<longleftrightarrow> mi_initialized (rpending s)"

definition IsSynchroniationEnabled :: "session \<Rightarrow> bool" where
  "IsSynchroniationEnabled s \<longleftrightarrow> synchronize_connection s"

definition IsIncomingStorageInitialized :: "session \<Rightarrow> bool" where
  "IsIncomingStorageInitialized s \<longleftrightarrow> mi_storage_initialized (rpending s)"

definition IsIncomingDataStreaming :: "session \<Rightarrow> bool" where
  "IsIncomingDataStreaming s \<longleftrightarrow> mi_storage (rpending s) = SESSION_USE_DISC"

definition IsIncomingMsgComplete :: "session \<Rightarrow> bool" where
  "IsIncomingMsgComplete s \<longleftrightarrow> mi_initialized (rpending s) \<and>
     (mi_file_offset (rpending s) \<ge> mi_body_len (rpending s) \<or> rbuf_len s \<ge> mi_body_len (rpending s))"

definition IsIncomingMsgBeingProcessed :: "session \<Rightarrow> bool" where
  "IsIncomingMsgBeingProcessed s \<longleftrightarrow> rtid s > 0"

definition IsOutgoingMsgSent :: "session \<Rightarrow> bool" where
  "IsOutgoingMsgSent s \<longleftrightarrow> wpending s \<noteq> [] \<and> (let m = front s; total = mi_hdr_len m + mi_body_len m in
     mi_buf_offset m \<ge> total \<or> mi_file_offset m + mi_buf_offset m \<ge> total)"

fun IsOutgoingDataPending_from :: "msg_info list \<Rightarrow> bool" where
  "IsOutgoingDataPending_from [] = False"
| "IsOutgoingDataPending_from (m # ms) =
     (if mi_storage m = SESSION_USE_MEM \<and> mi_buf_offset m < mi_hdr_len m + mi_body_len m
         \<or> mi_storage m = SESSION_USE_DISC \<and> (mi_buf_offset m < mi_hdr_len m \<or> mi_file_offset m < mi_body_len m)
      then True else IsOutgoingDataPending_from ms)"

definition IsOutgoingDataPending :: "session \<Rightarrow> bool" where
  "IsOutgoingDataPending s = IsOutgoingDataPending_from (wpending s)"

end
