(* ===== verification/Session_Queue.thy ===== *)
theory Session_Queue
  imports Tcp_Session
begin

text \<open>
  The outgoing side of a session. The write buffer and the message records together represent a list
  of messages; AddMsgBuf appends to it and PopOutgoingMsgQueue takes its head away, and successive
  Writes send the head, each going on where the last one stopped. The theory states the interface of
  a first-in first-out queue, proves its consequences once, and shows that the session provides it.
\<close>

section \<open>A queue of messages\<close>

text \<open>An operation for each element of a list, as long as none fails.\<close>

primrec run_all :: "('m \<Rightarrow> 'q \<Rightarrow> 'q option) \<Rightarrow> 'm list \<Rightarrow> 'q \<Rightarrow> 'q option" where
  "run_all f [] q = Some q"
| "run_all f (m # ms) q = (case f m q of None \<Rightarrow> None | Some q' \<Rightarrow> run_all f ms q')"

locale msg_queue =
  fixes inv :: "'q \<Rightarrow> bool" and msgs_of :: "'q \<Rightarrow> 'b list" and valid :: "'m \<Rightarrow> bool" and enc :: "'m \<Rightarrow> 'b"
    and add :: "'m \<Rightarrow> 'q \<Rightarrow> 'q option" and pop :: "'q \<Rightarrow> 'q option"
  assumes add_law: "inv q \<Longrightarrow> valid m \<Longrightarrow> \<exists>q'. add m q = Some q' \<and> inv q' \<and> msgs_of q' = msgs_of q @ [enc m]"
    and pop_law: "inv q \<Longrightarrow> msgs_of q \<noteq> [] \<Longrightarrow> \<exists>q'. pop q = Some q' \<and> inv q' \<and> msgs_of q' = tl (msgs_of q)"
begin

lemma add_all_ok:
  "inv q \<Longrightarrow> list_all valid ms \<Longrightarrow> \<exists>q'. run_all add ms q = Some q' \<and> inv q' \<and> msgs_of q' = msgs_of q @ map enc ms"
proof (induction ms arbitrary: q)
  case (Cons m ms)
  then obtain q1 where q1: "add m q = Some q1" "inv q1" "msgs_of q1 = msgs_of q @ [enc m]" using add_law[of q m] by auto
  with Cons.IH[OF q1(2)] Cons.prems(2) show ?case by auto
qed simp

lemma pop_all_ok:
  "inv q \<Longrightarrow> length us \<le> length (msgs_of q)
    \<Longrightarrow> \<exists>q'. run_all (\<lambda>_. pop) us q = Some q' \<and> inv q' \<and> msgs_of q' = drop (length us) (msgs_of q)"
proof (induction us arbitrary: q)
  case (Cons u us)
  then have "msgs_of q \<noteq> []" by auto
  then obtain q1 where q1: "pop q = Some q1" "inv q1" "msgs_of q1 = tl (msgs_of q)" using pop_law[OF Cons.prems(1)] by blast
  then show ?case using Cons.IH[of q1] Cons.prems(2) by (auto simp: drop_Suc)
qed simp

lemma fifo:
  assumes "inv q" "list_all valid ms" "length us \<le> length (msgs_of q @ map enc ms)"
  shows "\<exists>q1 q2. run_all add ms q = Some q1 \<and> run_all (\<lambda>_. pop) us q1 = Some q2 \<and> inv q2
    \<and> msgs_of q2 = drop (length us) (msgs_of q @ map enc ms)"
proof -
  obtain q1 where q1: "run_all add ms q = Some q1" "inv q1" "msgs_of q1 = msgs_of q @ map enc ms"
    using add_all_ok[OF assms(1,2)] by blast
  with pop_all_ok[OF q1(2), of us] assms(3) show ?thesis by auto
qed

end

section \<open>What the buffer represents\<close>

text \<open>The bytes a record has in the write buffer, and the messages in the buffer.\<close>

definition in_wbuf :: "msg_info \<Rightarrow> int" where
  "in_wbuf m = (if mi_storage m = SESSION_USE_MEM then mi_hdr_len m + mi_body_len m else mi_hdr_len m)"

fun pieces :: "string \<Rightarrow> msg_info list \<Rightarrow> string list" where
  "pieces mem [] = []"
| "pieces mem (m # ms) = take (nat (in_wbuf m)) mem # pieces (drop (nat (in_wbuf m)) mem) ms"

definition info_ok :: "msg_info \<Rightarrow> bool" where
  "info_ok m \<longleftrightarrow> 0 \<le> mi_hdr_len m \<and> 0 \<le> mi_body_len m \<and> mi_storage m \<in> {SESSION_USE_MEM, SESSION_USE_DISC}"

definition wlen :: "msg_info list \<Rightarrow> nat" where
  "wlen ms = sum_list (map (\<lambda>m. nat (in_wbuf m)) ms)"

definition out_inv :: "session \<Rightarrow> bool" where
  "out_inv s \<longleftrightarrow> \<not> out_lock s \<and> list_all info_ok (wpending s) \<and> wbuf_len s = int (wlen (wpending s)) \<and>
     (\<exists>mem. wbuf s = Some mem \<and> int (length mem) = wbuf_size s \<and> wbuf_len s \<le> wbuf_size s)"

text \<open>A queue of messages in memory only, as AddMsgBuf makes them.\<close>

definition all_mem :: "session \<Rightarrow> bool" where
  "all_mem s \<longleftrightarrow> list_all (\<lambda>m. mi_storage m = SESSION_USE_MEM) (wpending s)"

definition queued :: "session \<Rightarrow> string list" where
  "queued s = pieces (the (wbuf s)) (wpending s)"

lemma wlen_simps [simp]:
  "wlen [] = 0" "wlen (m # ms) = nat (in_wbuf m) + wlen ms" "wlen (ms @ ns) = wlen ms + wlen ns"
  by (simp_all add: wlen_def)

lemma pieces_append:
  "wlen ms \<le> length mem \<Longrightarrow> pieces (take (wlen ms) mem @ d) (ms @ ns) = pieces mem ms @ pieces d ns"
proof (induction ms arbitrary: mem)
  case (Cons m ms)
  let ?k = "nat (in_wbuf m)"
  from Cons.prems have "?k \<le> length mem" "wlen ms \<le> length (drop ?k mem)" by auto
  then show ?case using Cons.IH[of "drop ?k mem"] by (simp add: min_absorb1 min_absorb2 drop_take)
qed simp

lemma pieces_take: "wlen ms \<le> n \<Longrightarrow> n \<le> length mem \<Longrightarrow> pieces (take n mem) ms = pieces mem ms"
proof -
  assume a: "wlen ms \<le> n" "n \<le> length mem"
  have "pieces (take (wlen ms) mem @ []) (ms @ []) = pieces mem ms" using pieces_append[of ms mem "[]" "[]"] a by simp
  moreover have "pieces (take (wlen ms) (take n mem) @ []) (ms @ []) = pieces (take n mem) ms"
    using pieces_append[of ms "take n mem" "[]" "[]"] a by simp
  ultimately show ?thesis using a by (simp add: min_absorb1)
qed

lemma pieces_put_after:
  assumes "wlen ms \<le> off" "off \<le> length mem"
  shows "pieces (take off mem @ d) ms = pieces mem ms"
proof -
  have "pieces (take off mem @ d) ms = pieces (take (wlen ms) (take off mem @ d)) ms"
    using pieces_take[of ms "wlen ms" "take off mem @ d"] assms by simp
  also have "take (wlen ms) (take off mem @ d) = take (wlen ms) mem" using assms by (simp add: min_absorb1)
  also have "pieces \<dots> ms = pieces mem ms" using pieces_take[of ms "wlen ms" mem] assms by simp
  finally show ?thesis .
qed

lemma length_pieces [simp]: "length (pieces mem ms) = length ms"
  by (induction ms arbitrary: mem) simp_all

section \<open>Adding\<close>

lemma length_realloc_mem: "int (length mem) \<le> n \<Longrightarrow> int (length (realloc_mem junk mem n)) = n"
  by (auto simp: realloc_mem_def)

lemma pieces_realloc: "wlen ms \<le> length mem \<Longrightarrow> int (length mem) \<le> n \<Longrightarrow> pieces (realloc_mem junk mem n) ms = pieces mem ms"
  using pieces_put_after[of ms "length mem" mem "fresh junk (nat n - length mem)"] by (simp add: realloc_mem_def)

lemma make_room_ok:
  assumes "out_inv (fst (unlock_out st))" "0 \<le> need"
  shows "\<exists>ok st'. make_room fn alloc junk need st = Returns (ok, st') \<and> (alloc \<longrightarrow> ok) \<and>
    queued (fst st') = queued (fst st) \<and> wpending (fst st') = wpending (fst st) \<and> wbuf_len (fst st') = wbuf_len (fst st) \<and>
    out_lock (fst st') = out_lock (fst st) \<and> s_conn (fst st') = s_conn (fst st) \<and> wfiles (fst st') = wfiles (fst st) \<and>
    out_inv (fst (unlock_out st')) \<and> (\<not> ok \<longrightarrow> s_event st') \<and>
    (ok \<longrightarrow> need + wbuf_len (fst st') \<le> wbuf_size (fst st') \<and> snd st' = snd st)"
proof (cases "need + wbuf_len (fst st) > wbuf_size (fst st)")
  case False
  then show ?thesis using assms by (intro exI[of _ True] exI[of _ st]) (simp add: make_room_def Let_def)
next
  case True
  from assms(1) obtain mem where mem: "wbuf (fst st) = Some mem" "int (length mem) = wbuf_size (fst st)"
      "wbuf_len (fst st) = int (wlen (wpending (fst st)))" "wbuf_len (fst st) \<le> wbuf_size (fst st)"
    by (auto simp: out_inv_def unlock_out_def)
  show ?thesis
  proof (cases alloc)
    case False
    then show ?thesis using True assms mem
      by (intro exI[of _ False]) (auto simp: make_room_def Let_def s_fail_def s_event_def w_fail_def out_inv_def
          unlock_out_def queued_def)
  next
    case al: True
    let ?n = "need + wbuf_len (fst st) + kDefaultBufSize"
    have n: "int (length mem) \<le> ?n" "need + wbuf_len (fst st) \<le> ?n" using True mem by (auto simp: kDefaultBufSize_def)
    have "pieces (realloc_mem junk mem ?n) (wpending (fst st)) = pieces mem (wpending (fst st))"
      using pieces_realloc n mem by simp
    then show ?thesis using True al mem assms n length_realloc_mem[OF n(1), of junk]
      by (auto simp: make_room_def Let_def out_inv_def unlock_out_def queued_def)
  qed
qed

lemma mem_get_prefix: "n \<le> length d \<Longrightarrow> mem_get d 0 (int n) = Some (take n d)"
  by (simp add: mem_get_def)

lemma append_wbuf_ok:
  assumes "wbuf s = Some mem" "wbuf_len s = int l" "n \<le> length d" "l + n \<le> length mem"
  shows "append_wbuf d (int n) s = Returns
    (s\<lparr>wbuf := Some (take l mem @ take n d @ drop (l + n) mem), wbuf_len := int (l + n)\<rparr>)"
  using assms by (simp add: append_wbuf_def mem_get_prefix mem_put_def min_absorb2 min_absorb1)

definition frame_ok :: "string \<times> string \<times> msghdr \<Rightarrow> bool" where
  "frame_ok m = (case m of (h, b, w) \<Rightarrow> c_str h \<noteq> [])"

definition frame_bytes :: "string \<times> string \<times> msghdr \<Rightarrow> string" where
  "frame_bytes m = (case m of (h, b, w) \<Rightarrow> h @ b)"

text \<open>
  Adding a message given as its header's bytes, its body and its MsgHdr, and popping, for a caller that
  only goes on after a success.
\<close>

definition add_frame :: "bool \<Rightarrow> (nat \<Rightarrow> char) \<Rightarrow> string \<times> string \<times> msghdr \<Rightarrow> sess_st \<Rightarrow> sess_st option" where
  "add_frame alloc junk m st = (case m of (h, b, w) \<Rightarrow>
     (case AddMsgBuf alloc junk (Some h) (int (length h)) b (int (length b)) w st of
        Returns (ok, st') \<Rightarrow> if ok then Some st' else None
      | _ \<Rightarrow> None))"

definition pop_frame :: "sess_st \<Rightarrow> sess_st option" where
  "pop_frame st = (case PopOutgoingMsgQueue st of Returns st' \<Rightarrow> Some st' | _ \<Rightarrow> None)"

lemma archive_hdr_simps [simp]:
  "wbuf (archive_hdr h s) = wbuf s" "wbuf_len (archive_hdr h s) = wbuf_len s" "wbuf_size (archive_hdr h s) = wbuf_size s"
  "wpending (archive_hdr h s) = wpending s" "wfiles (archive_hdr h s) = wfiles s" "s_conn (archive_hdr h s) = s_conn s"
  by (simp_all add: archive_hdr_def)

text \<open>What both kinds of messages do first: lock, and make room for the bytes that go into the buffer.\<close>

lemma room_for:
  assumes "out_inv (fst st)" "0 \<le> need"
  obtains ok st1 st2 where "lock_out st = Returns st1" "make_room fn alloc junk need st1 = Returns (ok, st2)" "alloc \<longrightarrow> ok"
    "queued (fst st2) = queued (fst st)" "wpending (fst st2) = wpending (fst st)" "s_conn (fst st2) = s_conn (fst st)"
    "wfiles (fst st2) = wfiles (fst st)" "out_inv (fst (unlock_out st2))" "\<not> ok \<longrightarrow> s_event st2"
    "ok \<longrightarrow> need + wbuf_len (fst st2) \<le> wbuf_size (fst st2) \<and> snd st2 = snd st"
proof -
  let ?st1 = "((fst st)\<lparr>out_lock := True\<rparr>, snd st)"
  have l: "lock_out st = Returns ?st1" using assms(1) by (simp add: lock_out_def out_inv_def)
  have i1: "out_inv (fst (unlock_out ?st1))" using assms(1) by (auto simp: out_inv_def unlock_out_def)
  have q1: "queued (fst ?st1) = queued (fst st)" "snd ?st1 = snd st" "s_conn (fst ?st1) = s_conn (fst st)"
      "wpending (fst ?st1) = wpending (fst st)" "wfiles (fst ?st1) = wfiles (fst st)" by (simp_all add: queued_def)
  from make_room_ok[OF i1 assms(2), where fn = fn and alloc = alloc and junk = junk, unfolded q1] show thesis
    using that[OF l] by blast
qed

text \<open>A record and its bytes behind what the buffer already has.\<close>

lemma queue_put:
  assumes "out_inv (fst (unlock_out st))" "info_ok m" "in_wbuf m = int (length d)" "wbuf (fst st) = Some mem"
    "wlen (wpending (fst st)) + length d \<le> length mem" "length r = length mem - (wlen (wpending (fst st)) + length d)"
    "wbuf s = Some (take (wlen (wpending (fst st))) mem @ d @ r)" "wbuf_len s = int (wlen (wpending (fst st)) + length d)"
    "wbuf_size s = wbuf_size (fst st)" "wpending s = wpending (fst st) @ [m]" "\<not> out_lock s"
  shows "out_inv s" and "queued s = queued (fst st) @ [d]"
proof -
  let ?l = "wlen (wpending (fst st))"
  have i: "list_all info_ok (wpending (fst st))" "int (length mem) = wbuf_size (fst st)"
    using assms(1,4) by (auto simp: out_inv_def unlock_out_def)
  have k: "nat (in_wbuf m) = length d" using assms(3) by simp
  show "out_inv s" using assms i k by (simp add: out_inv_def)
  have "pieces (take ?l mem @ d @ r) (wpending (fst st) @ [m]) = pieces mem (wpending (fst st)) @ pieces (d @ r) [m]"
    by (rule pieces_append) (use assms(5) in simp)
  then show "queued s = queued (fst st) @ [d]" using assms(4,7,10) k by (simp add: queued_def)
qed

lemma AddMsgBuf_ok:
  assumes "out_inv (fst st)" "c_str h \<noteq> []"
  shows "\<exists>ok st'. AddMsgBuf alloc junk (Some h) (int (length h)) b (int (length b)) w st = Returns (ok, st') \<and> (alloc \<longrightarrow> ok) \<and>
    out_inv (fst st') \<and> s_conn (fst st') = s_conn (fst st) \<and> wfiles (fst st') = wfiles (fst st) \<and>
    (if ok then queued (fst st') = queued (fst st) @ [h @ b] \<and> snd st' = snd st \<and>
                wpending (fst st') = wpending (fst st) @ [new_info SESSION_USE_MEM (msg_id w) (int (length h)) (int (length b))]
                         else queued (fst st') = queued (fst st) \<and> s_event st')"
proof -
  let ?h = "length h" and ?b = "length b"
  have "0 \<le> int ?h + int ?b" by simp
  from room_for[OF assms(1) this, of "''TCPSession::AddMsgBuf(): ''" alloc junk]
  obtain ok st1 st2 where l: "lock_out st = Returns st1"
      and room: "make_room ''TCPSession::AddMsgBuf(): '' alloc junk (int ?h + int ?b) st1 = Returns (ok, st2)" "alloc \<longrightarrow> ok"
      "queued (fst st2) = queued (fst st)" "wpending (fst st2) = wpending (fst st)" "s_conn (fst st2) = s_conn (fst st)"
      "wfiles (fst st2) = wfiles (fst st)" "out_inv (fst (unlock_out st2))" "\<not> ok \<longrightarrow> s_event st2"
      "ok \<longrightarrow> int ?h + int ?b + wbuf_len (fst st2) \<le> wbuf_size (fst st2) \<and> snd st2 = snd st" .
  obtain wb where guard: "wbuf (fst st) = Some wb" "c_nonempty (Some h)"
    using assms by (auto simp: out_inv_def c_nonempty_def)
  show ?thesis
  proof (cases ok)
    case False
    have "AddMsgBuf alloc junk (Some h) (int ?h) b (int ?b) w st = Returns (False, unlock_out st2)"
      using guard l room(1) False by (simp add: AddMsgBuf_def)
    then show ?thesis using False room by (auto simp: queued_def unlock_out_def s_event_def)
  next
    case True
    obtain mem where mem: "wbuf (fst st2) = Some mem" "int (length mem) = wbuf_size (fst st2)"
        "wbuf_len (fst st2) = int (wlen (wpending (fst st2)))"
      using room(7) by (auto simp: out_inv_def unlock_out_def)
    let ?l = "wlen (wpending (fst st2))" and ?m = "new_info SESSION_USE_MEM (msg_id w) (int ?h) (int ?b)"
    let ?s = "(fst st2)\<lparr>wpending := wpending (fst st2) @ [?m]\<rparr>"
    have fits: "?l + ?h + ?b \<le> length mem" using room(9) True mem by simp
    let ?mem1 = "take ?l mem @ h @ drop (?l + ?h) mem"
    let ?s1 = "?s\<lparr>wbuf := Some ?mem1, wbuf_len := int (?l + ?h)\<rparr>"
    have a1: "append_wbuf h (int ?h) ?s = Returns ?s1"
      using append_wbuf_ok[of ?s mem ?l ?h h] mem fits by simp
    let ?r = "drop (?l + ?h + ?b) ?mem1"
    let ?mem2 = "take ?l mem @ (h @ b) @ ?r"
    have a2: "append_wbuf b (int ?b) ?s1 = Returns (?s1\<lparr>wbuf := Some ?mem2, wbuf_len := int (?l + length (h @ b))\<rparr>)"
      using append_wbuf_ok[of ?s1 ?mem1 "?l + ?h" ?b b] fits by (simp add: min_absorb1 ac_simps)
    let ?t = "unlock_out (archive_hdr w (?s1\<lparr>wbuf := Some ?mem2, wbuf_len := int (?l + length (h @ b))\<rparr>), snd st2)"
    have r: "AddMsgBuf alloc junk (Some h) (int ?h) b (int ?b) w st = Returns (True, ?t)"
      using guard l room(1) True a1 a2 by (simp add: AddMsgBuf_def)
    have f: "info_ok ?m" "in_wbuf ?m = int (length (h @ b))" by (simp_all add: in_wbuf_def new_info_def info_ok_def)
    have p: "?l + length (h @ b) \<le> length mem" "length ?r = length mem - (?l + length (h @ b))"
      using fits by simp_all
    note q = queue_put[OF room(7) f mem(1) p, of "fst ?t"]
    have "out_inv (fst ?t)" "queued (fst ?t) = queued (fst st2) @ [h @ b]"
      by (rule q; simp add: unlock_out_def)+
    with r True room(3-6,9) show ?thesis by (auto simp: unlock_out_def)
  qed
qed

section \<open>Popping\<close>

lemma drop_wbuf_ok:
  assumes "wbuf (fst st) = Some mem" "wbuf_len (fst st) = int (n + k)" "n + k \<le> length mem"
  shows "drop_wbuf (int n) st = Returns ((fst st)\<lparr>wbuf := Some (take k (drop n mem) @ drop k mem), wbuf_len := int k\<rparr>, snd st)"
proof -
  have g: "mem_get mem (int n) (int k) = Some (take k (drop n mem))"
    using assms(3) by (simp add: mem_get_def)
  have p: "mem_put mem 0 (take k (drop n mem)) = Some (take k (drop n mem) @ drop k mem)"
    using assms(3) by (simp add: mem_put_def min_absorb2)
  show ?thesis using assms by (simp add: drop_wbuf_def mem_move_def g p)
qed

text \<open>The bytes of the first record leave the buffer, whatever its kind.\<close>

lemma drop_front:
  assumes "out_inv (fst st)" "wpending (fst st) = m # ms"
  obtains mem0 mem where "lock_out st = Returns ((fst st)\<lparr>out_lock := True\<rparr>, snd st)" "wbuf (fst st) = Some mem0"
    "drop_wbuf (in_wbuf m) ((fst st)\<lparr>out_lock := True\<rparr>, snd st)
      = Returns ((fst st)\<lparr>out_lock := True, wbuf := Some mem, wbuf_len := int (wlen ms)\<rparr>, snd st)"
    "pieces mem ms = tl (queued (fst st))" "int (length mem) = wbuf_size (fst st)" "wlen ms \<le> length mem" "list_all info_ok (m # ms)"
proof -
  obtain mem where mem: "wbuf (fst st) = Some mem" "int (length mem) = wbuf_size (fst st)" "list_all info_ok (m # ms)"
      "wbuf_len (fst st) = int (nat (in_wbuf m) + wlen ms)" "wbuf_len (fst st) \<le> wbuf_size (fst st)" "\<not> out_lock (fst st)"
    using assms by (auto simp: out_inv_def)
  define n where "n = nat (in_wbuf m)"
  have m: "in_wbuf m = int n" using mem(3) by (auto simp: n_def info_ok_def in_wbuf_def)
  have fits: "n + wlen ms \<le> length mem" unfolding n_def using mem(2,4,5) by linarith
  let ?mem = "take (wlen ms) (drop n mem) @ drop (wlen ms) mem"
  let ?st1 = "((fst st)\<lparr>out_lock := True\<rparr>, snd st)"
  have d: "drop_wbuf (int n) ?st1 = Returns ((fst ?st1)\<lparr>wbuf := Some ?mem, wbuf_len := int (wlen ms)\<rparr>, snd st)"
    using drop_wbuf_ok[of ?st1 mem n "wlen ms"] mem fits by (simp add: n_def)
  have "pieces ?mem ms = pieces (drop n mem) ms"
    using pieces_append[of ms "drop n mem" "drop (wlen ms) mem" "[]"] fits by simp
  then have "pieces ?mem ms = tl (queued (fst st))" using mem(1) assms(2) by (simp add: queued_def n_def)
  then show thesis using that[of mem ?mem] d mem fits m by (simp add: lock_out_def)
qed

lemma Pop_ok:
  assumes "out_inv (fst st)" "wpending (fst st) \<noteq> []" "mi_storage (front (fst st)) = SESSION_USE_MEM"
  shows "\<exists>st'. PopOutgoingMsgQueue st = Returns st' \<and> out_inv (fst st') \<and> queued (fst st') = tl (queued (fst st))
    \<and> wpending (fst st') = tl (wpending (fst st)) \<and> wfiles (fst st') = wfiles (fst st) \<and> snd st' = snd st"
proof -
  obtain m ms where ms: "wpending (fst st) = m # ms" using assms(2) by (cases "wpending (fst st)") auto
  have m: "mi_hdr_len m + mi_body_len m = in_wbuf m" "mi_storage m = SESSION_USE_MEM"
    using assms(3) ms by (simp_all add: in_wbuf_def front_def)
  from drop_front[OF assms(1) ms] obtain mem0 mem where d: "lock_out st = Returns ((fst st)\<lparr>out_lock := True\<rparr>, snd st)"
    "wbuf (fst st) = Some mem0" "drop_wbuf (in_wbuf m) ((fst st)\<lparr>out_lock := True\<rparr>, snd st)
      = Returns ((fst st)\<lparr>out_lock := True, wbuf := Some mem, wbuf_len := int (wlen ms)\<rparr>, snd st)"
    "pieces mem ms = tl (queued (fst st))" "int (length mem) = wbuf_size (fst st)" "wlen ms \<le> length mem" "list_all info_ok (m # ms)" .
  let ?t = "((fst st)\<lparr>wbuf := Some mem, wbuf_len := int (wlen ms), wpending := ms, out_lock := False\<rparr>, snd st)"
  have "PopOutgoingMsgQueue st = Returns ?t"
    using ms d(1-3) m by (simp add: PopOutgoingMsgQueue_def front_def unlock_out_def Let_def)
  moreover have "queued (fst ?t) = tl (queued (fst st))" using d(4) by (simp add: queued_def)
  moreover have "out_inv (fst ?t)" using d(5-7) by (simp add: out_inv_def)
  ultimately show ?thesis using ms by auto
qed

text \<open>The session is such a queue, for a caller whose allocations succeed.\<close>

interpretation session_queue: msg_queue "\<lambda>st. out_inv (fst st) \<and> all_mem (fst st)" "\<lambda>st. queued (fst st)" frame_ok frame_bytes
  "add_frame True junk" pop_frame for junk
proof unfold_locales
  fix st :: sess_st and m
  assume a: "out_inv (fst st) \<and> all_mem (fst st)" "frame_ok m"
  obtain h b w where m: "m = (h, b, w)" by (cases m)
  have i: "out_inv (fst st)" "list_all (\<lambda>m. mi_storage m = SESSION_USE_MEM) (wpending (fst st))" using a(1) by (simp_all add: all_mem_def)
  from AddMsgBuf_ok[OF i(1), of h True junk b w] a(2) obtain st' where
    st': "AddMsgBuf True junk (Some h) (int (length h)) b (int (length b)) w st = Returns (True, st')" "out_inv (fst st')"
      "queued (fst st') = queued (fst st) @ [h @ b]"
      "wpending (fst st') = wpending (fst st) @ [new_info SESSION_USE_MEM (msg_id w) (int (length h)) (int (length b))]"
    by (auto simp: m frame_ok_def)
  have "all_mem (fst st')" using i(2) st'(4) by (simp add: all_mem_def new_info_def)
  with st' show "\<exists>st'. add_frame True junk m st = Some st' \<and> (out_inv (fst st') \<and> all_mem (fst st'))
      \<and> queued (fst st') = queued (fst st) @ [frame_bytes m]"
    by (intro exI[of _ st']) (simp add: m add_frame_def frame_bytes_def)
next
  fix st :: sess_st assume a: "out_inv (fst st) \<and> all_mem (fst st)" "queued (fst st) \<noteq> []"
  then obtain m ms where w: "wpending (fst st) = m # ms" by (cases "wpending (fst st)") (auto simp: queued_def)
  then have f: "mi_storage (front (fst st)) = SESSION_USE_MEM" "wpending (fst st) \<noteq> []" using a(1) by (simp_all add: all_mem_def front_def)
  obtain st' where st': "PopOutgoingMsgQueue st = Returns st'" "out_inv (fst st')" "queued (fst st') = tl (queued (fst st))"
      "wpending (fst st') = ms"
    using Pop_ok[OF conjunct1[OF a(1)] f(2,1)] w by auto
  then show "\<exists>st'. pop_frame st = Some st' \<and> (out_inv (fst st') \<and> all_mem (fst st')) \<and> queued (fst st') = tl (queued (fst st))"
    using a(1) w by (intro exI[of _ st']) (simp add: pop_frame_def all_mem_def)
qed

text \<open>
  The outgoing messages of a session are a first-in first-out queue: whatever is queued, adding
  messages with AddMsgBuf (non-empty headers, allocations that succeed) and then popping any number
  leaves exactly the rest of the list, byte for byte, however the buffer was reallocated and moved.
\<close>

theorem outgoing_is_fifo:
  assumes "out_inv (fst st)" "all_mem (fst st)" "list_all frame_ok ms" "n \<le> length (queued (fst st)) + length ms"
  shows "\<exists>st1 st2. run_all (add_frame True junk) ms st = Some st1 \<and> run_all (\<lambda>_. pop_frame) (replicate n ()) st1 = Some st2
    \<and> out_inv (fst st2) \<and> queued (fst st2) = drop n (queued (fst st) @ map frame_bytes ms)"
  using session_queue.fifo[OF conjI[OF assms(1,2)] assms(3), where us = "replicate n ()" and junk = junk] assms(4)
  by (simp del: drop_append add: conj_assoc) blast

definition example_session :: sess_st where
  "example_session = sess_Init True True (\<lambda>_. CHR ''?'') (TCPSession TYPE_HTTP 0
     \<lparr>gw = example_world, gssl = \<lparr>ssl_freed = [], x509_freed = [], sent_shutdown = []\<rparr>, g_msg_id = 0, g_session_id = 65\<rparr>)"

lemma example_session_out: "out_inv (fst example_session)" "queued (fst example_session) = []" "all_mem (fst example_session)"
  by (simp_all add: all_mem_def example_session_def sess_Init_def TCPSession_def SSLConn_def File_def TCPConn_def IPComm_def
      new_descriptor_def out_inv_def queued_def kDefaultBufSize_def Let_def)

theorem outgoing_is_fifo_witness:
  "\<exists>st1 st2. run_all (add_frame True (\<lambda>_. NUL)) [(''one'', ''1'', MsgHdr TYPE_HTTP), (''two'', ''22'', MsgHdr TYPE_HTTP)] example_session
      = Some st1 \<and> run_all (\<lambda>_. pop_frame) (replicate 1 ()) st1 = Some st2 \<and> out_inv (fst st2) \<and> queued (fst st2) = [''two22'']"
  using outgoing_is_fifo[OF example_session_out(1,3), of "[(''one'', ''1'', MsgHdr TYPE_HTTP), (''two'', ''22'', MsgHdr TYPE_HTTP)]" 1
      "\<lambda>_. NUL"]
  by (simp add: example_session_out(2) frame_ok_def frame_bytes_def)

section \<open>Sending\<close>

text \<open>An error event stays set while the files of the queue are destroyed.\<close>

lemma destroy_files_event:
  "destroy_files fs w = Some w' \<Longrightarrow> event_flag (w_err w) \<Longrightarrow> event_flag (w_err w')"
  by (induction fs arbitrary: w) (auto split: option.splits dest: file_destroy_event)

lemma reset_out_event: "reset_out st = Returns st' \<Longrightarrow> s_event st \<Longrightarrow> s_event st'"
  by (cases "destroy_files (wfiles (fst st)) (gw (snd st))")
     (auto simp: reset_out_def ResetWbuf_def s_fail_def s_event_def w_fail_def unlock_out_def destroy_files_event split: if_splits)

lemma s_event_append [simp]: "s_event (s_append m st)"
  by (simp add: s_event_def s_append_def error_AppendMsg_def Let_def)

lemma send_wbuf_good:
  assumes "send_wbuf logged ntop (int off) (int sz - int off) script evs st = Returns (r, wire, script', evs', st')"
    "wbuf (fst st) = Some mem" "off \<le> sz" "\<not> s_event st'" "0 \<le> r"
  shows "take off mem @ wire = take (off + nat r) mem \<and> off + nat r \<le> sz \<and> st' = put_conn (conn_st st') st
    \<and> length wire = nat r"
proof -
  obtain c where c: "ssl_Write logged ntop (drop off mem) (sz - off) script evs (conn_st st) = Returns (r, wire, script', evs', c)"
      "st' = put_conn c st"
    using assms(1-3) by (cases "ssl_Write logged ntop (drop off mem) (sz - off) script evs (conn_st st)")
      (auto simp: send_wbuf_def nat_diff_distrib' split: if_splits)
  have e: "\<not> ssl_event c" using assms(4) c(2) by (simp add: s_event_def ssl_event_def put_conn_def)
  have p: "st' = put_conn (conn_st st') st" using c(2) by (simp add: put_conn_def)
  have "take off mem @ wire = take (off + nat r) mem \<and> off + nat r \<le> sz"
    using ssl_sender.send_continues[of logged ntop "(script, evs, conn_st st)" off mem sz r wire "(script', evs', c)"]
      c(1) e assms(3,5) by simp
  moreover have "length wire = nat r"
    using ssl_sender.send_good(3)[of logged ntop "(script, evs, conn_st st)" "drop off mem" "sz - off" r wire "(script', evs', c)"]
      c(1) e assms(5) by simp
  ultimately show ?thesis using p by blast
qed

lemma sess_Write_good:
  assumes "sess_Write logged ntop ptr show_ptr opening seek script evs rds st = Returns ((r, wire, script', evs', st'), rds')"
    "\<not> s_event st'" "0 \<le> r" "out_inv (fst st)" "wpending (fst st) = m # ms" "mi_buf_offset m = int off" "off \<le> nat (in_wbuf m)"
    "mi_storage m = SESSION_USE_MEM"
  shows "out_inv (fst st') \<and> queued (fst st') = queued (fst st)
    \<and> wpending (fst st') = m\<lparr>mi_buf_offset := int (off + nat r)\<rparr> # ms \<and> off + nat r \<le> nat (in_wbuf m)
    \<and> take off (hd (queued (fst st))) @ wire = take (off + nat r) (hd (queued (fst st)))"
proof -
  obtain mem where mem: "wbuf (fst st) = Some mem" "\<not> out_lock (fst st)" "info_ok m"
    using assms(4,5) by (auto simp: out_inv_def)
  define sz where "sz = nat (in_wbuf m)"
  have m: "mi_storage m = SESSION_USE_MEM" "mi_hdr_len m + mi_body_len m = int sz"
    using mem(3) assms(8) by (auto simp: sz_def info_ok_def in_wbuf_def)
  let ?st1 = "((fst st)\<lparr>out_lock := True\<rparr>, snd st)"
  have conn: "connected (s_tcp (s_conn (fst st)))"
    using assms(1,2,5) mem(1) by (auto simp: sess_Write_def s_fail_def s_event_def w_fail_def Let_def split: if_splits)
  have f: "front (fst st) = m" "front ((fst st)\<lparr>out_lock := True\<rparr>) = m" using assms(5) by (simp_all add: front_def)
  have w: "write_mem logged ntop ptr script evs ?st1 = Returns (r, wire, script', evs', st')"
    using assms(1,5) conn mem(1,2) m(1) f by (cases "write_mem logged ntop ptr script evs ?st1")
      (auto simp: sess_Write_def Let_def lock_out_def)
  obtain r1 wire1 s1 e1 st1 where snd1: "send_wbuf logged ntop (int off) (int sz - int off) script evs ?st1
      = Returns (r1, wire1, s1, e1, st1)"
    using w m(2) f assms(6) by (cases "send_wbuf logged ntop (int off) (int sz - int off) script evs ?st1")
      (auto simp: write_mem_def Let_def)
  have good: "\<not> s_event st1"
  proof
    assume ev: "s_event st1"
    obtain t where "reset_out (s_append t st1) = Returns st'"
    proof -
      let ?t = "wbuf_text ptr (fst st1) @ '', msg_len '' @ show_int (int sz) @ '', offset '' @ show_int (int off) @ '': ''"
      from w snd1 ev have "reset_out (s_append ?t st1) = Returns st'"
        by (cases "reset_out (s_append ?t st1)") (simp_all add: write_mem_def Let_def m(2) f assms(6))
      then show thesis by (rule that)
    qed
    then have "s_event st'" using reset_out_event s_event_append by blast
    with assms(2) show False by simp
  qed
  have eq: "r1 = r" "wire1 = wire" "st' = unlock_out (set_front (m\<lparr>mi_buf_offset := int off + r\<rparr>) (fst st1), snd st1)"
    using w snd1 good by (auto simp: write_mem_def Let_def m(2) f assms(6))
  have os: "off \<le> sz" using assms(7) by (simp add: sz_def)
  have g: "take off mem @ wire = take (off + nat r) mem" "off + nat r \<le> sz" "st1 = put_conn (conn_st st1) ?st1"
    using send_wbuf_good[OF snd1 _ os good, of mem] mem(1) assms(3) eq(1,2) by auto
  have "fst st1 = (fst st)\<lparr>out_lock := True, s_conn := s_conn (fst st1)\<rparr>" using g(3) by (metis fst_conv put_conn_def)
  then obtain c where fst1: "fst st1 = (fst st)\<lparr>out_lock := True, s_conn := c\<rparr>" by blast
  have st': "wbuf (fst st') = wbuf (fst st)" "wbuf_len (fst st') = wbuf_len (fst st)" "wbuf_size (fst st') = wbuf_size (fst st)"
      "\<not> out_lock (fst st')" "wpending (fst st') = m\<lparr>mi_buf_offset := int (off + nat r)\<rparr> # ms"
    using assms(3,5) by (simp_all add: eq(3) unlock_out_def set_front_def fst1)
  have i: "in_wbuf (m\<lparr>mi_buf_offset := x\<rparr>) = in_wbuf m" "info_ok (m\<lparr>mi_buf_offset := x\<rparr>) = info_ok m" for x
    by (simp_all add: in_wbuf_def info_ok_def)
  have h: "hd (queued (fst st)) = take sz mem" using mem(1) assms(5) by (simp add: queued_def sz_def)
  have "out_inv (fst st')" using assms(4,5) by (auto simp: out_inv_def st' i)
  moreover have "queued (fst st') = queued (fst st)" using assms(5) by (simp add: queued_def st' i)
  moreover have "take off (take sz mem) @ wire = take (off + nat r) (take sz mem)"
    using g(1,2) os by (simp add: min_absorb1)
  ultimately show ?thesis using st'(5) g(2) h by (simp add: sz_def)
qed

text \<open>
  A run of Writes, each with whatever scripts: every call returns a count that is not negative and
  leaves no error event. The string is what went out.
\<close>

inductive sends :: "sess_st \<Rightarrow> string \<Rightarrow> sess_st \<Rightarrow> bool" where
  sends_none: "sends st [] st"
| sends_call: "sends st w st1 \<Longrightarrow>
    sess_Write logged ntop ptr show_ptr opening seek script evs rds st1 = Returns ((r, wire, script', evs', st2), rds')
    \<Longrightarrow> \<not> s_event st2 \<Longrightarrow> 0 \<le> r \<Longrightarrow> sends st (w @ wire) st2"

lemma sends_inv:
  assumes "sends st w st'" "out_inv (fst st)" "wpending (fst st) = m # ms" "mi_storage m = SESSION_USE_MEM" "mi_buf_offset m = 0"
  shows "\<exists>off. out_inv (fst st') \<and> queued (fst st') = queued (fst st) \<and> wpending (fst st') = m\<lparr>mi_buf_offset := int off\<rparr> # ms
    \<and> off \<le> nat (in_wbuf m) \<and> w = take off (hd (queued (fst st)))"
  using assms
proof (induction)
  case (sends_none st)
  then have "m\<lparr>mi_buf_offset := 0\<rparr> = m" by (metis msg_info.surjective msg_info.update_convs(7))
  with sends_none show ?case by (intro exI[of _ 0]) simp
next
  case (sends_call st w st1 logged ntop ptr show_ptr opn seek script evs rds r wire script' evs' st2 rds')
  then obtain off where o: "out_inv (fst st1)" "queued (fst st1) = queued (fst st)"
      "wpending (fst st1) = m\<lparr>mi_buf_offset := int off\<rparr> # ms" "off \<le> nat (in_wbuf m)" "w = take off (hd (queued (fst st)))"
    by blast
  have i: "in_wbuf (m\<lparr>mi_buf_offset := x\<rparr>) = in_wbuf m" for x by (simp add: in_wbuf_def)
  from sess_Write_good[OF sends_call.hyps(2,3,4) o(1,3)] o(4) sends_call.prems(3)
  have "out_inv (fst st2) \<and> queued (fst st2) = queued (fst st1) \<and> wpending (fst st2) = m\<lparr>mi_buf_offset := int (off + nat r)\<rparr> # ms
      \<and> off + nat r \<le> nat (in_wbuf m) \<and> take off (hd (queued (fst st1))) @ wire = take (off + nat r) (hd (queued (fst st1)))"
    by (simp add: i)
  then show ?case using o(2,5) by (intro exI[of _ "off + nat r"]) simp
qed

lemma sends_complete:
  assumes "sends st w st'" "out_inv (fst st)" "wpending (fst st) = m # ms" "mi_storage m = SESSION_USE_MEM" "mi_buf_offset m = 0" "mi_file_offset m = 0"
    "IsOutgoingMsgSent (fst st')"
  shows "w = hd (queued (fst st))"
proof -
  obtain off where o: "wpending (fst st') = m\<lparr>mi_buf_offset := int off\<rparr> # ms" "off \<le> nat (in_wbuf m)"
      "w = take off (hd (queued (fst st)))"
    using sends_inv[OF assms(1-5)] by blast
  have m: "mi_hdr_len m + mi_body_len m = int (nat (in_wbuf m))"
    using assms(2-4) by (auto simp: out_inv_def info_ok_def in_wbuf_def)
  have "mi_hdr_len m + mi_body_len m \<le> int off"
    using assms(7) o(1) assms(6) by (auto simp: IsOutgoingMsgSent_def front_def Let_def)
  then have "off = nat (in_wbuf m)" using o(2) m by linarith
  then show ?thesis using o(3) assms(3) by (simp add: queued_def)
qed

text \<open>
  C7. Successive Writes send the first queued message in order: over any run of Writes that set no error
  and return no negative count, starting with a front message in memory of which nothing has been sent,
  whatever part the transport (TCP or SSL) takes at each call, the bytes that went out are a prefix of
  exactly the message's header and body, the queue is unchanged, and once IsOutgoingMsgSent holds the
  whole message has gone out, byte for byte.
\<close>

theorem writes_send_front_message:
  assumes "sends st w st'" "out_inv (fst st)" "wpending (fst st) = m # ms" "mi_storage m = SESSION_USE_MEM" "mi_buf_offset m = 0" "mi_file_offset m = 0"
  shows "queued (fst st') = queued (fst st) \<and> out_inv (fst st') \<and> (\<exists>off. w = take off (hd (queued (fst st))))
    \<and> (IsOutgoingMsgSent (fst st') \<longrightarrow> w = hd (queued (fst st)))"
proof -
  have "\<exists>off. w = take off (hd (queued (fst st)))" "queued (fst st') = queued (fst st)" "out_inv (fst st')"
    using sends_inv[OF assms(1-5)] by blast+
  then show ?thesis using sends_complete[OF assms] by blast
qed

definition sending_session :: sess_st where
  "sending_session = (let s = fst example_session; c = s_conn s; t = s_tcp c in
     (s\<lparr>wbuf := Some ''hdrbody..'', wbuf_size := 9, wbuf_len := 7, wpending := [new_info SESSION_USE_MEM 1 3 4],
        s_conn := c\<lparr>s_tcp := t\<lparr>connected := True, tc_ip := (tc_ip t)\<lparr>blocking_flag := False\<rparr>\<rparr>\<rparr>\<rparr>, snd example_session))"

lemma sending_session_facts:
  "out_inv (fst sending_session)" "wpending (fst sending_session) = [new_info SESSION_USE_MEM 1 3 4]"
  "queued (fst sending_session) = [''hdrbody'']" "ssl (s_conn (fst sending_session)) = None"
  "connected (s_tcp (s_conn (fst sending_session)))" "\<not> blocking_flag (s_ip (s_conn (fst sending_session)))"
  "fd_of (s_ip (s_conn (fst sending_session))) (gw (snd sending_session)) = Some DESCRIPTOR_NULL"
  "\<not> s_event sending_session" "wbuf (fst sending_session) = Some ''hdrbody..''"
  by (simp_all add: sending_session_def example_session_def sess_Init_def TCPSession_def SSLConn_def File_def TCPConn_def
      IPComm_def new_descriptor_def out_inv_def queued_def kDefaultBufSize_def Let_def new_info_def info_ok_def in_wbuf_def
      fd_of_def s_event_def example_world_def start_world_def)

text \<open>One Write of which the kernel takes n bytes before it says that the socket is not ready.\<close>

lemma write_step_example:
  assumes "\<not> out_lock (fst st)" "wpending (fst st) = [m]" "mi_storage m = SESSION_USE_MEM" "mi_hdr_len m + mi_body_len m = 7"
    "ssl (s_conn (fst st)) = None" "connected (s_tcp (s_conn (fst st)))" "\<not> blocking_flag (s_ip (s_conn (fst st)))"
    "fd_of (s_ip (s_conn (fst st))) (gw (snd st)) = Some fd" "\<not> s_event st" "wbuf (fst st) = Some ''hdrbody..''"
    "mi_buf_offset m = int off" "off + n < 7"
  shows "sess_Write logged ntop ptr show_ptr opening None script [Takes n, WrErr EAGAIN t] rds st
    = Returns ((int n, take n (drop off ''hdrbody..''), script, [], ((fst st)\<lparr>wpending := [m\<lparr>mi_buf_offset := int (off + n)\<rparr>]\<rparr>, snd st)), rds)"
proof -
  have sv: "(fst st)\<lparr>out_lock := False\<rparr> = fst st" using assms(1) by simp
  have k: "nat (7 - int off) = 7 - off" "min n (7 - off) = n" "min (9 - off) (7 - off) = 7 - off" using assms(12) by auto
  show ?thesis using assms sv k
    by (simp add: sess_Write_def lock_out_def front_def write_mem_def send_wbuf_def ssl_Write_def tcp_Write_def Let_def
        put_conn_def unlock_out_def set_front_def s_event_def)
qed

lemma write_last_example:
  assumes "\<not> out_lock (fst st)" "wpending (fst st) = [m]" "mi_storage m = SESSION_USE_MEM" "mi_hdr_len m + mi_body_len m = 7"
    "ssl (s_conn (fst st)) = None" "connected (s_tcp (s_conn (fst st)))"
    "fd_of (s_ip (s_conn (fst st))) (gw (snd st)) = Some fd" "\<not> s_event st" "wbuf (fst st) = Some ''hdrbody..''"
    "mi_buf_offset m = int off" "off < 7"
  shows "sess_Write logged ntop ptr show_ptr opening None script [Takes 9] rds st
    = Returns ((7 - int off, take (7 - off) (drop off ''hdrbody..''), script, [],
        ((fst st)\<lparr>wpending := [m\<lparr>mi_buf_offset := 7\<rparr>]\<rparr>, snd st)), rds)"
proof -
  have sv: "(fst st)\<lparr>out_lock := False\<rparr> = fst st" using assms(1) by simp
  have k: "nat (7 - int off) = 7 - off" "min 9 (7 - off) = 7 - off" "min (9 - off) (7 - off) = 7 - off"
    "int (7 - off) = 7 - int off" using assms(11) by auto
  show ?thesis using assms sv k
    by (simp add: sess_Write_def lock_out_def front_def write_mem_def send_wbuf_def ssl_Write_def tcp_Write_def Let_def
        put_conn_def unlock_out_def set_front_def s_event_def)
qed

theorem writes_send_front_message_witness:
  "\<exists>st'. sends sending_session ''hdrbody'' st' \<and> IsOutgoingMsgSent (fst st') \<and> queued (fst st') = [''hdrbody'']
    \<and> ''hdrbody'' = hd (queued (fst sending_session))"
proof -
  let ?m = "new_info SESSION_USE_MEM 1 3 4"
  note f = sending_session_facts
  let ?st1 = "((fst sending_session)\<lparr>wpending := [?m\<lparr>mi_buf_offset := int (0 + 4)\<rparr>]\<rparr>, snd sending_session)"
  have l: "\<not> out_lock (fst sending_session)" using f(1) by (simp add: out_inv_def)
  have m: "mi_storage ?m = SESSION_USE_MEM" "mi_hdr_len ?m + mi_body_len ?m = 7" "mi_buf_offset ?m = int 0" "mi_file_offset ?m = 0"
    by (simp_all add: new_info_def)
  have s1: "sess_Write True Map.empty [] (\<lambda>_. []) (Inr 3) None [] [Takes 4, WrErr EAGAIN []] [] sending_session
      = Returns ((int 4, ''hdrb'', [], [], ?st1), [])"
    using write_step_example[OF l f(2) m(1,2) f(4-9) m(3), of 4 True Map.empty "[]" "\<lambda>_. []" "Inr 3" "[]" "[]" "[]"] by simp
  let ?st2 = "((fst ?st1)\<lparr>wpending := [?m\<lparr>mi_buf_offset := 7\<rparr>]\<rparr>, snd ?st1)"
  have s2: "sess_Write True Map.empty [] (\<lambda>_. []) (Inr 3) None [] [Takes 9] [] ?st1 = Returns ((3, ''ody'', [], [], ?st2), [])"
    using write_last_example[of ?st1 "?m\<lparr>mi_buf_offset := int (0 + 4)\<rparr>" DESCRIPTOR_NULL 4 True Map.empty "[]" "\<lambda>_. []" "Inr 3" "[]" "[]"]
      l m f(4-9) by (simp add: s_event_def)
  have e: "\<not> s_event ?st1" "\<not> s_event ?st2" using f(8) by (simp_all add: s_event_def)
  have "sends sending_session (([] @ ''hdrb'') @ ''ody'') ?st2"
    by (rule sends_call[OF sends_call[OF sends_none s1 e(1)] s2 e(2)]) simp_all
  then have r: "sends sending_session ''hdrbody'' ?st2" by simp
  have sent_all: "IsOutgoingMsgSent (fst ?st2)" using m by (simp add: IsOutgoingMsgSent_def front_def new_info_def)
  have "mi_buf_offset ?m = 0" using m(3) by simp
  from writes_send_front_message[OF r f(1,2) m(1) this m(4)] r sent_all f(3) show ?thesis
    by (intro exI[of _ ?st2]) simp
qed

end
