(* ===== verification/Session_Outgoing.thy ===== *)
theory Session_Outgoing
  imports Session_Queue File_Refs
begin

text \<open>
  The whole outgoing queue of a session: messages in memory and messages whose body is a file, in the
  write buffer, the message records and the vector of files together. AddMsgFile takes a reference to
  the file's descriptor, PopOutgoingMsgQueue moves the vector down by File's assignment, and the queue
  must stay in step with the store of descriptors. The session implements the same first-in first-out
  interface with both kinds of messages, and neither loses nor closes twice what the files hold.
\<close>

section \<open>The vector of files\<close>

lemma shift_files_law:
  "file_inv (owners fref (f # fs) + R) w \<Longrightarrow> list_all named (f # fs)
    \<Longrightarrow> \<exists>w'. shift_files (f # fs) w = Some (fs, w') \<and> file_inv (owners fref fs + R) w' \<and> all_res w' = all_res w"
proof (induction fs arbitrary: f R w)
  case Nil
  then have n: "named f" "fref f \<in># owners fref [f] + R" by simp_all
  from fs.rel_law[OF Nil.prems(1) n(2,1)] show ?case by (auto simp: file_destroy_def)
next
  case (Cons g fs)
  let ?f = "f\<lparr>fname := fname g, fdir := fdir g\<rparr>"
  have f: "named ?f" "fref ?f = fref f" using Cons.prems(2) by (simp_all add: named_def)
  have "fref ?f \<in># owners fref (f # g # fs) + R" "fref g \<in># owners fref (f # g # fs) + R - {#fref ?f#}" by simp_all
  from fs.swap_ok[OF Cons.prems(1) this(1) f(1) this(2)]
  obtain w1 w2 where w: "file_release ?f w = Some w1" "retain (fref g) w1 = Some w2" "all_res w2 = all_res w"
      "file_inv (add_mset (fref g) (owners fref (f # g # fs) + R - {#fref ?f#})) w2" by blast
  have "file_inv (owners fref (g # fs) + add_mset (fref g) R) w2" using w(4) by simp
  from Cons.IH[OF this] Cons.prems(2) obtain w3 where "shift_files (g # fs) w2 = Some (fs, w3)"
      "file_inv (owners fref fs + add_mset (fref g) R) w3" "all_res w3 = all_res w2" by auto
  with w show ?case by (auto simp: file_assign_eq)
qed

section \<open>What the queue represents\<close>

text \<open>A message is its bytes in the buffer and, when the body is a file, the file and the length it is announced with.\<close>

fun in_queue :: "string list \<Rightarrow> msg_info list \<Rightarrow> file_obj list \<Rightarrow> (string \<times> (file_obj \<times> int) option) list" where
  "in_queue (p # ps) (m # ms) fs =
     (if mi_storage m = SESSION_USE_MEM then (p, None) # in_queue ps ms fs
      else (p, Some (hd fs, mi_body_len m)) # in_queue ps ms (tl fs))"
| "in_queue _ _ _ = []"

definition outgoing :: "sess_st \<Rightarrow> (string \<times> (file_obj \<times> int) option) list" where
  "outgoing st = in_queue (queued (fst st)) (wpending (fst st)) (wfiles (fst st))"

definition on_disc :: "msg_info \<Rightarrow> bool" where
  "on_disc m \<longleftrightarrow> mi_storage m \<noteq> SESSION_USE_MEM"

text \<open>
  The invariant: one file for each message on disc, and the store counts their references beside the
  references R of everybody else; T is all that the process has been handed by the system.
\<close>

definition queue_inv :: "nat multiset \<Rightarrow> resource multiset \<Rightarrow> sess_st \<Rightarrow> bool" where
  "queue_inv R T st \<longleftrightarrow> out_inv (fst st) \<and> length (filter on_disc (wpending (fst st))) = length (wfiles (fst st))
     \<and> list_all named (wfiles (fst st)) \<and> file_inv (owners fref (wfiles (fst st)) + R) (gw (snd st)) \<and> all_res (gw (snd st)) = T"

lemma in_queue_append:
  "length ps = length ms \<Longrightarrow> length (filter on_disc ms) = length fs
    \<Longrightarrow> in_queue (ps @ qs) (ms @ ns) (fs @ gs) = in_queue ps ms fs @ in_queue qs ns gs"
proof (induction ps ms fs rule: in_queue.induct)
  case (1 p ps m ms fs)
  then show ?case by (cases fs) (auto simp: on_disc_def split: if_splits)
qed auto

lemma length_queued [simp]: "length (queued s) = length (wpending s)"
  by (simp add: queued_def)

datatype out_msg = MemMsg string string msghdr | FileMsg string file_obj int msghdr

text \<open>Adding for a caller that goes on only after a success.\<close>

definition add_msg :: "bool \<Rightarrow> (nat \<Rightarrow> char) \<Rightarrow> out_msg \<Rightarrow> sess_st \<Rightarrow> sess_st option" where
  "add_msg alloc junk m st = (case (case m of
        MemMsg h b x \<Rightarrow> AddMsgBuf alloc junk (Some h) (int (length h)) b (int (length b)) x st
      | FileMsg h f n x \<Rightarrow> AddMsgFile alloc junk (Some h) (int (length h)) f n x st) of
        Returns (ok, st') \<Rightarrow> if ok then Some st' else None
      | _ \<Rightarrow> None)"

fun msg_ok :: "nat multiset \<Rightarrow> out_msg \<Rightarrow> bool" where
  "msg_ok R (MemMsg h b x) = (c_str h \<noteq> [])"
| "msg_ok R (FileMsg h f n x) = (c_str h \<noteq> [] \<and> 0 \<le> n \<and> named f \<and> fref f \<in># R)"

fun msg_content :: "out_msg \<Rightarrow> string \<times> (file_obj \<times> int) option" where
  "msg_content (MemMsg h b x) = (h @ b, None)"
| "msg_content (FileMsg h f n x) = (h, Some (f, n))"

section \<open>Adding a file\<close>

lemma AddMsgFile_ok:
  assumes "out_inv (fst st)" "c_str h \<noteq> []" "0 \<le> n" "retain (fref f) (gw (snd st)) = Some w1"
  shows "\<exists>st'. AddMsgFile True junk (Some h) (int (length h)) f n x st = Returns (True, st') \<and> out_inv (fst st')
    \<and> queued (fst st') = queued (fst st) @ [h] \<and> wfiles (fst st') = wfiles (fst st) @ [f]
    \<and> wpending (fst st') = wpending (fst st) @ [new_info SESSION_USE_DISC (msg_id x) (int (length h)) n]
    \<and> snd st' = (snd st)\<lparr>gw := w1\<rparr> \<and> s_conn (fst st') = s_conn (fst st)"
proof -
  let ?h = "length h"
  have "0 \<le> int ?h" by simp
  from room_for[OF assms(1) this, of "''TCPSession::AddMsgFile(): ''" True junk]
  obtain ok st1 st2 where l: "lock_out st = Returns st1"
      and r: "make_room ''TCPSession::AddMsgFile(): '' True junk (int ?h) st1 = Returns (ok, st2)" "True \<longrightarrow> ok"
      "queued (fst st2) = queued (fst st)" "wpending (fst st2) = wpending (fst st)" "s_conn (fst st2) = s_conn (fst st)"
      "wfiles (fst st2) = wfiles (fst st)" "out_inv (fst (unlock_out st2))" "\<not> ok \<longrightarrow> s_event st2"
      "ok \<longrightarrow> int ?h + wbuf_len (fst st2) \<le> wbuf_size (fst st2) \<and> snd st2 = snd st" .
  then have room: "make_room ''TCPSession::AddMsgFile(): '' True junk (int ?h) st1 = Returns (True, st2)"
      "queued (fst st2) = queued (fst st)" "wpending (fst st2) = wpending (fst st)"
      "wfiles (fst st2) = wfiles (fst st)" "out_inv (fst (unlock_out st2))"
      "int ?h + wbuf_len (fst st2) \<le> wbuf_size (fst st2)" "snd st2 = snd st" "s_conn (fst st2) = s_conn (fst st)" by simp_all
  obtain wb where guard: "wbuf (fst st) = Some wb" "c_nonempty (Some h)"
    using assms(1,2) by (auto simp: out_inv_def c_nonempty_def)
  obtain mem where mem: "wbuf (fst st2) = Some mem" "int (length mem) = wbuf_size (fst st2)"
      "wbuf_len (fst st2) = int (wlen (wpending (fst st2)))"
    using room(5) by (auto simp: out_inv_def unlock_out_def)
  let ?l = "wlen (wpending (fst st2))" and ?m = "new_info SESSION_USE_DISC (msg_id x) (int ?h) n"
  let ?s = "(fst st2)\<lparr>wpending := wpending (fst st2) @ [?m]\<rparr>"
  have fits: "?l + ?h \<le> length mem" using room(6) mem by simp
  let ?s1 = "?s\<lparr>wbuf := Some (take ?l mem @ h @ drop (?l + ?h) mem), wbuf_len := int (?l + ?h)\<rparr>"
  have a: "append_wbuf h (int ?h) ?s = Returns ?s1"
    using append_wbuf_ok[of ?s mem ?l ?h h] mem fits by simp
  let ?t = "unlock_out (archive_hdr x (?s1\<lparr>wfiles := wfiles ?s1 @ [f]\<rparr>), (snd st2)\<lparr>gw := w1\<rparr>)"
  have r: "AddMsgFile True junk (Some h) (int ?h) f n x st = Returns (True, ?t)"
    using guard l room(1,7) a assms(4) by (simp add: AddMsgFile_def file_copy_def)
  have i: "info_ok ?m" "in_wbuf ?m = int ?h"
    using assms(3) by (simp_all add: in_wbuf_def new_info_def info_ok_def SESSION_USE_DISC_def SESSION_USE_MEM_def)
  note q = queue_put[OF room(5) i mem(1) fits, of "drop (?l + ?h) mem" "fst ?t"]
  have "out_inv (fst ?t)" "queued (fst ?t) = queued (fst st2) @ [h]"
    by (rule q; simp add: unlock_out_def)+
  with r room(2-4,7,8) show ?thesis by (intro exI[of _ ?t]) (simp add: unlock_out_def archive_hdr_def)
qed

lemma add_msg_ok:
  assumes "queue_inv R T st" "msg_ok R m"
  shows "\<exists>st'. add_msg True junk m st = Some st' \<and> queue_inv R T st' \<and> outgoing st' = outgoing st @ [msg_content m]"
proof -
  note i = assms(1)[unfolded queue_inv_def]
  have c: "in_queue (queued (fst st) @ [p]) (wpending (fst st) @ [x]) (wfiles (fst st) @ gs)
      = outgoing st @ in_queue [p] [x] gs" for p x gs
    using in_queue_append[of "queued (fst st)" "wpending (fst st)" "wfiles (fst st)"] i by (simp add: outgoing_def)
  show ?thesis
  proof (cases m)
    case (MemMsg h b x)
    then have h: "c_str h \<noteq> []" using assms(2) by simp
    obtain st' where st': "AddMsgBuf True junk (Some h) (int (length h)) b (int (length b)) x st = Returns (True, st')"
        "out_inv (fst st')" "wfiles (fst st') = wfiles (fst st)" "queued (fst st') = queued (fst st) @ [h @ b]" "snd st' = snd st"
        "wpending (fst st') = wpending (fst st) @ [new_info SESSION_USE_MEM (msg_id x) (int (length h)) (int (length b))]"
      using AddMsgBuf_ok[OF conjunct1[OF i] h, of True junk b x] by auto
    have "queue_inv R T st'" using i st' by (simp add: queue_inv_def new_info_def on_disc_def)
    moreover have "outgoing st' = outgoing st @ [msg_content m]"
      using c[of "h @ b" _ "[]"] st' by (simp add: MemMsg outgoing_def[of st'] new_info_def)
    ultimately show ?thesis using st'(1) by (simp add: add_msg_def MemMsg)
  next
    case (FileMsg h f n x)
    then have h: "c_str h \<noteq> []" "0 \<le> n" "named f" "fref f \<in># owners fref (wfiles (fst st)) + R" using assms(2) by simp_all
    obtain w1 where w1: "retain (fref f) (gw (snd st)) = Some w1" "all_res w1 = T"
        "file_inv (add_mset (fref f) (owners fref (wfiles (fst st)) + R)) w1"
      using fs.ret_law[of "owners fref (wfiles (fst st)) + R" "gw (snd st)", OF _ h(4)] i by auto
    obtain st' where st': "AddMsgFile True junk (Some h) (int (length h)) f n x st = Returns (True, st')" "out_inv (fst st')"
        "queued (fst st') = queued (fst st) @ [h]" "wfiles (fst st') = wfiles (fst st) @ [f]" "snd st' = (snd st)\<lparr>gw := w1\<rparr>"
        "wpending (fst st') = wpending (fst st) @ [new_info SESSION_USE_DISC (msg_id x) (int (length h)) n]"
      using AddMsgFile_ok[OF conjunct1[OF i] h(1,2) w1(1), of junk x] by auto
    have d: "mi_storage (new_info SESSION_USE_DISC y z u) \<noteq> SESSION_USE_MEM" for y z u
      by (simp add: new_info_def SESSION_USE_DISC_def SESSION_USE_MEM_def)
    have "queue_inv R T st'" using i st' w1 h(3) d by (simp add: queue_inv_def on_disc_def)
    moreover have "outgoing st' = outgoing st @ [msg_content m]"
      using c[of h _ "[f]"] st' d by (simp add: FileMsg outgoing_def[of st'] new_info_def)
    ultimately show ?thesis using st'(1) by (simp add: add_msg_def FileMsg)
  qed
qed

section \<open>Popping\<close>

lemma Pop_file_ok:
  assumes "out_inv (fst st)" "wpending (fst st) = m # ms" "on_disc m" "shift_files (wfiles (fst st)) (gw (snd st)) = Some (fs, w)"
  shows "\<exists>st'. PopOutgoingMsgQueue st = Returns st' \<and> out_inv (fst st') \<and> queued (fst st') = tl (queued (fst st))
    \<and> wpending (fst st') = ms \<and> wfiles (fst st') = fs \<and> snd st' = (snd st)\<lparr>gw := w\<rparr>"
proof -
  have m: "mi_hdr_len m = in_wbuf m" "mi_storage m \<noteq> SESSION_USE_MEM"
    using assms(3) by (simp_all add: in_wbuf_def on_disc_def)
  from drop_front[OF assms(1,2)] obtain mem0 mem where d: "lock_out st = Returns ((fst st)\<lparr>out_lock := True\<rparr>, snd st)"
    "wbuf (fst st) = Some mem0" "drop_wbuf (in_wbuf m) ((fst st)\<lparr>out_lock := True\<rparr>, snd st)
      = Returns ((fst st)\<lparr>out_lock := True, wbuf := Some mem, wbuf_len := int (wlen ms)\<rparr>, snd st)"
    "pieces mem ms = tl (queued (fst st))" "int (length mem) = wbuf_size (fst st)" "wlen ms \<le> length mem" "list_all info_ok (m # ms)" .
  let ?t = "((fst st)\<lparr>wbuf := Some mem, wbuf_len := int (wlen ms), wfiles := fs, wpending := ms, out_lock := False\<rparr>, (snd st)\<lparr>gw := w\<rparr>)"
  have "PopOutgoingMsgQueue st = Returns ?t"
    using assms(2,4) d(1-3) m by (simp add: PopOutgoingMsgQueue_def front_def unlock_out_def Let_def)
  moreover have "queued (fst ?t) = tl (queued (fst st))" using d(4) by (simp add: queued_def)
  moreover have "out_inv (fst ?t)" using d(5-7) by (simp add: out_inv_def)
  ultimately show ?thesis by auto
qed

lemma pop_msg_ok:
  assumes "queue_inv R T st" "outgoing st \<noteq> []"
  shows "\<exists>st'. pop_frame st = Some st' \<and> queue_inv R T st' \<and> outgoing st' = tl (outgoing st)"
proof -
  note i = assms(1)[unfolded queue_inv_def]
  obtain m ms where ms: "wpending (fst st) = m # ms"
    using assms(2) by (cases "wpending (fst st)") (auto simp: outgoing_def queued_def)
  obtain p ps where ps: "queued (fst st) = p # ps" using ms length_queued[of "fst st"] by (cases "queued (fst st)") auto
  show ?thesis
  proof (cases "on_disc m")
    case False
    then have f: "mi_storage (front (fst st)) = SESSION_USE_MEM" "wpending (fst st) \<noteq> []"
      using ms by (simp_all add: on_disc_def front_def)
    obtain st' where st': "PopOutgoingMsgQueue st = Returns st'" "out_inv (fst st')" "queued (fst st') = ps" "wpending (fst st') = ms"
        "wfiles (fst st') = wfiles (fst st)" "snd st' = snd st"
      using Pop_ok[OF conjunct1[OF i] f(2,1)] ms ps by auto
    have "queue_inv R T st'" using i st' ms False by (simp add: queue_inv_def)
    moreover have "outgoing st' = tl (outgoing st)" using st' ms ps False by (simp add: outgoing_def on_disc_def)
    ultimately show ?thesis using st'(1) by (simp add: pop_frame_def)
  next
    case True
    then obtain f fs where fs: "wfiles (fst st) = f # fs" using i ms by (cases "wfiles (fst st)") auto
    have "file_inv (owners fref (f # fs) + R) (gw (snd st))" "list_all named (f # fs)" using i fs by simp_all
    from shift_files_law[OF this] obtain w where w: "shift_files (wfiles (fst st)) (gw (snd st)) = Some (fs, w)"
        "file_inv (owners fref fs + R) w" "all_res w = T" using i fs by auto
    obtain st' where st': "PopOutgoingMsgQueue st = Returns st'" "out_inv (fst st')" "queued (fst st') = ps" "wpending (fst st') = ms"
        "wfiles (fst st') = fs" "snd st' = (snd st)\<lparr>gw := w\<rparr>"
      using Pop_file_ok[OF conjunct1[OF i] ms True w(1)] ps by auto
    have "queue_inv R T st'" using i st' ms fs True w(2,3) by (simp add: queue_inv_def)
    moreover have "outgoing st' = tl (outgoing st)" using st' ms ps fs True by (simp add: outgoing_def on_disc_def)
    ultimately show ?thesis using st'(1) by (simp add: pop_frame_def)
  qed
qed

interpretation out_queue: msg_queue "queue_inv R T" outgoing "msg_ok R" msg_content "add_msg True junk" pop_frame for R T junk
  by unfold_locales (rule add_msg_ok pop_msg_ok; assumption)+

text \<open>
  C5. The outgoing queue of a session is first-in first-out for both kinds of messages together: whatever
  is queued, adding messages in memory with AddMsgBuf and messages whose body is a file with AddMsgFile
  (allocations that succeed, files with a name that somebody else still holds), and then popping any
  number, leaves exactly the rest of the list: the bytes, the files and their announced lengths. The
  reference counts stay exact, and no file descriptor or stream of the process is lost or closed twice.
\<close>

theorem mixed_queue_is_fifo:
  assumes "queue_inv R T st" "list_all (msg_ok R) ms" "n \<le> length (outgoing st) + length ms"
  shows "\<exists>st1 st2. run_all (add_msg True junk) ms st = Some st1 \<and> run_all (\<lambda>_. pop_frame) (replicate n ()) st1 = Some st2
    \<and> queue_inv R T st2 \<and> outgoing st2 = drop n (outgoing st @ map msg_content ms)"
  using out_queue.fifo[OF assms(1,2), where us = "replicate n ()" and junk = junk] assms(3) by simp

text \<open>A session beside a caller that holds a file open on descriptor 5.\<close>

definition shared_file :: file_obj where
  "shared_file = \<lparr>fname = ''log'', fdir = [], fref = 0\<rparr>"

definition file_queue_session :: sess_st where
  "file_queue_session = (fst example_session, (snd example_session)\<lparr>gw := example_world\<lparr>next_ref := 1,
     heap := [0 \<mapsto> \<lparr>dfd = 5, dfp = None, dcnt = 1\<rparr>]\<rparr>\<rparr>)"

lemma file_queue_session_inv: "queue_inv {#0#} {#Fd 5#} file_queue_session" "outgoing file_queue_session = []"
proof -
  have f: "wpending (fst example_session) = []" "wfiles (fst example_session) = []"
    by (simp_all add: example_session_def sess_Init_def TCPSession_def SSLConn_def File_def TCPConn_def IPComm_def
        new_descriptor_def kDefaultBufSize_def Let_def)
  have "file_inv {#0#} (gw (snd file_queue_session))"
    by (auto simp: file_queue_session_def store_good_def store_inv_def one_kind_def DESCRIPTOR_NULL_def)
  moreover have "all_res (gw (snd file_queue_session)) = {#Fd 5#}"
    by (simp add: file_queue_session_def total_of_def given_res_def example_world_def start_world_def DESCRIPTOR_NULL_def)
  ultimately show "queue_inv {#0#} {#Fd 5#} file_queue_session" "outgoing file_queue_session = []"
    using f example_session_out(1) by (simp_all add: queue_inv_def outgoing_def file_queue_session_def queued_def)
qed

theorem mixed_queue_is_fifo_witness:
  "\<exists>st1 st2. run_all (add_msg True (\<lambda>_. NUL)) [MemMsg ''one'' ''1'' (MsgHdr TYPE_HTTP), FileMsg ''two'' shared_file 9 (MsgHdr TYPE_HTTP),
      MemMsg ''three'' [] (MsgHdr TYPE_HTTP)] file_queue_session = Some st1
    \<and> run_all (\<lambda>_. pop_frame) (replicate 1 ()) st1 = Some st2
    \<and> outgoing st2 = [(''two'', Some (shared_file, 9)), (''three'', None)]"
  using mixed_queue_is_fifo[OF file_queue_session_inv(1), of "[MemMsg ''one'' ''1'' (MsgHdr TYPE_HTTP),
      FileMsg ''two'' shared_file 9 (MsgHdr TYPE_HTTP), MemMsg ''three'' [] (MsgHdr TYPE_HTTP)]" 1 "\<lambda>_. NUL"]
  by (simp add: file_queue_session_inv(2) shared_file_def named_def c_str_def) blast

end
