(* ===== verification/Session_Inv.thy ===== *)
theory Session_Inv
  imports Tcp_Session
begin

text \<open>
  What every operation of a session keeps: the two mutexes are free again when it returns, and each
  buffer has the size its field says. The rules for the sequencing of operations are collected in
  holds_intro, so that each operation is proved by its own composition.
\<close>

section \<open>Results\<close>

definition holds :: "'a sys \<Rightarrow> ('a \<Rightarrow> bool) \<Rightarrow> bool" where
  "holds r Q \<longleftrightarrow> (case r of Returns x \<Rightarrow> Q x | _ \<Rightarrow> True)"

named_theorems holds_intro "rules that establish holds for a composed operation"

lemma holds_simps [simp]: "holds Blocks Q" "holds Undefined Q" "holds (Returns x) Q = Q x"
  by (simp_all add: holds_def)

lemma holds_bind [holds_intro]: "holds r (\<lambda>x. holds (f x) Q) \<Longrightarrow> holds (bind_sys r f) Q"
  by (cases r) simp_all

lemma holds_mono: "holds r P \<Longrightarrow> (\<And>x. P x \<Longrightarrow> Q x) \<Longrightarrow> holds r Q"
  by (cases r) simp_all

lemma holds_of_opt [holds_intro]: "(\<And>x. a = Some x \<Longrightarrow> Q x) \<Longrightarrow> holds (of_opt a) Q"
  by (cases a) simp_all

lemma holds_if [holds_intro]: "(b \<Longrightarrow> holds x Q) \<Longrightarrow> (\<not> b \<Longrightarrow> holds y Q) \<Longrightarrow> holds (if b then x else y) Q"
  by simp

lemma holds_prod [holds_intro]: "(\<And>a b. p = (a, b) \<Longrightarrow> holds (f a b) Q) \<Longrightarrow> holds (case p of (a, b) \<Rightarrow> f a b) Q"
  by (cases p) simp

lemma holds_option [holds_intro]:
  "(a = None \<Longrightarrow> holds x Q) \<Longrightarrow> (\<And>y. a = Some y \<Longrightarrow> holds (f y) Q)
    \<Longrightarrow> holds (case a of None \<Rightarrow> x | Some y \<Rightarrow> f y) Q"
  by (cases a) simp_all

lemma holds_sum [holds_intro]:
  "(\<And>y. a = Inl y \<Longrightarrow> holds (f y) Q) \<Longrightarrow> (\<And>y. a = Inr y \<Longrightarrow> holds (g y) Q)
    \<Longrightarrow> holds (case a of Inl y \<Rightarrow> f y | Inr y \<Rightarrow> g y) Q"
  by (cases a) simp_all

lemma holds_let [holds_intro]: "holds (f x) Q \<Longrightarrow> holds (Let x f) Q"
  by simp

lemma holds_any: "(\<And>x. Q x) \<Longrightarrow> holds r Q"
  by (cases r) simp_all

section \<open>The invariant\<close>

definition buf_ok :: "string option \<Rightarrow> int \<Rightarrow> bool" where
  "buf_ok b n \<longleftrightarrow> (case b of None \<Rightarrow> True | Some mem \<Rightarrow> int (length mem) = n)"

definition shape :: "bool \<Rightarrow> bool \<Rightarrow> session \<Rightarrow> bool" where
  "shape a b s \<longleftrightarrow> in_lock s = a \<and> out_lock s = b \<and> buf_ok (rbuf s) (rbuf_size s) \<and> buf_ok (wbuf s) (wbuf_size s)"

lemma shape_simps [simp]:
  "fst (s_fail r m st) = fst st" "fst (s_append m st) = fst st"
  "shape a b (fst (put_conn c st)) = shape a b (fst st)"
  "shape a b (set_front i s) = shape a b s"
  "shape a b (archive_hdr h s) = shape a b s"
  by (auto simp: s_fail_def s_append_def put_conn_def set_front_def archive_hdr_def shape_def)

lemma shape_updates [simp]:
  "shape a b (s\<lparr>rbuf_len := n\<rparr>) = shape a b s" "shape a b (s\<lparr>wbuf_len := n\<rparr>) = shape a b s"
  "shape a b (s\<lparr>rpending := p\<rparr>) = shape a b s" "shape a b (s\<lparr>rhdr := h\<rparr>) = shape a b s"
  "shape a b (s\<lparr>rfile := f\<rparr>) = shape a b s" "shape a b (s\<lparr>wfiles := fs\<rparr>) = shape a b s"
  "shape a b (s\<lparr>wpending := ps\<rparr>) = shape a b s" "shape a b (s\<lparr>whdrs := hs\<rparr>) = shape a b s"
  "shape a b (s\<lparr>s_conn := c\<rparr>) = shape a b s" "shape a b (s\<lparr>rtid := i\<rparr>) = shape a b s"
  by (auto simp: shape_def)

lemma shape_unlock:
  "shape True b (fst st) \<Longrightarrow> shape False b (fst (unlock_in st))"
  "shape a True (fst st) \<Longrightarrow> shape a False (fst (unlock_out st))"
  by (simp_all add: unlock_in_def unlock_out_def shape_def)

lemma shape_rbuf: "shape a b s \<Longrightarrow> rbuf s = Some mem \<Longrightarrow> length mem' = length mem \<Longrightarrow> shape a b (s\<lparr>rbuf := Some mem'\<rparr>)"
  by (simp add: shape_def buf_ok_def)

lemma shape_wbuf: "shape a b s \<Longrightarrow> wbuf s = Some mem \<Longrightarrow> length mem' = length mem \<Longrightarrow> shape a b (s\<lparr>wbuf := Some mem'\<rparr>)"
  by (simp add: shape_def buf_ok_def)

lemma shape_rbuf_length: "shape a b s \<Longrightarrow> rbuf s = Some mem \<Longrightarrow> int (length mem) = rbuf_size s"
  by (simp add: shape_def buf_ok_def)

lemma shape_wbuf_length: "shape a b s \<Longrightarrow> wbuf s = Some mem \<Longrightarrow> int (length mem) = wbuf_size s"
  by (simp add: shape_def buf_ok_def)

lemma mem_move_length: "mem_move mem d s n = Some mem' \<Longrightarrow> length mem' = length mem"
  by (auto simp: mem_move_def split: option.splits dest: mem_put_length)

section \<open>The private routines\<close>

lemma lock_in_holds: "shape False b (fst st) \<Longrightarrow> (\<And>st'. shape True b (fst st') \<Longrightarrow> Q st') \<Longrightarrow> holds (lock_in st) Q"
  by (auto simp: lock_in_def shape_def)

lemma lock_out_holds: "shape a False (fst st) \<Longrightarrow> (\<And>st'. shape a True (fst st') \<Longrightarrow> Q st') \<Longrightarrow> holds (lock_out st) Q"
  by (auto simp: lock_out_def shape_def)

lemma on_rfile_holds: "shape a b (fst st) \<Longrightarrow> (\<And>st'. shape a b (fst st') \<Longrightarrow> Q st') \<Longrightarrow> holds (on_rfile f st) Q"
  by (auto simp: on_rfile_def intro!: holds_of_opt)

lemma ShiftRbuf_holds:
  assumes "shape a b (fst st)" and Q: "\<And>st'. shape a b (fst st') \<Longrightarrow> Q st'"
  shows "holds (ShiftRbuf len off st) Q"
  unfolding ShiftRbuf_def
  by (intro holds_intro) (use assms(1) in \<open>auto intro!: Q intro: shape_rbuf[OF _ _ mem_move_length]\<close>)

lemma ResetRbuf_holds: "shape a b (fst st) \<Longrightarrow> (\<And>st'. shape a b (fst st') \<Longrightarrow> Q st') \<Longrightarrow> holds (ResetRbuf st) Q"
  unfolding ResetRbuf_def by (intro holds_intro) (auto intro: on_rfile_holds)

lemma ResetWbuf_holds: "shape a b (fst st) \<Longrightarrow> (\<And>st'. shape a b (fst st') \<Longrightarrow> Q st') \<Longrightarrow> holds (ResetWbuf st) Q"
  unfolding ResetWbuf_def by (intro holds_intro) auto

section \<open>The operations\<close>

text \<open>
  The invariant between operations: both mutexes free. Each lemma is about one operation of the class,
  from and to that state.
\<close>

abbreviation idle :: "sess_st \<Rightarrow> bool" where
  "idle st \<equiv> shape False False (fst st)"

named_theorems op_holds "that an operation keeps the invariant"

lemma set_connected_holds [op_holds]: "idle st \<Longrightarrow> holds (sess_set_connected b st) idle"
  unfolding sess_set_connected_def
  by (intro holds_intro lock_in_holds lock_out_holds | assumption)+ (auto simp: Let_def intro!: shape_unlock)

lemma set_rtid_holds [op_holds]: "idle st \<Longrightarrow> holds (set_rtid i st) idle"
  unfolding set_rtid_def by (intro holds_intro lock_in_holds | assumption)+ (auto intro!: shape_unlock)

lemma set_storage_holds [op_holds]: "idle st \<Longrightarrow> holds (set_storage i st) idle"
  unfolding set_storage_def by (intro holds_intro lock_in_holds | assumption)+ (auto intro!: shape_unlock)

lemma delete_whdr_holds [op_holds]: "idle st \<Longrightarrow> holds (delete_whdr i st) idle"
  unfolding delete_whdr_def by (intro holds_intro lock_out_holds | assumption)+ (auto intro!: shape_unlock)

lemma ClearIncomingMsg_holds [op_holds]: "idle st \<Longrightarrow> holds (ClearIncomingMsg st) idle"
  unfolding ClearIncomingMsg_def
  by (intro holds_intro lock_in_holds ShiftRbuf_holds on_rfile_holds | assumption | auto intro!: shape_unlock)+

lemma set_rfile_holds [op_holds]:
  assumes "idle st" shows "holds (set_rfile res pth st) idle"
proof -
  have open_it: "holds (bind_sys (on_rfile f st2) (\<lambda>st4. bind_sys (on_rfile g st4) (\<lambda>st5.
      Returns (unlock_in (if s_event st5 then s_append m st5 else st5))))) idle" if "shape True False (fst st2)" for st2 f g m
    using that by (intro holds_intro on_rfile_holds | assumption | auto intro!: shape_unlock)+
  show ?thesis unfolding set_rfile_def Let_def
    by (intro holds_intro lock_in_holds on_rfile_holds open_it | assumption | use assms in \<open>auto intro!: shape_unlock open_it\<close>)+
qed

lemma incoming_body_holds:
  assumes "shape a b (fst st)" and Q: "\<And>st'. shape a b (fst st') \<Longrightarrow> Q st'"
  shows "holds (incoming_body used cb st) Q"
  unfolding incoming_body_def
  by (intro holds_intro ShiftRbuf_holds | assumption | use assms(1) in \<open>auto intro!: Q intro: shape_rbuf[OF _ _ mem_put_length]\<close>)+

lemma incoming_info_holds:
  "shape a b (fst st) \<Longrightarrow> (\<And>st'. shape a b (fst st') \<Longrightarrow> Q st') \<Longrightarrow> holds (incoming_info st) Q"
  unfolding incoming_info_def by (intro holds_intro) auto

lemma put_env_shape [simp]: "shape a b (fst (put_env e st)) = shape a b (fst st)"
  by (simp add: put_env_def)

lemma StreamIncomingMsg_holds [op_holds]: "idle st \<Longrightarrow> holds (StreamIncomingMsg sp evs st) (\<lambda>(x, d, evs', st'). idle st')"
  unfolding StreamIncomingMsg_def Let_def
  by (intro holds_intro lock_in_holds ShiftRbuf_holds on_rfile_holds ResetRbuf_holds holds_any[where r = "file_write _ _"]
      | assumption | auto intro!: shape_unlock)+

lemma holds_run [holds_intro]:
  "(r = Fault \<Longrightarrow> holds x Q) \<Longrightarrow> (\<And>e. r = Stop e \<Longrightarrow> holds (f e) Q) \<Longrightarrow> (\<And>e k. r = Go e k \<Longrightarrow> holds (g e k) Q)
    \<Longrightarrow> holds (case r of Fault \<Rightarrow> x | Stop e \<Rightarrow> f e | Go e k \<Rightarrow> g e k) Q"
  by (cases r) simp_all

lemma InitIncomingMsg_holds [op_holds]: "idle st \<Longrightarrow> holds (InitIncomingMsg ptr_bytes alloc True st) (\<lambda>(ok, st'). idle st')"
  unfolding InitIncomingMsg_def Let_def
  by (intro holds_intro lock_in_holds incoming_body_holds incoming_info_holds ResetRbuf_holds
      | assumption | auto intro!: shape_unlock)+

lemma length_realloc_mem_eq: "0 \<le> n \<Longrightarrow> int (length (realloc_mem junk mem n)) = n"
  by (auto simp: realloc_mem_def)

lemma shape_realloc_rbuf:
  "shape a b s \<Longrightarrow> 0 \<le> n \<Longrightarrow> shape a b (s\<lparr>rbuf := Some (realloc_mem junk mem n), rbuf_size := n\<rparr>)"
  by (simp add: shape_def buf_ok_def length_realloc_mem_eq)

lemma shape_realloc_wbuf:
  "shape a b s \<Longrightarrow> 0 \<le> n \<Longrightarrow> shape a b (s\<lparr>wbuf := Some (realloc_mem junk mem n), wbuf_size := n\<rparr>)"
  by (simp add: shape_def buf_ok_def length_realloc_mem_eq)

lemma make_room_holds:
  assumes "shape a b (fst st)" and Q: "\<And>ok st'. shape a b (fst st') \<Longrightarrow> Q (ok, st')"
  shows "holds (make_room fn alloc junk need st) Q"
proof -
  have "0 \<le> need + wbuf_len (fst st) + kDefaultBufSize"
    if "wbuf_size (fst st) < need + wbuf_len (fst st)" "wbuf (fst st) = Some mem" for mem
    using that shape_wbuf_length[OF assms(1) that(2)] by (simp add: kDefaultBufSize_def)
  then show ?thesis unfolding make_room_def Let_def
    by (intro holds_intro | use assms(1) in \<open>auto intro!: Q shape_realloc_wbuf\<close>)+
qed

lemma append_wbuf_holds:
  assumes "shape a b s" and Q: "\<And>s'. shape a b s' \<Longrightarrow> Q s'"
  shows "holds (append_wbuf src n s) Q"
  unfolding append_wbuf_def
  by (intro holds_intro) (use assms(1) in \<open>auto intro!: Q intro: shape_wbuf[OF _ _ mem_put_length]\<close>)

lemma AddMsgBuf_holds [op_holds]: "idle st \<Longrightarrow> holds (AddMsgBuf alloc junk fh hl mb bl whdr st) (\<lambda>(ok, st'). idle st')"
  unfolding AddMsgBuf_def Let_def
  by (intro holds_intro lock_out_holds make_room_holds append_wbuf_holds | assumption | auto intro!: shape_unlock)+

lemma AddMsgFile_holds [op_holds]: "idle st \<Longrightarrow> holds (AddMsgFile alloc junk fh hl f bl whdr st) (\<lambda>(ok, st'). idle st')"
  unfolding AddMsgFile_def Let_def
  by (intro holds_intro lock_out_holds make_room_holds append_wbuf_holds | assumption | auto intro!: shape_unlock)+

lemma drop_wbuf_holds:
  assumes "shape a b (fst st)" and Q: "\<And>st'. shape a b (fst st') \<Longrightarrow> Q st'"
  shows "holds (drop_wbuf n st) Q"
  unfolding drop_wbuf_def
  by (intro holds_intro) (use assms(1) in \<open>auto intro!: Q intro: shape_wbuf[OF _ _ mem_move_length]\<close>)

lemma Pop_holds [op_holds]: "idle st \<Longrightarrow> holds (PopOutgoingMsgQueue st) idle"
  unfolding PopOutgoingMsgQueue_def Let_def
  by (intro holds_intro lock_out_holds drop_wbuf_holds | assumption | auto intro!: shape_unlock)+

lemma lock_in_exact: "shape False b (fst st) \<Longrightarrow> Q ((fst st)\<lparr>in_lock := True\<rparr>, snd st) \<Longrightarrow> holds (lock_in st) Q"
  by (simp add: lock_in_def shape_def)

lemma shape_read:
  "shape False b s \<Longrightarrow> rbuf s = Some mem \<Longrightarrow> mem_put mem off d = Some mem'
    \<Longrightarrow> shape True b (s\<lparr>in_lock := True, rbuf := Some mem'\<rparr>)"
  by (auto simp: shape_def buf_ok_def dest: mem_put_length)

lemma shape_size: "shape a b s \<Longrightarrow> rbuf s = Some mem \<Longrightarrow> 0 \<le> rbuf_size s + kDefaultBufSize"
  by (auto simp: shape_def buf_ok_def kDefaultBufSize_def)

lemma sess_Read_holds [op_holds]:
  assumes "idle st"
  shows "holds (sess_Read ntop ptr alloc junk script evs st) (\<lambda>(r, eof, s', e', st'). idle st')"
  unfolding sess_Read_def Let_def
  by (intro holds_intro lock_in_exact[OF assms] holds_any[where r = "ssl_Read _ _ _ _ _"])
     (use assms in \<open>auto intro!: shape_unlock ResetRbuf_holds shape_realloc_rbuf intro: shape_read shape_size\<close>,
      (blast intro: shape_read shape_size)+)

lemma send_wbuf_holds:
  assumes "shape a b (fst st)" and Q: "\<And>r w s' e' st'. shape a b (fst st') \<Longrightarrow> Q (r, w, s', e', st')"
  shows "holds (send_wbuf logged ntop off n script evs st) Q"
  unfolding send_wbuf_def
  by (intro holds_intro holds_any[where r = "ssl_Write _ _ _ _ _ _ _"]) (use assms(1) in \<open>auto intro!: Q\<close>)

lemma reset_out_holds:
  assumes "shape a True (fst st)" and Q: "\<And>st'. shape a False (fst st') \<Longrightarrow> Q st'"
  shows "holds (reset_out st) Q"
  unfolding reset_out_def by (intro holds_intro ResetWbuf_holds) (use assms(1) in \<open>auto intro!: Q shape_unlock\<close>)

abbreviation idle_result :: "write_result \<times> rd_event list \<Rightarrow> bool" where
  "idle_result x \<equiv> (case x of ((r, w, s', e', st'), rds') \<Rightarrow> idle st')"

lemma write_mem_holds:
  "shape False True (fst st) \<Longrightarrow> holds (write_mem logged ntop ptr script evs st) (\<lambda>(r, w, s', e', st'). idle st')"
  unfolding write_mem_def Let_def
  by (intro holds_intro send_wbuf_holds reset_out_holds | assumption | auto intro!: shape_unlock)+

lemma open_front_holds:
  assumes "shape False True (fst st)" and Q: "\<And>st'. shape False True (fst st') \<Longrightarrow> Q (True, st')"
    "\<And>st'. idle st' \<Longrightarrow> Q (False, st')"
  shows "holds (open_front res seek show_ptr st) Q"
  unfolding open_front_def Let_def
  by (cases "wfiles (fst st)") (use assms(1) in \<open>auto intro!: holds_intro Q reset_out_holds\<close>)

lemma write_chunk_holds:
  assumes "shape False True (fst st)"
  shows "holds (write_chunk logged ntop show_ptr hs wire script evs rds st) idle_result"
  unfolding write_chunk_def Let_def
  by (intro holds_intro holds_any[where r = "ssl_Write _ _ _ _ _ _ _"] holds_any[where r = "sys_read _ _"] reset_out_holds
      | assumption | use assms in \<open>auto intro!: shape_unlock\<close>)+

lemma write_disc_holds:
  assumes "shape False True (fst st)"
  shows "holds (write_disc logged ntop ptr show_ptr res seek script evs rds st) idle_result"
  unfolding write_disc_def Let_def
  by (intro holds_intro send_wbuf_holds reset_out_holds open_front_holds write_chunk_holds
      | assumption | use assms in \<open>auto intro!: shape_unlock write_chunk_holds\<close>)+

lemma sess_Write_holds [op_holds]:
  "idle st \<Longrightarrow> holds (sess_Write logged ntop ptr show_ptr res seek script evs rds st) idle_result"
  unfolding sess_Write_def Let_def
  by (intro holds_intro lock_out_holds holds_mono[OF write_mem_holds] write_disc_holds | assumption | auto)+

lemma sess_Init_idle: "idle st \<Longrightarrow> idle (sess_Init ok_r ok_w junk st)"
  by (auto simp: sess_Init_def shape_def buf_ok_def Let_def kDefaultBufSize_def split: option.splits)

section \<open>Sessions over time\<close>

text \<open>
  One call of the public interface that returns, with any arguments, results of the allocator and
  answers of the system and of OpenSSL; the calloc of InitIncomingMsg succeeds.
\<close>

inductive sess_step :: "sess_st \<Rightarrow> sess_st \<Rightarrow> bool" where
  step_Init: "sess_step st (sess_Init ok_r ok_w junk st)"
| step_handle: "sess_step (s, g) (set_handle h s, g)"
| step_sync: "sess_step (s, g) (set_synchronize_status x s, g)"
| step_set_connected: "sess_set_connected b st = Returns st' \<Longrightarrow> sess_step st st'"
| step_set_rfile: "set_rfile res pth st = Returns st' \<Longrightarrow> sess_step st st'"
| step_set_rtid: "set_rtid i st = Returns st' \<Longrightarrow> sess_step st st'"
| step_set_storage: "set_storage x st = Returns st' \<Longrightarrow> sess_step st st'"
| step_delete_whdr: "delete_whdr j st = Returns st' \<Longrightarrow> sess_step st st'"
| step_InitIncomingMsg: "InitIncomingMsg pb alloc True st = Returns (ok, st') \<Longrightarrow> sess_step st st'"
| step_Read: "sess_Read ntop ptr al junk script evs st = Returns (r, eof, script', evs', st') \<Longrightarrow> sess_step st st'"
| step_Stream: "StreamIncomingMsg sp wevs st = Returns (x', d, wevs', st') \<Longrightarrow> sess_step st st'"
| step_Clear: "ClearIncomingMsg st = Returns st' \<Longrightarrow> sess_step st st'"
| step_AddMsgBuf: "AddMsgBuf al junk fh hl mb bl whdr st = Returns (ok, st') \<Longrightarrow> sess_step st st'"
| step_AddMsgFile: "AddMsgFile al junk fh hl f bl whdr st = Returns (ok, st') \<Longrightarrow> sess_step st st'"
| step_Write: "sess_Write logged ntop ptr sp res seek script wevs rds st = Returns ((r, w, script', wevs', st'), rds')
    \<Longrightarrow> sess_step st st'"
| step_Pop: "PopOutgoingMsgQueue st = Returns st' \<Longrightarrow> sess_step st st'"

inductive_cases sess_stepE: "sess_step st st'"

lemma holdsD: "holds r Q \<Longrightarrow> r = Returns x \<Longrightarrow> Q x"
  by simp

lemma sess_step_idle: "sess_step st st' \<Longrightarrow> idle st \<Longrightarrow> idle st'"
proof (induction rule: sess_step.induct)
  case (step_handle s g h) then show ?case by (simp add: set_handle_def shape_def)
next
  case (step_sync s g x) then show ?case by (simp add: set_synchronize_status_def shape_def)
qed (use op_holds sess_Init_idle in \<open>(blast | fastforce dest: holdsD)+\<close>)

lemma TCPSession_idle: "idle (TCPSession framing now g)"
  by (simp add: TCPSession_def shape_def buf_ok_def split: prod.splits)

text \<open>
  C8. The mutexes are released: whatever calls a session has seen since its construction, with whatever
  outcomes (errors, failed reallocations, resets), as long as the one calloc of InitIncomingMsg has not
  failed, both mutexes are free, so the operations that take both do not block, and both buffers have
  exactly the size that their field says.
\<close>

theorem locks_are_released:
  assumes "rtranclp sess_step (TCPSession framing now g) st"
  shows "\<not> in_lock (fst st) \<and> \<not> out_lock (fst st) \<and> sess_set_connected b st \<noteq> Blocks
    \<and> (\<forall>mem. rbuf (fst st) = Some mem \<longrightarrow> int (length mem) = rbuf_size (fst st))
    \<and> (\<forall>mem. wbuf (fst st) = Some mem \<longrightarrow> int (length mem) = wbuf_size (fst st))"
proof -
  from assms have "idle st"
    by (induction rule: rtranclp_induct) (use TCPSession_idle sess_step_idle in blast)+
  then show ?thesis
    by (auto simp: shape_def buf_ok_def sess_set_connected_def lock_in_def lock_out_def Let_def)
qed

theorem locks_are_released_witness:
  "\<exists>st. rtranclp sess_step (TCPSession TYPE_HTTP 0
      \<lparr>gw = example_world, gssl = \<lparr>ssl_freed = [], x509_freed = [], sent_shutdown = []\<rparr>, g_msg_id = 0, g_session_id = 65\<rparr>) st
    \<and> rbuf (fst st) = Some (replicate 4096 NUL) \<and> rbuf_size (fst st) = 4096 \<and> rtid (fst st) = 7 \<and> \<not> in_lock (fst st)"
proof -
  let ?st0 = "TCPSession TYPE_HTTP 0
      \<lparr>gw = example_world, gssl = \<lparr>ssl_freed = [], x509_freed = [], sent_shutdown = []\<rparr>, g_msg_id = 0, g_session_id = 65\<rparr>"
  let ?st1 = "sess_Init True True (\<lambda>_. NUL) ?st0"
  let ?st2 = "((fst ?st1)\<lparr>rtid := 7, in_lock := False\<rparr>, snd ?st1)"
  have f: "rbuf (fst ?st1) = Some (replicate 4096 NUL)" "rbuf_size (fst ?st1) = 4096" "\<not> in_lock (fst ?st1)"
    by (simp_all add: sess_Init_def TCPSession_def SSLConn_def File_def TCPConn_def IPComm_def new_descriptor_def
        kDefaultBufSize_def Let_def)
  have "set_rtid 7 ?st1 = Returns ?st2" using f(3) by (simp add: set_rtid_def lock_in_def unlock_in_def)
  then have r: "rtranclp sess_step ?st0 ?st2" using step_Init step_set_rtid by (meson r_into_rtranclp rtranclp.rtrancl_into_rtrancl)
  from locks_are_released[OF r] r f show ?thesis by (intro exI[of _ ?st2]) simp
qed

end
