(* ===== verification/Session_Incoming.thy ===== *)
theory Session_Incoming
  imports Session_Inv Session_Queue Http_Response
begin

text \<open>
  The incoming side of a session: how a header that has arrived in the read buffer becomes the
  current message, composed from the round trip of the parser, once for all kinds of headers (the
  interface hdr_codec), and what that means for requests.
\<close>

section \<open>A header arrives\<close>

lemma to_size_t_id: "n < 2 ^ 64 \<Longrightarrow> to_size_t (int n) = n"
  by (simp add: to_size_t_def nat_eq_iff)

lemma ShiftRbuf_front:
  assumes "rbuf (fst st) = Some (a @ b @ c)" "rbuf_len (fst st) = int (length a + length b)"
  shows "ShiftRbuf (int (length a)) 0 st =
    Returns ((fst st)\<lparr>rbuf := Some (b @ drop (length b) (a @ b @ c)), rbuf_len := int (length b)\<rparr>, snd st)"
  using assms by (simp add: ShiftRbuf_def Let_def mem_move_def mem_get_def mem_put_def)

text \<open>The environment that the parser starts with, and the composition of a parse that succeeds.\<close>

definition incoming_env :: "sess_st \<Rightarrow> msg_env" where
  "incoming_env st = \<lparr>env_hdr = rhdr (fst st), msg_id_hash = g_msg_id (snd st), env_err = w_err (gw (snd st)),
     env_chunk = \<lparr>cb_data = Some (replicate (nat kDefaultBufSize) NUL), cb_size = nat kDefaultBufSize\<rparr>\<rparr>"

lemma InitIncomingMsg_parsed:
  assumes "rbuf (fst st) = Some mem" "rbuf_len (fst st) \<noteq> 0" "\<not> in_lock (fst st)"
    "mh_InitFromBuf pb alloc (Some mem) (to_size_t (rbuf_len (fst st))) (incoming_env st) = Go e (Some k)"
    "incoming_body k (env_chunk e) (put_env e ((fst st)\<lparr>in_lock := True\<rparr>, snd st)) = Returns st2"
    "incoming_info st2 = Returns st3"
  shows "InitIncomingMsg pb alloc True st = Returns (True, unlock_in st3)"
  using assms by (simp add: InitIncomingMsg_def lock_in_def incoming_env_def)

context hdr_codec begin

lemma mh_InitFromBuf_codec:
  assumes "wf h" "least \<le> m" "NUL \<in> set rest" "m < 2 ^ 60" "mtype (env_hdr e) = TYPE_HTTP" "\<not> event_flag (env_err e)"
  shows "mh_InitFromBuf pb alloc (Some (bytes h @ rest)) (length (bytes h) + m) e =
    Go (e\<lparr>env_hdr := set_msg_id (msg_id_hash e + 1) (put_http h (env_hdr e)), msg_id_hash := msg_id_hash e + 1\<rparr>)
       (Some (length (bytes h)))"
  using parsed[OF assms(1-4,6), of alloc "mh_http (env_hdr e)" "env_chunk e"] assms(5)
  by (simp add: mh_InitFromBuf_def Let_def)

lemma InitIncomingMsg_codec:
  assumes "wf h" "least \<le> length body" "length body < 2 ^ 60" "NUL \<in> set pad"
    "rbuf (fst st) = Some (bytes h @ body @ pad)" "rbuf_len (fst st) = int (length (bytes h) + length body)"
    "mtype (rhdr (fst st)) = TYPE_HTTP" "\<not> in_lock (fst st)" "\<not> s_event st"
  shows "\<exists>st' mem. InitIncomingMsg pb alloc True st = Returns (True, st') \<and> http_hdr_of (rhdr (fst st')) = h
    \<and> rbuf (fst st') = Some mem \<and> take (length body) mem = body \<and> rbuf_len (fst st') = int (length body)
    \<and> mi_hdr_len (rpending (fst st')) = int (length (bytes h))
    \<and> mi_body_len (rpending (fst st')) = to_ssize_t (msg_len h)
    \<and> mi_storage (rpending (fst st')) = SESSION_USE_MEM \<and> mi_initialized (rpending (fst st'))
    \<and> (IsIncomingMsgComplete (fst st') \<longleftrightarrow> to_ssize_t (msg_len h) \<le> int (length body))
    \<and> \<not> s_event st' \<and> \<not> in_lock (fst st')"
proof -
  let ?k = "length (bytes h)" and ?st1 = "((fst st)\<lparr>in_lock := True\<rparr>, snd st)"
  have n: "to_size_t (rbuf_len (fst st)) = ?k + length body"
    using fits[OF assms(1)] assms(3,6) to_size_t_id[of "?k + length body"] by (simp add: SCRATCH_BUF_SIZE_def)
  define rh where "rh = set_msg_id (g_msg_id (snd st) + 1) (put_http h (rhdr (fst st)))"
  define e where "e = (incoming_env st)\<lparr>env_hdr := rh, msg_id_hash := g_msg_id (snd st) + 1\<rparr>"
  have parse: "mh_InitFromBuf pb alloc (Some (bytes h @ body @ pad)) (?k + length body) (incoming_env st) = Go e (Some ?k)"
    using mh_InitFromBuf_codec[OF assms(1,2), of "body @ pad" "incoming_env st" pb alloc] assms(3,4,7,9)
    by (simp add: s_event_def incoming_env_def e_def rh_def)
  have rh: "mtype rh = TYPE_HTTP" "mh_http rh = h" using assms(7) by (simp_all add: rh_def set_msg_id_def)
  define st2 where "st2 = put_env e ?st1"
  have st2: "rbuf (fst st2) = Some (bytes h @ body @ pad)" "rbuf_len (fst st2) = int (?k + length body)"
      "rhdr (fst st2) = rh" "in_lock (fst st2)" "s_event st2 = s_event st"
    using assms(5,6) by (simp_all add: st2_def put_env_def e_def incoming_env_def s_event_def)
  define mem where "mem = body @ drop (length body) (bytes h @ body @ pad)"
  define st3 where "st3 = ((fst st2)\<lparr>rbuf := Some mem, rbuf_len := int (length body)\<rparr>, snd st2)"
  have body: "incoming_body ?k (env_chunk e) st2 = Returns st3"
    using ShiftRbuf_front[OF st2(1,2)]
    by (simp add: incoming_body_def e_def incoming_env_def kDefaultBufSize_def c_str_def st3_def mem_def)
  have hl: "mh_hdr_len (rhdr (fst st3)) = Some ?k"
    using rh st2(3) hdr_len_codec[OF assms(1)] by (simp add: mh_hdr_len_def st3_def)
  let ?st4 = "((fst st3)\<lparr>rpending := (rpending (fst st3))\<lparr>mi_initialized := True, mi_msg_id := msg_id rh, mi_hdr_len := int ?k,
     mi_body_len := to_ssize_t (mh_body_len rh), mi_buf_offset := 0, mi_file_offset := 0, mi_storage := SESSION_USE_MEM\<rparr>\<rparr>, snd st3)"
  have info: "incoming_info st3 = Returns ?st4"
    using hl st2(3) by (simp add: incoming_info_def st3_def)
  have ne: "rbuf_len (fst st) \<noteq> 0" using some[OF assms(1)] assms(6) by (cases "bytes h") simp_all
  have r: "InitIncomingMsg pb alloc True st = Returns (True, unlock_in ?st4)"
    using InitIncomingMsg_parsed[OF assms(5) ne assms(8) _ _ info, of pb alloc e ?k] n parse body by (simp add: st2_def)
  have bl: "mh_body_len rh = msg_len h" using rh by (simp add: mh_body_len_def)
  have "\<not> s_event (unlock_in ?st4)" using assms(9) st2(5) by (simp add: s_event_def unlock_in_def st3_def)
  with r show ?thesis using rh bl st2
    by (intro exI[of _ "unlock_in ?st4"] exI[of _ mem])
       (auto simp: unlock_in_def http_hdr_of_def IsIncomingMsgComplete_def st3_def mem_def)
qed

end

section \<open>Requests\<close>

lemma InitIncomingMsg_request:
  assumes "http_method h \<in> set methods" "wf_url URL_PORT_NULL (uri h)" "list_all wf_hdr (msg_hdrs h)"
    "msg_type h = REQUEST" "major h = 1" "minor h = 1" "status_code h = 0"
    "length (request_text h) < SCRATCH_BUF_SIZE" "body \<noteq> []" "length body < 2 ^ 60" "NUL \<in> set pad"
    "rbuf (fst st) = Some (request_text h @ body @ pad)" "rbuf_len (fst st) = int (length (request_text h) + length body)"
    "mtype (rhdr (fst st)) = TYPE_HTTP" "\<not> in_lock (fst st)" "\<not> s_event st"
  shows "\<exists>st' mem. InitIncomingMsg pb alloc True st = Returns (True, st') \<and> http_hdr_of (rhdr (fst st')) = h
    \<and> rbuf (fst st') = Some mem \<and> take (length body) mem = body \<and> rbuf_len (fst st') = int (length body)
    \<and> mi_hdr_len (rpending (fst st')) = int (length (request_text h))
    \<and> mi_body_len (rpending (fst st')) = to_ssize_t (msg_len h)
    \<and> mi_storage (rpending (fst st')) = SESSION_USE_MEM \<and> mi_initialized (rpending (fst st'))
    \<and> (IsIncomingMsgComplete (fst st') \<longleftrightarrow> to_ssize_t (msg_len h) \<le> int (length body))
    \<and> \<not> s_event st' \<and> \<not> in_lock (fst st')"
  by (rule requests.InitIncomingMsg_codec[OF _ _ assms(10-16)])
     (use assms(1-9) in \<open>simp_all add: wf_request_def Suc_le_eq\<close>)

text \<open>
  A request that has arrived is taken over: when the read buffer holds a header that print_hdr
  wrote for a well-formed request and at least one byte of the body, InitIncomingMsg succeeds; the
  session's header is that request, the body's bytes are at the start of the buffer, the lengths in the
  message record are those of the header and of Content-Length, no error is set and the mutex is free;
  and the message counts as complete exactly when Content-Length bytes are there.
\<close>

theorem request_reaches_session:
  assumes "http_method h \<in> set methods" "wf_url URL_PORT_NULL (uri h)" "list_all wf_hdr (msg_hdrs h)"
    "msg_type h = REQUEST" "major h = 1" "minor h = 1" "status_code h = 0"
    "length (request_text h) < SCRATCH_BUF_SIZE" "body \<noteq> []" "length body < 2 ^ 60" "NUL \<in> set pad"
    "print_hdr 0 False h = Some hdr" "rbuf (fst st) = Some (c_str hdr @ body @ pad)"
    "rbuf_len (fst st) = int (length (c_str hdr) + length body)" "mtype (rhdr (fst st)) = TYPE_HTTP"
    "\<not> in_lock (fst st)" "\<not> s_event st"
  shows "\<exists>st' mem. InitIncomingMsg pb alloc True st = Returns (True, st') \<and> http_hdr_of (rhdr (fst st')) = h
    \<and> rbuf (fst st') = Some mem \<and> take (length body) mem = body \<and> rbuf_len (fst st') = int (length body)
    \<and> mi_hdr_len (rpending (fst st')) = int (length (c_str hdr)) \<and> mi_body_len (rpending (fst st')) = to_ssize_t (msg_len h)
    \<and> (IsIncomingMsgComplete (fst st') \<longleftrightarrow> to_ssize_t (msg_len h) \<le> int (length body))
    \<and> \<not> s_event st' \<and> \<not> in_lock (fst st')"
proof -
  have hdr: "c_str hdr = request_text h"
    using print_request[OF assms(1,3,5,6,8)] assms(12) by auto
  show ?thesis using InitIncomingMsg_request[OF assms(1-11) _ _ assms(15-17), of pb alloc] assms(13,14)
    unfolding hdr by blast
qed

lemma sample_request_incoming:
  "http_method sample_request \<in> set methods" "wf_url URL_PORT_NULL (uri sample_request)"
  "list_all wf_hdr (msg_hdrs sample_request)" "msg_type sample_request = REQUEST" "major sample_request = 1"
  "minor sample_request = 1" "status_code sample_request = 0" "length (request_text sample_request) < SCRATCH_BUF_SIZE"
  "to_ssize_t (msg_len sample_request) = 1"
proof -
  show "wf_url URL_PORT_NULL (uri sample_request)"
    using sample_request_wf(2) by (simp add: wf_url_def sample_request_def URL_PORT_NULL_def)
  show "to_ssize_t (msg_len sample_request) = 1"
    by (simp add: sample_request_def msg_len_def same_name_iff MIME_CONTENT_LENGTH_def c_str_def strtol_def split_sign_def
        strip_0x_def isspace_def LONG_MAX_def LONG_MIN_def digit_of_def tolower_def to_size_t_def to_ssize_t_def)
qed (use sample_request_wf in \<open>simp_all add: sample_request_text SCRATCH_BUF_SIZE_def, simp_all add: sample_request_def\<close>)

lemma example_session_in:
  "mtype (rhdr (fst example_session)) = TYPE_HTTP" "\<not> in_lock (fst example_session)" "\<not> s_event example_session"
  "rbuf (fst example_session) = Some (replicate 4096 NUL)" "rbuf_len (fst example_session) = 0"
  "rbuf_size (fst example_session) = 4096"
  by (simp_all add: example_session_def sess_Init_def TCPSession_def SSLConn_def File_def TCPConn_def IPComm_def
      new_descriptor_def kDefaultBufSize_def Let_def MsgHdr_def s_event_def example_world_def start_world_def)

theorem request_reaches_session_witness:
  "\<exists>st' mem. InitIncomingMsg zero_basic (\<lambda>_. True) True
      ((fst example_session)\<lparr>rbuf := Some (request_text sample_request @ ''x'' @ [NUL]),
         rbuf_len := int (length (request_text sample_request) + 1)\<rparr>, snd example_session) = Returns (True, st')
    \<and> http_hdr_of (rhdr (fst st')) = sample_request \<and> IsIncomingMsgComplete (fst st')
    \<and> rbuf (fst st') = Some mem \<and> take 1 mem = ''x''"
proof -
  let ?st = "((fst example_session)\<lparr>rbuf := Some (request_text sample_request @ ''x'' @ [NUL]),
         rbuf_len := int (length (request_text sample_request) + 1)\<rparr>, snd example_session)"
  obtain hdr where hdr: "print_hdr 0 False sample_request = Some hdr" "c_str hdr = request_text sample_request"
    using print_request[OF sample_request_incoming(1,3,5,6,8)] by blast
  have st: "rbuf (fst ?st) = Some (c_str hdr @ ''x'' @ [NUL])" "rbuf_len (fst ?st) = int (length (c_str hdr) + length ''x'')"
      "mtype (rhdr (fst ?st)) = TYPE_HTTP" "\<not> in_lock (fst ?st)" "\<not> s_event ?st"
    using example_session_in hdr(2) by (simp_all add: s_event_def)
  from request_reaches_session[OF sample_request_incoming(1-8) _ _ _ hdr(1) st, of zero_basic "\<lambda>_. True"]
  show ?thesis using sample_request_incoming(9) by auto
qed

end
