(* ===== verification/Session_Errors.thy ===== *)
theory Session_Errors
  imports Session_Incoming
begin

text \<open>
  The cases in which the bookkeeping of a session goes wrong: a mutex that stays locked, offsets moved
  back by a return value below 0, a length below 0 that a peer can send, and a header that is cleared
  together with its type.
\<close>

section \<open>An allocation that fails\<close>

lemma in_lock_blocks:
  assumes "in_lock (fst st)" "rbuf (fst st) = Some mem"
  shows "sess_Read ntop ptr alloc junk script evs st = Blocks" "ClearIncomingMsg st = Blocks"
    "sess_set_connected b st = Blocks" "set_rtid i st = Blocks"
    "rbuf_len (fst st) \<noteq> 0 \<Longrightarrow> InitIncomingMsg pb al ok st = Blocks"
  using assms
  by (simp_all add: sess_Read_def ClearIncomingMsg_def sess_set_connected_def set_rtid_def InitIncomingMsg_def lock_in_def)

text \<open>
  C27. When the calloc of InitIncomingMsg fails, it returns false with an error and with the incoming
  mutex locked for good: every later operation of the session that needs the mutex blocks, among them
  Read, ClearIncomingMsg, set_connected and InitIncomingMsg itself.
\<close>

theorem calloc_failure_deadlocks:
  assumes "rbuf (fst st) = Some mem" "rbuf_len (fst st) \<noteq> 0" "\<not> in_lock (fst st)"
  shows "\<exists>st'. InitIncomingMsg pb alloc False st = Returns (False, st') \<and> s_event st'
    \<and> sess_Read ntop ptr al junk script evs st' = Blocks \<and> ClearIncomingMsg st' = Blocks
    \<and> sess_set_connected b st' = Blocks \<and> InitIncomingMsg pb alloc ok st' = Blocks"
proof -
  obtain st' where st': "InitIncomingMsg pb alloc False st = Returns (False, st')" "s_event st'"
      "rbuf (fst st') = Some mem" "rbuf_len (fst st') \<noteq> 0" "in_lock (fst st')"
    using assms by (simp add: InitIncomingMsg_def lock_in_def s_fail_def s_event_def w_fail_def)
  with in_lock_blocks[OF st'(5,3)] show ?thesis by blast
qed

theorem calloc_failure_deadlocks_witness:
  "\<exists>st'. InitIncomingMsg zero_basic (\<lambda>_. True) False ((fst example_session)\<lparr>rbuf_len := 1\<rparr>, snd example_session)
      = Returns (False, st') \<and> sess_Read Map.empty [] True (\<lambda>_. NUL) [] [Data ''x''] st' = Blocks"
proof -
  let ?st = "((fst example_session)\<lparr>rbuf_len := 1\<rparr>, snd example_session)"
  have f: "rbuf (fst ?st) = Some (replicate 4096 NUL)" "rbuf_len (fst ?st) \<noteq> 0" "\<not> in_lock (fst ?st)"
    using example_session_in by simp_all
  from calloc_failure_deadlocks[OF f, of zero_basic "\<lambda>_. True" Map.empty "[]" True "\<lambda>_. NUL" "[]" "[Data ''x'']" True True]
  show ?thesis by blast
qed

section \<open>Negative return values\<close>

text \<open>What one Read of an SSL session does with one answer, when nothing has to be reallocated.\<close>

lemma ssl_read_step:
  assumes "rbuf (fst st) = Some mem" "\<not> in_lock (fst st)" "rbuf_size (fst st) = int (length mem)"
    "rbuf_len (fst st) = int n" "n < length mem" "ssl (s_conn (fst st)) = Some s"
    "fd_of (s_ip (s_conn (fst st))) (gw (snd st)) = Some fd" "\<not> s_event st"
  shows "ans_ret a < 0 \<Longrightarrow> ans_code a s = WANT_READ \<Longrightarrow>
      sess_Read ntop ptr alloc junk (a # script) evs st
      = Returns (ans_ret a, Some False, script, evs, (fst st)\<lparr>rbuf_len := int n + ans_ret a\<rparr>, snd st)"
    "0 < ans_ret a \<Longrightarrow> ans_data a = d \<Longrightarrow> d \<noteq> [] \<Longrightarrow> n + length d < length mem \<Longrightarrow> length mem < 2 ^ 31 \<Longrightarrow>
      sess_Read ntop ptr alloc junk (a # script) evs st
      = Returns (int (length d), Some False, script, evs,
          (fst st)\<lparr>rbuf := Some (take n mem @ d @ drop (n + length d) mem), rbuf_len := int (n + length d)\<rparr>, snd st)"
  using assms to_int_id[of "int (length mem) - int n"]
  by (auto simp: sess_Read_def lock_in_def ssl_Read_def Let_def read_error_def mem_put_def put_conn_def s_event_def
      unlock_in_def)

lemma ssl_read_below_start:
  assumes "rbuf (fst st) = Some mem" "\<not> in_lock (fst st)" "rbuf_size (fst st) = int (length mem)"
    "rbuf_len (fst st) < 0" "ssl (s_conn (fst st)) = Some s" "fd_of (s_ip (s_conn (fst st))) (gw (snd st)) = Some fd"
    "0 < ans_ret b" "ans_data b \<noteq> []" "int (length mem) - rbuf_len (fst st) < 2 ^ 31"
  shows "sess_Read ntop ptr alloc junk [b] evs st = Undefined"
  using assms to_int_id[of "int (length mem) - rbuf_len (fst st)"]
  by (auto simp: sess_Read_def lock_in_def ssl_Read_def Let_def mem_put_def)

text \<open>
  C25. A Read that would block loses a byte: on a non-blocking SSL session, an SSL_read that only has to
  wait returns -1, and Read adds that to the length of the buffer without an error. The next data then
  overwrite the last byte received, or, when the buffer was empty, are written before its start. The
  buffer is smaller than 2 GiB, as the count that Read asks for is cast to an int.
\<close>

theorem would_block_loses_byte:
  assumes "rbuf (fst st) = Some mem" "\<not> in_lock (fst st)" "rbuf_size (fst st) = int (length mem)"
    "rbuf_len (fst st) = int n" "n < length mem" "ssl (s_conn (fst st)) = Some s"
    "fd_of (s_ip (s_conn (fst st))) (gw (snd st)) = Some fd" "\<not> s_event st"
    "ans_ret a = - 1" "ans_code a s = WANT_READ" "0 < ans_ret b" "ans_data b = d" "d \<noteq> []" "n + length d \<le> length mem"
    "length mem < 2 ^ 31 - 1"
  shows "\<exists>st1. sess_Read ntop ptr alloc junk [a, b] evs st = Returns (- 1, Some False, [b], evs, st1) \<and> \<not> s_event st1 \<and>
    (if n = 0 then sess_Read ntop ptr alloc junk [b] evs st1 = Undefined
     else \<exists>st2 mem'. sess_Read ntop ptr alloc junk [b] evs st1 = Returns (int (length d), Some False, [], evs, st2)
       \<and> rbuf (fst st2) = Some mem' \<and> rbuf_len (fst st2) = int (n - 1 + length d)
       \<and> take (n - 1 + length d) mem' = take (n - 1) mem @ d)"
proof -
  let ?st1 = "((fst st)\<lparr>rbuf_len := int n + ans_ret a\<rparr>, snd st)"
  have r: "sess_Read ntop ptr alloc junk [a, b] evs st = Returns (- 1, Some False, [b], evs, ?st1)"
    using ssl_read_step(1)[OF assms(1-8) _ assms(10)] assms(9) by simp
  have e: "\<not> s_event ?st1" using assms(8) by (simp add: s_event_def)
  show ?thesis
  proof (cases "n = 0")
    case True
    then have "sess_Read ntop ptr alloc junk [b] evs ?st1 = Undefined"
      using ssl_read_below_start[of ?st1 mem s fd b] assms by simp
    with r e True show ?thesis by auto
  next
    case False
    then have n: "int n - 1 = int (n - 1)" "n - 1 < length mem" "n - 1 + length d < length mem" using assms(5,14) by auto
    have st1: "rbuf (fst ?st1) = Some mem" "\<not> in_lock (fst ?st1)" "rbuf_size (fst ?st1) = int (length mem)"
        "ssl (s_conn (fst ?st1)) = Some s" "fd_of (s_ip (s_conn (fst ?st1))) (gw (snd ?st1)) = Some fd"
      using assms(1-3,6,7) by simp_all
    have len: "rbuf_len (fst ?st1) = int (n - 1)" using False assms(9) by simp
    have "sess_Read ntop ptr alloc junk [b] evs ?st1 = Returns (int (length d), Some False, [], evs,
        (fst ?st1)\<lparr>rbuf := Some (take (n - 1) mem @ d @ drop (n - 1 + length d) mem), rbuf_len := int (n - 1 + length d)\<rparr>, snd ?st1)"
      by (rule ssl_read_step(2)[OF st1(1-3) len n(2) st1(4,5) e assms(11-13) n(3)]) (use assms(15) in simp)
    moreover have "take (n - 1 + length d) (take (n - 1) mem @ d @ drop (n - 1 + length d) mem) = take (n - 1) mem @ d"
      using n by (simp add: min_absorb1)
    ultimately show ?thesis using r e False by auto
  qed
qed

definition ssl_session :: sess_st where
  "ssl_session = (let s = fst example_session in
     (s\<lparr>s_conn := (s_conn s)\<lparr>ssl := Some 5\<rparr>, rbuf := Some (''GE'' @ replicate 4094 NUL), rbuf_len := 2\<rparr>, snd example_session))"

lemma ssl_session_facts:
  "rbuf (fst ssl_session) = Some (''GE'' @ replicate 4094 NUL)" "\<not> in_lock (fst ssl_session)" "rbuf_size (fst ssl_session) = 4096"
  "rbuf_len (fst ssl_session) = int 2" "ssl (s_conn (fst ssl_session)) = Some 5"
  "fd_of (s_ip (s_conn (fst ssl_session))) (gw (snd ssl_session)) = Some DESCRIPTOR_NULL" "\<not> s_event ssl_session"
  by (simp_all add: ssl_session_def example_session_def sess_Init_def TCPSession_def SSLConn_def File_def TCPConn_def
      IPComm_def new_descriptor_def kDefaultBufSize_def Let_def fd_of_def s_event_def example_world_def start_world_def)

definition waiting :: ssl_answer where
  "waiting = \<lparr>ans_ret = - 1, ans_data = [], ans_code = (\<lambda>_. WANT_READ), ans_queue = False, ans_text = [], ans_errno = []\<rparr>"

definition bringing :: "string \<Rightarrow> ssl_answer" where
  "bringing d = \<lparr>ans_ret = int (length d), ans_data = d, ans_code = (\<lambda>_. SSL_OTHER), ans_queue = False, ans_text = [], ans_errno = []\<rparr>"

theorem would_block_loses_byte_witness:
  "\<exists>st1 st2 mem'. sess_Read Map.empty [] True (\<lambda>_. NUL) [waiting, bringing ''T /''] [] ssl_session
      = Returns (- 1, Some False, [bringing ''T /''], [], st1)
    \<and> sess_Read Map.empty [] True (\<lambda>_. NUL) [bringing ''T /''] [] st1 = Returns (3, Some False, [], [], st2)
    \<and> rbuf (fst st2) = Some mem' \<and> take 4 mem' = ''GT /''"
proof -
  note f = ssl_session_facts
  have sz: "rbuf_size (fst ssl_session) = int (length (''GE'' @ replicate 4094 NUL))" using f(3) by simp
  have r: "ans_ret waiting = - 1" "ans_code waiting 5 = WANT_READ" "0 < ans_ret (bringing ''T /'')"
      "ans_data (bringing ''T /'') = ''T /''" "''T /'' \<noteq> []"
    by (simp_all add: waiting_def bringing_def)
  have l: "2 < length (''GE'' @ replicate 4094 NUL)" "2 + length ''T /'' \<le> length (''GE'' @ replicate 4094 NUL)"
      "length (''GE'' @ replicate 4094 NUL) < 2 ^ 31 - 1" "length ''T /'' = 3" "take (2 - 1) (''GE'' @ replicate 4094 NUL) = ''G''"
    by simp_all
  from would_block_loses_byte[OF f(1,2) sz f(4) l(1) f(5-7) r l(2,3), of Map.empty "[]" True "\<lambda>_. NUL" "[]", unfolded l(4,5)]
  show ?thesis by auto
qed

section \<open>A negative length\<close>

lemma ssize_of_long:
  assumes "LONG_MIN \<le> x" "x \<le> LONG_MAX"
  shows "to_ssize_t (to_size_t x) = x"
proof -
  have "int (to_size_t x) = take_bit 64 x" by (simp add: to_size_t_def take_bit_eq_mod)
  then have "to_ssize_t (to_size_t x) = signed_take_bit 63 x" by (simp add: to_ssize_t_def signed_take_bit_take_bit)
  then show ?thesis using assms by (simp add: signed_take_bit_int_eq_self LONG_MIN_def LONG_MAX_def)
qed

lemma strtol_bounds: "LONG_MIN \<le> strtol 10 s \<and> strtol 10 s \<le> LONG_MAX"
  by (auto simp: strtol_def Let_def LONG_MIN_def LONG_MAX_def split: prod.splits)

lemma Clear_negative:
  assumes "rbuf (fst st) = Some mem" "\<not> in_lock (fst st)" "mi_storage (rpending (fst st)) = SESSION_USE_MEM"
    "mi_body_len (rpending (fst st)) < 0" "0 \<le> rbuf_len (fst st)"
  shows "ClearIncomingMsg st = Undefined"
  using assms by (simp add: ClearIncomingMsg_def lock_in_def ShiftRbuf_def Let_def mem_move_def mem_get_def)

text \<open>
  C23. A peer can make a session read outside its buffer: a well-formed request whose Content-Length is
  below zero is accepted without an error and counts as complete at once, and ClearIncomingMsg then
  moves memory that starts before the buffer.
\<close>

theorem negative_length_undefined:
  assumes "http_method h \<in> set methods" "wf_url URL_PORT_NULL (uri h)" "list_all wf_hdr (msg_hdrs h)"
    "msg_type h = REQUEST" "major h = 1" "minor h = 1" "status_code h = 0"
    "length (request_text h) < SCRATCH_BUF_SIZE" "body \<noteq> []" "length body < 2 ^ 60" "NUL \<in> set pad"
    "rbuf (fst st) = Some (request_text h @ body @ pad)" "rbuf_len (fst st) = int (length (request_text h) + length body)"
    "mtype (rhdr (fst st)) = TYPE_HTTP" "\<not> in_lock (fst st)" "\<not> s_event st"
    "find_hdr MIME_CONTENT_LENGTH (msg_hdrs h) = Some m" "strtol 10 (field_value m) < 0"
  shows "\<exists>st'. InitIncomingMsg pb alloc True st = Returns (True, st') \<and> \<not> s_event st'
    \<and> IsIncomingMsgComplete (fst st') \<and> ClearIncomingMsg st' = Undefined"
proof -
  have len: "to_ssize_t (msg_len h) = strtol 10 (field_value m)"
    using assms(17) ssize_of_long strtol_bounds by (simp add: msg_len_def)
  obtain st' mem where st': "InitIncomingMsg pb alloc True st = Returns (True, st')" "\<not> s_event st'" "\<not> in_lock (fst st')"
      "rbuf (fst st') = Some mem" "rbuf_len (fst st') = int (length body)"
      "mi_storage (rpending (fst st')) = SESSION_USE_MEM" "mi_body_len (rpending (fst st')) = to_ssize_t (msg_len h)"
      "IsIncomingMsgComplete (fst st') \<longleftrightarrow> to_ssize_t (msg_len h) \<le> int (length body)"
    using InitIncomingMsg_request[OF assms(1-16), of pb alloc] by blast
  moreover have "ClearIncomingMsg st' = Undefined"
    by (rule Clear_negative[OF st'(4,3,6)]) (use st'(5,7) len assms(18) in simp_all)
  ultimately show ?thesis using len assms(18) by auto
qed

definition negative_request :: http where
  "negative_request = sample_request\<lparr>msg_hdrs := [\<lparr>field_name = ''Content-Length'', field_value = ''-5'', parameters = []\<rparr>]\<rparr>"

lemma negative_request_facts:
  "http_method negative_request \<in> set methods" "wf_url URL_PORT_NULL (uri negative_request)"
  "list_all wf_hdr (msg_hdrs negative_request)" "msg_type negative_request = REQUEST" "major negative_request = 1"
  "minor negative_request = 1" "status_code negative_request = 0" "length (request_text negative_request) < SCRATCH_BUF_SIZE"
  "find_hdr MIME_CONTENT_LENGTH (msg_hdrs negative_request)
     = Some \<lparr>field_name = ''Content-Length'', field_value = ''-5'', parameters = []\<rparr>"
  "strtol 10 ''-5'' < 0"
proof -
  show "length (request_text negative_request) < SCRATCH_BUF_SIZE"
    by (simp add: negative_request_def sample_request_def request_text_def request_line_def method_text_def method_names_def
      POST_def uri_text_def authority_text_def abs_path_text_def URL_PORT_NULL_def show_nat.simps http_1_1_def hdr_text_def
      c_str_def SCRATCH_BUF_SIZE_def)
  show "find_hdr MIME_CONTENT_LENGTH (msg_hdrs negative_request)
      = Some \<lparr>field_name = ''Content-Length'', field_value = ''-5'', parameters = []\<rparr>"
    by (simp add: negative_request_def same_name_iff MIME_CONTENT_LENGTH_def c_str_def)
  show "strtol 10 ''-5'' < 0"
    by (simp add: strtol_def split_sign_def strip_0x_def isspace_def LONG_MAX_def LONG_MIN_def digit_of_def c_str_def)
  show "list_all wf_hdr (msg_hdrs negative_request)"
    by (simp add: negative_request_def wf_hdr_def value_byte_def clean_def is_str_tainted_def isspace_def c_str_def)
qed (use sample_request_incoming in \<open>simp_all add: negative_request_def\<close>)

theorem negative_length_undefined_witness:
  "\<exists>st'. InitIncomingMsg zero_basic (\<lambda>_. True) True
      ((fst example_session)\<lparr>rbuf := Some (request_text negative_request @ ''x'' @ [NUL]),
         rbuf_len := int (length (request_text negative_request) + 1)\<rparr>, snd example_session) = Returns (True, st')
    \<and> IsIncomingMsgComplete (fst st') \<and> ClearIncomingMsg st' = Undefined"
proof -
  let ?st = "((fst example_session)\<lparr>rbuf := Some (request_text negative_request @ ''x'' @ [NUL]),
         rbuf_len := int (length (request_text negative_request) + 1)\<rparr>, snd example_session)"
  have st: "rbuf (fst ?st) = Some (request_text negative_request @ ''x'' @ [NUL])"
      "rbuf_len (fst ?st) = int (length (request_text negative_request) + length ''x'')"
      "mtype (rhdr (fst ?st)) = TYPE_HTTP" "\<not> in_lock (fst ?st)" "\<not> s_event ?st"
    using example_session_in by (simp_all add: s_event_def)
  from negative_length_undefined[OF negative_request_facts(1-8) _ _ _ st negative_request_facts(9), of zero_basic "\<lambda>_. True"]
  show ?thesis using negative_request_facts(10) by auto
qed

section \<open>The second message\<close>

lemma ShiftRbuf_nothing:
  assumes "rbuf (fst st) = Some mem" "0 \<le> rbuf_len (fst st)" "rbuf_len (fst st) \<le> int (length mem)"
  shows "ShiftRbuf 0 0 st = Returns st"
proof -
  obtain s g where "st = (s, g)" by (cases st)
  with assms show ?thesis
    by (auto simp: ShiftRbuf_def Let_def mem_move_def mem_get_def mem_put_def)
qed

lemma Clear_releases:
  assumes "ClearIncomingMsg st = Returns st1" "rbuf (fst st1) \<noteq> None"
  shows "\<not> in_lock (fst st1)" "mtype (rhdr (fst st1)) = TYPE_NONE"
  using assms
  by (auto simp: ClearIncomingMsg_def lock_in_def unlock_in_def s_fail_def mh_clear_def elim!: bind_sys.elims
      split: if_splits)

text \<open>
  C24. A session receives one message: ClearIncomingMsg resets the type of the session's header to
  TYPE_NONE, and when more data are in the read buffer, the next InitIncomingMsg records the error of an
  unknown type, but returns true, and takes nothing from the buffer: the caller gets an empty message
  that counts as complete.
\<close>

theorem second_message_not_parsed:
  assumes "ClearIncomingMsg st = Returns st1" "rbuf (fst st1) = Some mem" "0 < rbuf_len (fst st1)"
    "rbuf_len (fst st1) \<le> int (length mem)"
  shows "\<exists>st2. InitIncomingMsg pb alloc True st1 = Returns (True, st2) \<and> s_event st2
    \<and> rbuf (fst st2) = Some mem \<and> rbuf_len (fst st2) = rbuf_len (fst st1) \<and> rhdr (fst st2) = rhdr (fst st1)
    \<and> mi_hdr_len (rpending (fst st2)) = 0 \<and> mi_body_len (rpending (fst st2)) = 0 \<and> IsIncomingMsgComplete (fst st2)"
proof -
  note c = Clear_releases[OF assms(1)]
  have t: "\<not> in_lock (fst st1)" "mtype (rhdr (fst st1)) = TYPE_NONE" using c assms(2) by simp_all
  define e where "e = (incoming_env st1)\<lparr>env_err := error_Init EX_DATAERR
    (Some (''MsgHdr::InitFromBuf(): unknown type: '' @ show_nat (unat (mtype (rhdr (fst st1)))) @ ''.''))
    (w_err (gw (snd st1)))\<rparr>"
  have parse: "mh_InitFromBuf pb alloc (Some mem) (to_size_t (rbuf_len (fst st1))) (incoming_env st1) = Go e None"
    using t(2) by (simp add: mh_InitFromBuf_def Let_def e_def incoming_env_def)
  define st2 where "st2 = put_env e ((fst st1)\<lparr>in_lock := True\<rparr>, snd st1)"
  have st2: "rbuf (fst st2) = Some mem" "rbuf_len (fst st2) = rbuf_len (fst st1)" "rhdr (fst st2) = rhdr (fst st1)" "s_event st2"
    using assms(2) by (simp_all add: st2_def put_env_def e_def incoming_env_def s_event_def)
  have body: "incoming_body 0 (env_chunk e) st2 = Returns st2"
    using ShiftRbuf_nothing[of st2 mem] st2(1,2) assms(3,4)
    by (simp add: incoming_body_def e_def incoming_env_def kDefaultBufSize_def c_str_def)
  let ?st3 = "((fst st2)\<lparr>rpending := (rpending (fst st2))\<lparr>mi_initialized := True, mi_msg_id := msg_id (rhdr (fst st2)),
     mi_hdr_len := 0, mi_body_len := 0, mi_buf_offset := 0, mi_file_offset := 0, mi_storage := SESSION_USE_MEM\<rparr>\<rparr>, snd st2)"
  have info: "incoming_info st2 = Returns ?st3"
    using t(2) st2(3) by (simp add: incoming_info_def mh_hdr_len_def mh_body_len_def to_ssize_t_def)
  have "InitIncomingMsg pb alloc True st1 = Returns (True, unlock_in ?st3)"
    using assms(2,3) t(1) parse body info
    by (simp add: InitIncomingMsg_def lock_in_def incoming_env_def st2_def[symmetric])
  with st2 assms(3) show ?thesis
    by (intro exI[of _ "unlock_in ?st3"]) (simp add: unlock_in_def s_event_def IsIncomingMsgComplete_def)
qed

text \<open>A body of one byte is cleared, the first byte of the next message is in the buffer.\<close>

definition two_messages :: sess_st where
  "two_messages = ((fst example_session)\<lparr>rbuf := Some (''xP'' @ [NUL]), rbuf_len := 2,
     rpending := new_info SESSION_USE_MEM 1 3 1\<rparr>, snd example_session)"

lemma two_messages_cleared:
  "\<exists>st1. ClearIncomingMsg two_messages = Returns st1 \<and> rbuf (fst st1) = Some (''PP'' @ [NUL]) \<and> rbuf_len (fst st1) = 1"
proof -
  have m: "mem_move (''xP'' @ [NUL]) 0 1 1 = Some (''PP'' @ [NUL])"
    by (simp add: mem_move_def mem_get_def mem_put_def)
  show ?thesis
    using example_session_in(2) m
    by (simp add: two_messages_def ClearIncomingMsg_def lock_in_def unlock_in_def ShiftRbuf_def Let_def new_info_def)
qed

theorem second_message_not_parsed_witness:
  "\<exists>st1 st2. ClearIncomingMsg two_messages = Returns st1 \<and> rbuf_len (fst st1) = 1
    \<and> InitIncomingMsg zero_basic (\<lambda>_. True) True st1 = Returns (True, st2) \<and> s_event st2
    \<and> IsIncomingMsgComplete (fst st2) \<and> rbuf_len (fst st2) = 1"
proof -
  obtain st1 where st1: "ClearIncomingMsg two_messages = Returns st1" "rbuf (fst st1) = Some (''PP'' @ [NUL])"
      "rbuf_len (fst st1) = 1" using two_messages_cleared by blast
  from second_message_not_parsed[OF st1(1,2), of zero_basic "\<lambda>_. True"] st1 show ?thesis by auto
qed

end
