(* ===== verification/Session_File.thy ===== *)
theory Session_File
  imports Session_Errors Session_Outgoing
begin

text \<open>
  Messages whose body is a file, from AddMsgFile on. The first Write sends the header, opens the file and
  sends its first chunk, each further Write the next chunk: header and file go out whole when the kernel
  takes every piece whole, and part of the file is lost when it does not.
\<close>

section \<open>A chunk of a file\<close>

text \<open>A session whose first message is a file, open, with the header sent, on a socket that does not block.\<close>

definition sending_file :: "nat \<Rightarrow> nat \<Rightarrow> msg_info \<Rightarrow> msg_info list \<Rightarrow> sess_st \<Rightarrow> bool" where
  "sending_file off len m ms st \<longleftrightarrow> (let s = fst st; w = gw (snd st) in
     \<not> out_lock s \<and> wbuf s \<noteq> None \<and> wpending s = m # ms \<and> mi_storage m = SESSION_USE_DISC \<and> mi_buf_offset m = mi_hdr_len m
     \<and> mi_file_offset m = int off \<and> mi_body_len m = int len \<and> connected (s_tcp (s_conn s)) \<and> ssl (s_conn s) = None
     \<and> \<not> blocking_flag (s_ip (s_conn s)) \<and> fd_of (s_ip (s_conn s)) w \<noteq> None \<and> \<not> s_event st
     \<and> (\<exists>f fs. wfiles s = f # fs \<and> file_IsOpen (f, w) = Some True))"

lemma file_print_open: "file_IsOpen (f, w) = Some True \<Longrightarrow> \<exists>t. file_print show_ptr (f, w) = Some t"
  by (auto simp: file_IsOpen_def file_print_def Let_def)

lemma sys_read_data: "0 < n \<Longrightarrow> s \<noteq> [] \<Longrightarrow>
    sys_read n [Data s] = Returns (Inr (take n s), if drop n s = [] then [] else [Data (drop n s)])"
  by (cases n) auto

text \<open>A chunk is read and sent, with the lock held; what the header's Write sent before comes first.\<close>

lemma write_chunk_step:
  assumes "sending_file off len m ms st" "off < len" "file_rest \<noteq> []" "a = min FILE_CHUNK_SIZE (len - off)"
    "write_loop False (take a file_rest) 0 [] evs = Returns (n, take n (take a file_rest), None, evs')"
  shows "write_chunk logged ntop show_ptr r wire script evs [Data file_rest] ((fst st)\<lparr>out_lock := True\<rparr>, snd st)
    = Returns ((int n, wire @ take n (take a file_rest), script, evs',
        (fst st)\<lparr>wpending := m\<lparr>mi_file_offset := int (off + n)\<rparr> # ms\<rparr>, snd st),
        if drop a file_rest = [] then [] else [Data (drop a file_rest)])"
proof -
  obtain f fs fd where s: "\<not> out_lock (fst st)" "wpending (fst st) = m # ms" "mi_file_offset m = int off" "mi_body_len m = int len"
      "connected (s_tcp (s_conn (fst st)))" "ssl (s_conn (fst st)) = None" "\<not> blocking_flag (s_ip (s_conn (fst st)))"
      "fd_of (s_ip (s_conn (fst st))) (gw (snd st)) = Some fd" "\<not> event_flag (w_err (gw (snd st)))"
      "wfiles (fst st) = f # fs" "file_IsOpen (f, gw (snd st)) = Some True"
    using assms(1) by (auto simp: sending_file_def Let_def s_event_def)
  obtain t where t: "file_print show_ptr (f, gw (snd st)) = Some t" using file_print_open[OF s(11)] by blast
  have a: "0 < a" "(if int FILE_CHUNK_SIZE < int len - int off then int FILE_CHUNK_SIZE else int len - int off) = int a"
    using assms(2,4) by (auto simp: FILE_CHUNK_SIZE_def)
  define d where "d = take a file_rest"
  have rd: "d \<noteq> []" "sys_read a [Data file_rest] = Returns (Inr d, if drop a file_rest = [] then [] else [Data (drop a file_rest)])"
    using sys_read_data[OF a(1) assms(3)] a(1) assms(3) by (simp_all add: d_def)
  have u: "(fst st)\<lparr>wpending := ws, out_lock := False\<rparr> = (fst st)\<lparr>wpending := ws\<rparr>" for ws using s(1) by simp
  show ?thesis
    using s t a rd assms(5) u unfolding d_def[symmetric]
    by (simp add: write_chunk_def front_def Let_def ssl_Write_def tcp_Write_def put_conn_def s_event_def set_front_def
        unlock_out_def cong del: if_weak_cong)
qed

lemma disc_write_step:
  assumes "sending_file off len m ms st" "off < len" "file_rest \<noteq> []" "a = min FILE_CHUNK_SIZE (len - off)"
    "write_loop False (take a file_rest) 0 [] evs = Returns (n, take n (take a file_rest), None, evs')"
  shows "sess_Write logged ntop ptr show_ptr opn seek script evs [Data file_rest] st
    = Returns ((int n, take n (take a file_rest), script, evs',
        (fst st)\<lparr>wpending := m\<lparr>mi_file_offset := int (off + n)\<rparr> # ms\<rparr>, snd st),
        if drop a file_rest = [] then [] else [Data (drop a file_rest)])"
proof -
  obtain f fs wb where s: "\<not> out_lock (fst st)" "wbuf (fst st) = Some wb" "wpending (fst st) = m # ms"
      "mi_storage m = SESSION_USE_DISC" "mi_buf_offset m = mi_hdr_len m" "connected (s_tcp (s_conn (fst st)))"
      "wfiles (fst st) = f # fs" "file_IsOpen (f, gw (snd st)) = Some True"
    using assms(1) by (auto simp: sending_file_def Let_def)
  have m: "m\<lparr>mi_buf_offset := mi_hdr_len m\<rparr> = m" "SESSION_USE_DISC \<noteq> SESSION_USE_MEM" using s(5)
    by (metis msg_info.surjective msg_info.update_convs(7)) (simp add: SESSION_USE_DISC_def SESSION_USE_MEM_def)
  let ?st1 = "((fst st)\<lparr>out_lock := True\<rparr>, snd st)"
  have o: "open_front opn seek show_ptr ?st1 = Returns (True, ?st1)" using s(7,8) by (simp add: open_front_def)
  have sv: "(fst st)\<lparr>out_lock := True, wpending := m # ms\<rparr> = (fst st)\<lparr>out_lock := True\<rparr>" using s(3) by simp
  show ?thesis using s m(2) o write_chunk_step[OF assms, of logged ntop show_ptr 0 "[]" script]
    by (simp add: sess_Write_def lock_out_def write_disc_def front_def set_front_def Let_def m(1) sv)
qed

lemma sending_file_advance:
  assumes "sending_file off len m ms st"
  shows "sending_file off' len (m\<lparr>mi_file_offset := int off'\<rparr>) ms ((fst st)\<lparr>wpending := m\<lparr>mi_file_offset := int off'\<rparr> # ms\<rparr>, snd st)"
  using assms by (simp add: sending_file_def Let_def s_event_def)

section \<open>The header goes first\<close>

text \<open>
  A session whose first message is a file of which nothing has been sent: the header is in the write
  buffer and the file is not open.
\<close>

definition file_queued :: "string \<Rightarrow> nat \<Rightarrow> msg_info \<Rightarrow> msg_info list \<Rightarrow> sess_st \<Rightarrow> bool" where
  "file_queued hdr len m ms st \<longleftrightarrow> (let s = fst st; w = gw (snd st) in
     \<not> out_lock s \<and> wpending s = m # ms \<and> mi_storage m = SESSION_USE_DISC \<and> mi_hdr_len m = int (length hdr) \<and> hdr \<noteq> []
     \<and> mi_buf_offset m = 0 \<and> mi_file_offset m = 0 \<and> mi_body_len m = int len \<and> connected (s_tcp (s_conn s)) \<and> ssl (s_conn s) = None
     \<and> \<not> blocking_flag (s_ip (s_conn s)) \<and> fd_of (s_ip (s_conn s)) w \<noteq> None \<and> \<not> s_event st
     \<and> (\<exists>mem. wbuf s = Some mem \<and> length hdr \<le> length mem \<and> take (length hdr) mem = hdr)
     \<and> (\<exists>f fs c. wfiles s = f # fs \<and> named f \<and> heap w (fref f) = Some c \<and> dfp c = None \<and> dfd c = DESCRIPTOR_NULL))"

text \<open>The file is opened when the header is out; what is left of the first Write is the sending of a chunk.\<close>

definition opened_front :: "int \<Rightarrow> sess_st \<Rightarrow> sess_st" where
  "opened_front fd st = (let m = front (fst st); w = gw (snd st); r = fref (hd (wfiles (fst st))) in
     (set_front (m\<lparr>mi_buf_offset := mi_hdr_len m\<rparr>) (fst st),
      (snd st)\<lparr>gw := w\<lparr>heap := (heap w)(r := map_option (\<lambda>d. d\<lparr>dfd := fd\<rparr>) (heap w r))\<rparr>\<rparr>))"

lemma opened_front_sending:
  assumes "file_queued hdr len m ms st" "fd \<noteq> DESCRIPTOR_NULL"
  shows "sending_file 0 len (m\<lparr>mi_buf_offset := mi_hdr_len m\<rparr>) ms (opened_front fd st)"
proof -
  have "fd_of x (gw (snd (opened_front fd st))) \<noteq> None \<longleftrightarrow> fd_of x (gw (snd st)) \<noteq> None" for x
    by (simp add: opened_front_def fd_of_def Let_def)
  with assms show ?thesis
    by (auto simp: file_queued_def sending_file_def opened_front_def Let_def front_def set_front_def s_event_def file_IsOpen_def)
qed

lemma write_header_step:
  assumes "file_queued hdr len m ms st" "fd \<noteq> DESCRIPTOR_NULL" "length hdr \<le> j"
  shows "sess_Write logged ntop ptr show_ptr (Inr fd) None script (Takes j # evs) rds st
    = write_chunk logged ntop show_ptr (int (length hdr)) hdr script evs rds
        ((fst (opened_front fd st))\<lparr>out_lock := True\<rparr>, snd (opened_front fd st))"
proof -
  let ?n = "length hdr"
  obtain mem f fs c d where s: "\<not> out_lock (fst st)" "wpending (fst st) = m # ms" "mi_storage m = SESSION_USE_DISC"
      "mi_hdr_len m = int ?n" "mi_buf_offset m = 0" "connected (s_tcp (s_conn (fst st)))" "ssl (s_conn (fst st)) = None"
      "\<not> blocking_flag (s_ip (s_conn (fst st)))" "fd_of (s_ip (s_conn (fst st))) (gw (snd st)) = Some d"
      "\<not> event_flag (w_err (gw (snd st)))" "wbuf (fst st) = Some mem" "?n \<le> length mem" "take ?n mem = hdr" "0 < ?n"
      "wfiles (fst st) = f # fs" "named f" "heap (gw (snd st)) (fref f) = Some c" "dfp c = None" "dfd c = DESCRIPTOR_NULL"
    using assms(1) by (auto simp: file_queued_def Let_def s_event_def)
  have ne: "SESSION_USE_DISC \<noteq> SESSION_USE_MEM" "hdr \<noteq> []" using s(14) by (auto simp: SESSION_USE_DISC_def SESSION_USE_MEM_def)
  have loop: "write_loop False hdr 0 [] (Takes j # evs) = Returns (?n, hdr, None, evs)"
    using assms(3) ne(2) by (simp add: min_absorb2)
  let ?st1 = "((fst st)\<lparr>out_lock := True\<rparr>, snd st)"
  have send: "send_wbuf logged ntop 0 (int ?n) script (Takes j # evs) ?st1 = Returns (int ?n, hdr, script, evs, ?st1)"
    using s loop by (simp add: send_wbuf_def ssl_Write_def tcp_Write_def Let_def put_conn_def)
  let ?m = "m\<lparr>mi_buf_offset := int ?n\<rparr>"
  let ?st2 = "((fst st)\<lparr>out_lock := True, wpending := ?m # ms\<rparr>, snd st)"
  have "open_front (Inr fd) None show_ptr ?st2
      = Returns (True, (fst (opened_front fd st))\<lparr>out_lock := True\<rparr>, snd (opened_front fd st))"
    using s by (simp add: open_front_def Let_def file_IsOpen_def file_Open_def named_def upd_descriptor_def opened_front_def
        front_def set_front_def s_event_def)
  then show ?thesis using s ne send
    by (simp add: sess_Write_def lock_out_def write_disc_def front_def set_front_def Let_def s_event_def)
qed

section \<open>A file goes out\<close>

text \<open>A number of Writes, with what they put on the wire; write stands for the parameters of Write.\<close>

primrec file_writes :: "(rd_event list \<Rightarrow> sess_st \<Rightarrow> (write_result \<times> rd_event list) sys) \<Rightarrow> nat \<Rightarrow> sess_st \<Rightarrow> rd_event list
    \<Rightarrow> (string \<times> sess_st \<times> rd_event list) sys" where
  "file_writes write 0 st rds = Returns ([], st, rds)"
| "file_writes write (Suc k) st rds = bind_sys (file_writes write k st rds) (\<lambda>(sent, st1, rds1).
     bind_sys (write rds1 st1) (\<lambda>((n, bs, script', evs', st2), rds2). Returns (sent @ bs, st2, rds2)))"

definition left_to_read :: "string \<Rightarrow> rd_event list" where
  "left_to_read d = (if d = [] then [] else [Data d])"

text \<open>After k chunks: the first k chunks are on the wire behind pre, and the rest is left to read.\<close>

definition chunks_sent :: "string \<Rightarrow> string \<Rightarrow> nat \<Rightarrow> msg_info list \<Rightarrow> (string \<times> sess_st \<times> rd_event list) sys \<Rightarrow> bool" where
  "chunks_sent pre contents k ms r \<longleftrightarrow> (\<exists>st' m'. r = Returns (pre @ take (k * FILE_CHUNK_SIZE) contents, st',
       left_to_read (drop (k * FILE_CHUNK_SIZE) contents))
     \<and> sending_file (min (k * FILE_CHUNK_SIZE) (length contents)) (length contents) m' ms st')"

text \<open>One more chunk, written by a call that the kernel lets take it whole.\<close>

lemma next_chunk:
  assumes "sending_file off (length contents) m ms st" "off < length contents" "FILE_CHUNK_SIZE \<le> j"
  defines "a \<equiv> min FILE_CHUNK_SIZE (length contents - off)"
  shows "write_chunk logged ntop show_ptr r wire script (Takes j # evs) [Data (drop off contents)] ((fst st)\<lparr>out_lock := True\<rparr>, snd st)
      = Returns ((int a, wire @ take FILE_CHUNK_SIZE (drop off contents), script, evs,
          (fst st)\<lparr>wpending := m\<lparr>mi_file_offset := int (off + a)\<rparr> # ms\<rparr>, snd st), left_to_read (drop (off + FILE_CHUNK_SIZE) contents))"
    and "sess_Write logged ntop ptr show_ptr opn seek script (Takes j # evs) [Data (drop off contents)] st
      = Returns ((int a, take FILE_CHUNK_SIZE (drop off contents), script, evs,
          (fst st)\<lparr>wpending := m\<lparr>mi_file_offset := int (off + a)\<rparr> # ms\<rparr>, snd st), left_to_read (drop (off + FILE_CHUNK_SIZE) contents))"
    and "sending_file (min (off + FILE_CHUNK_SIZE) (length contents)) (length contents) (m\<lparr>mi_file_offset := int (off + a)\<rparr>) ms
      ((fst st)\<lparr>wpending := m\<lparr>mi_file_offset := int (off + a)\<rparr> # ms\<rparr>, snd st)"
proof -
  let ?C = FILE_CHUNK_SIZE
  define rest where "rest = drop off contents"
  have a: "0 < a" "a \<le> j" "length (take a rest) = a" "rest \<noteq> []" "min (off + ?C) (length contents) = off + a"
    using assms(2,3) by (auto simp: a_def rest_def FILE_CHUNK_SIZE_def)
  have r: "take ?C rest = take a rest" "drop ?C rest = drop a rest" "drop (off + ?C) contents = drop ?C rest"
    by (cases "?C \<le> length contents - off"; simp add: a_def rest_def min_def add.commute)+
  have loop: "write_loop False (take a rest) 0 [] (Takes j # evs) = Returns (a, take a (take a rest), None, evs)"
    using a(1-3) by (simp add: min_absorb1 min_absorb2)
  note step = assms(1,2) a(4) a_def[THEN meta_eq_to_obj_eq] loop
  show "write_chunk logged ntop show_ptr r wire script (Takes j # evs) [Data (drop off contents)] ((fst st)\<lparr>out_lock := True\<rparr>, snd st)
      = Returns ((int a, wire @ take FILE_CHUNK_SIZE (drop off contents), script, evs,
          (fst st)\<lparr>wpending := m\<lparr>mi_file_offset := int (off + a)\<rparr> # ms\<rparr>, snd st), left_to_read (drop (off + FILE_CHUNK_SIZE) contents))"
    using write_chunk_step[OF step] r unfolding rest_def[symmetric] by (simp add: left_to_read_def)
  show "sess_Write logged ntop ptr show_ptr opn seek script (Takes j # evs) [Data (drop off contents)] st
      = Returns ((int a, take FILE_CHUNK_SIZE (drop off contents), script, evs,
          (fst st)\<lparr>wpending := m\<lparr>mi_file_offset := int (off + a)\<rparr> # ms\<rparr>, snd st), left_to_read (drop (off + FILE_CHUNK_SIZE) contents))"
    using disc_write_step[OF step] r unfolding rest_def[symmetric] by (simp add: left_to_read_def)
  show "sending_file (min (off + FILE_CHUNK_SIZE) (length contents)) (length contents) (m\<lparr>mi_file_offset := int (off + a)\<rparr>) ms
      ((fst st)\<lparr>wpending := m\<lparr>mi_file_offset := int (off + a)\<rparr> # ms\<rparr>, snd st)"
    unfolding a(5) by (rule sending_file_advance[OF assms(1)])
qed

lemma file_writes_chunks:
  assumes "file_queued hdr (length contents) m ms st" "contents \<noteq> []" "FILE_CHUNK_SIZE \<le> j" "length hdr \<le> j" "fd \<noteq> DESCRIPTOR_NULL"
    "k * FILE_CHUNK_SIZE < length contents"
  shows "chunks_sent hdr contents (Suc k) ms (file_writes (\<lambda>rds st.
    sess_Write logged ntop ptr show_ptr (Inr fd) None script (Takes j # Takes j # evs) rds st) (Suc k) st [Data contents])"
  using assms(6)
proof (induction k)
  case 0
  have "0 < length contents" using assms(2) by simp
  note c = next_chunk[OF opened_front_sending[OF assms(1,5)] this assms(3)]
  show ?case unfolding chunks_sent_def using write_header_step[OF assms(1,5,4)] c(1,3) by (auto simp: left_to_read_def)
next
  case (Suc k)
  let ?C = FILE_CHUNK_SIZE and ?k = "Suc k"
  have off: "?k * ?C < length contents" "Suc ?k * ?C = ?k * ?C + ?C" "min (?k * ?C) (length contents) = ?k * ?C"
    using Suc.prems by simp_all
  have "k * ?C < length contents" using Suc.prems by simp
  from Suc.IH[OF this] obtain st1 m1 where st1:
    "file_writes (\<lambda>rds st. sess_Write logged ntop ptr show_ptr (Inr fd) None script (Takes j # Takes j # evs) rds st) ?k st [Data contents]
      = Returns (hdr @ take (?k * ?C) contents, st1, [Data (drop (?k * ?C) contents)])"
    "sending_file (?k * ?C) (length contents) m1 ms st1"
    unfolding chunks_sent_def off(3) using off(1) by (auto simp: left_to_read_def simp del: mult_Suc)
  note c = next_chunk[OF st1(2) off(1) assms(3)]
  show ?case unfolding chunks_sent_def off(2) file_writes.simps(2)[of _ ?k] st1(1)
    using c(2)[of logged ntop ptr show_ptr "Inr fd" None script "Takes j # evs"] c(3)
    by (simp add: take_add del: mult_Suc file_writes.simps) blast
qed

text \<open>A message with a file just handed to an empty queue.\<close>

lemma AddMsgFile_queued:
  assumes "out_inv (fst st0)" "wpending (fst st0) = []" "wfiles (fst st0) = []" "connected (s_tcp (s_conn (fst st0)))"
    "ssl (s_conn (fst st0)) = None" "\<not> blocking_flag (s_ip (s_conn (fst st0)))" "fd_of (s_ip (s_conn (fst st0))) (gw (snd st0)) \<noteq> None"
    "\<not> s_event st0" "named f" "heap (gw (snd st0)) (fref f) = Some c" "dfp c = None" "dfd c = DESCRIPTOR_NULL" "c_str h \<noteq> []"
    "AddMsgFile True junk (Some h) (int (length h)) f (int len) x st0 = Returns (True, st)"
  shows "file_queued h len (new_info SESSION_USE_DISC (msg_id x) (int (length h)) (int len)) [] st"
proof -
  let ?w = "gw (snd st0)" and ?m = "new_info SESSION_USE_DISC (msg_id x) (int (length h)) (int len)"
  let ?w1 = "?w\<lparr>heap := (heap ?w)(fref f \<mapsto> c\<lparr>dcnt := dcnt c + 1\<rparr>)\<rparr>"
  have ret: "retain (fref f) ?w = Some ?w1" using assms(10) by (simp add: retain_def)
  have "0 \<le> int len" by simp
  from AddMsgFile_ok[OF assms(1,13) this ret, of junk x] assms(2,3,14)
  have st: "out_inv (fst st)" "queued (fst st) = queued (fst st0) @ [h]" "wfiles (fst st) = [f]" "wpending (fst st) = [?m]"
      "snd st = (snd st0)\<lparr>gw := ?w1\<rparr>" "s_conn (fst st) = s_conn (fst st0)" by auto
  have w: "in_wbuf ?m = int (length h)" "h \<noteq> []" using assms(13)
    by (auto simp: in_wbuf_def new_info_def SESSION_USE_DISC_def SESSION_USE_MEM_def c_str_def)
  have q: "queued (fst st) = [h]" using st(2) assms(2) by (simp add: queued_def)
  obtain mem where mem: "wbuf (fst st) = Some mem" "length h \<le> length mem" "\<not> out_lock (fst st)"
    using st(1,4) w by (auto simp: out_inv_def)
  then have "take (length h) mem = h" using q st(4) w by (simp add: queued_def)
  moreover have "fd_of (s_ip (s_conn (fst st))) (gw (snd st)) \<noteq> None" using assms(7) st(5,6) by (auto simp: fd_of_def)
  ultimately show ?thesis using assms st mem w
    by (simp add: file_queued_def Let_def s_event_def) (simp add: new_info_def)
qed

text \<open>
  C17. A message with a file for a body goes out whole when the kernel keeps up: AddMsgFile puts it in an
  empty queue, and then the first Write sends the header, opens the file and sends its first chunk, and
  every further Write sends the next chunk. After k + 1 Writes the wire has the header and the first
  k + 1 chunks of the file, in order and without a gap, no error is set, and the message counts as
  sent exactly when all of the file has gone out.
\<close>

theorem file_goes_out:
  assumes "out_inv (fst st0)" "wpending (fst st0) = []" "wfiles (fst st0) = []" "connected (s_tcp (s_conn (fst st0)))"
    "ssl (s_conn (fst st0)) = None" "\<not> blocking_flag (s_ip (s_conn (fst st0)))" "fd_of (s_ip (s_conn (fst st0))) (gw (snd st0)) \<noteq> None"
    "\<not> s_event st0" "named f" "heap (gw (snd st0)) (fref f) = Some c" "dfp c = None" "dfd c = DESCRIPTOR_NULL" "c_str h \<noteq> []"
    "AddMsgFile True junk (Some h) (int (length h)) f (int (length contents)) x st0 = Returns (True, st)"
    "contents \<noteq> []" "FILE_CHUNK_SIZE \<le> j" "length h \<le> j" "fd \<noteq> DESCRIPTOR_NULL" "k * FILE_CHUNK_SIZE < length contents"
  shows "\<exists>st' rds'. file_writes (\<lambda>rds st. sess_Write logged ntop ptr show_ptr (Inr fd) None script (Takes j # Takes j # evs) rds st)
        (Suc k) st [Data contents] = Returns (h @ take (Suc k * FILE_CHUNK_SIZE) contents, st', rds')
    \<and> (IsOutgoingMsgSent (fst st') \<longleftrightarrow> length contents \<le> Suc k * FILE_CHUNK_SIZE) \<and> \<not> s_event st'"
proof -
  from file_writes_chunks[OF AddMsgFile_queued[OF assms(1-14)] assms(15-19), of logged ntop ptr show_ptr script evs]
  obtain st' m' where st': "file_writes (\<lambda>rds st. sess_Write logged ntop ptr show_ptr (Inr fd) None script (Takes j # Takes j # evs) rds st)
        (Suc k) st [Data contents] = Returns (h @ take (Suc k * FILE_CHUNK_SIZE) contents, st', left_to_read (drop (Suc k * FILE_CHUNK_SIZE) contents))"
      "sending_file (min (Suc k * FILE_CHUNK_SIZE) (length contents)) (length contents) m' [] st'"
    unfolding chunks_sent_def by blast
  have "IsOutgoingMsgSent (fst st') \<longleftrightarrow> length contents \<le> Suc k * FILE_CHUNK_SIZE" "\<not> s_event st'"
    using st'(2) assms(15) by (auto simp: sending_file_def Let_def IsOutgoingMsgSent_def front_def)
  with st'(1) show ?thesis by blast
qed

section \<open>A chunk taken in part\<close>

text \<open>
  C26. Parts of a file are lost: when the kernel takes only the first j bytes of a chunk of a file, the
  rest of the chunk has been read from the file and is not kept. The next Write goes on with the next
  chunk of the file while the offset counts only j, so the peer gets a body with a hole.
\<close>

theorem partial_file_send_skips:
  assumes "sending_file 0 (length contents) m ms st" "FILE_CHUNK_SIZE < length contents" "j < FILE_CHUNK_SIZE"
    "n = min FILE_CHUNK_SIZE (length contents - FILE_CHUNK_SIZE)" "n \<le> k"
  shows "\<exists>st1 st2 rds. sess_Write logged ntop ptr show_ptr opn seek script [Takes j, WrErr EAGAIN t] [Data contents] st
      = Returns ((int j, take j contents, script, [], st1), [Data (drop FILE_CHUNK_SIZE contents)])
    \<and> sess_Write logged ntop ptr show_ptr opn seek script [Takes k] [Data (drop FILE_CHUNK_SIZE contents)] st1
      = Returns ((int n, take n (drop FILE_CHUNK_SIZE contents), script, [], st2), rds)
    \<and> mi_file_offset (front (fst st2)) = int (j + n)"
proof -
  let ?C = FILE_CHUNK_SIZE
  let ?m1 = "m\<lparr>mi_file_offset := int (0 + j)\<rparr>"
  let ?st1 = "((fst st)\<lparr>wpending := ?m1 # ms\<rparr>, snd st)"
  have c: "0 < ?C" "contents \<noteq> []" "drop ?C contents \<noteq> []" "?C = min ?C (length contents - 0)"
    using assms(2) by (auto simp: FILE_CHUNK_SIZE_def)
  have l1: "write_loop False (take ?C contents) 0 [] [Takes j, WrErr EAGAIN t] = Returns (j, take j (take ?C contents), None, [])"
    using assms(2,3) by (simp add: min_absorb2)
  have w1: "sess_Write logged ntop ptr show_ptr opn seek script [Takes j, WrErr EAGAIN t] [Data contents] st
      = Returns ((int j, take j contents, script, [], ?st1), [Data (drop ?C contents)])"
    using disc_write_step[OF assms(1) _ c(2,4) l1] c(2,3) assms(2,3) by (simp add: min_absorb1)
  have i1: "sending_file (0 + j) (length contents) ?m1 ms ?st1" by (rule sending_file_advance[OF assms(1)])
  define a where "a = min ?C (length contents - (0 + j))"
  have d: "take a (drop ?C contents) = take n (drop ?C contents)" "n \<le> length (drop ?C contents)" "0 < n"
    using assms(2-4) c(1) by (auto simp: a_def min_def)
  have l2: "write_loop False (take a (drop ?C contents)) 0 [] [Takes k] = Returns (n, take n (take a (drop ?C contents)), None, [])"
    unfolding d(1) using d(2,3) assms(5) by (simp add: min_absorb1 min_absorb2)
  have "\<exists>st2 rds. sess_Write logged ntop ptr show_ptr opn seek script [Takes k] [Data (drop ?C contents)] ?st1
      = Returns ((int n, take n (drop ?C contents), script, [], st2), rds) \<and> mi_file_offset (front (fst st2)) = int (j + n)"
    using disc_write_step[OF i1 _ c(3) a_def l2, of logged ntop ptr show_ptr opn seek script] assms(2,3) d(1)
    by (simp add: front_def)
  with w1 show ?thesis by blast
qed

definition file_session :: sess_st where
  "file_session = (let s = fst sending_session; g = snd sending_session; f = rfile s in
     (s\<lparr>wfiles := [f], wpending := [(new_info SESSION_USE_DISC 1 3 5000)\<lparr>mi_buf_offset := 3\<rparr>]\<rparr>,
      g\<lparr>gw := (gw g)\<lparr>heap := (heap (gw g))(fref f \<mapsto> \<lparr>dfd = 3, dfp = None, dcnt = 1\<rparr>)\<rparr>\<rparr>))"

lemma file_session_ok:
  "sending_file 0 5000 ((new_info SESSION_USE_DISC 1 3 5000)\<lparr>mi_buf_offset := 3\<rparr>) [] file_session"
  by (simp add: file_session_def sending_session_def example_session_def sess_Init_def TCPSession_def SSLConn_def File_def
      TCPConn_def IPComm_def new_descriptor_def kDefaultBufSize_def Let_def new_info_def fd_of_def s_event_def
      example_world_def start_world_def sending_file_def file_IsOpen_def DESCRIPTOR_NULL_def)

text \<open>A connected session with nothing to send, beside a file that is not open.\<close>

definition idle_session :: sess_st where
  "idle_session = (let s = fst file_queue_session; c = s_conn s; t = s_tcp c in
     (s\<lparr>s_conn := c\<lparr>s_tcp := t\<lparr>connected := True, tc_ip := (tc_ip t)\<lparr>blocking_flag := False\<rparr>\<rparr>\<rparr>\<rparr>, (snd file_queue_session)
      \<lparr>gw := (gw (snd file_queue_session))\<lparr>heap := (heap (gw (snd example_session)))(7 \<mapsto> \<lparr>dfd = DESCRIPTOR_NULL, dfp = None, dcnt = 1\<rparr>)\<rparr>\<rparr>))"

lemma idle_session_facts:
  "out_inv (fst idle_session)" "wpending (fst idle_session) = []" "wfiles (fst idle_session) = []"
  "connected (s_tcp (s_conn (fst idle_session)))" "ssl (s_conn (fst idle_session)) = None"
  "\<not> blocking_flag (s_ip (s_conn (fst idle_session)))" "fd_of (s_ip (s_conn (fst idle_session))) (gw (snd idle_session)) \<noteq> None"
  "\<not> s_event idle_session" "named (shared_file\<lparr>fref := 7\<rparr>)"
  "heap (gw (snd idle_session)) (fref (shared_file\<lparr>fref := 7\<rparr>)) = Some \<lparr>dfd = DESCRIPTOR_NULL, dfp = None, dcnt = 1\<rparr>"
  by (simp_all add: idle_session_def file_queue_session_def sending_session_def example_session_def sess_Init_def TCPSession_def
      SSLConn_def File_def TCPConn_def IPComm_def new_descriptor_def out_inv_def kDefaultBufSize_def Let_def fd_of_def
      s_event_def example_world_def start_world_def shared_file_def named_def c_str_def)

theorem file_goes_out_witness:
  "\<exists>st st' rds'. AddMsgFile True (\<lambda>_. NUL) (Some ''hdr'') 3 (shared_file\<lparr>fref := 7\<rparr>) 5000 (MsgHdr TYPE_HTTP) idle_session = Returns (True, st)
    \<and> file_writes (\<lambda>rds st. sess_Write False Map.empty [] (\<lambda>_. []) (Inr 3) None [] (Takes 5000 # Takes 5000 # []) rds st) (Suc 1) st
        [Data (replicate 5000 (CHR ''a''))] = Returns (''hdr'' @ replicate 5000 (CHR ''a''), st', rds')
    \<and> IsOutgoingMsgSent (fst st') \<and> \<not> s_event st'"
proof -
  note s = idle_session_facts
  let ?f = "shared_file\<lparr>fref := 7\<rparr>" and ?c = "replicate 5000 (CHR ''a'')" and ?i = idle_session
  have l: "int (length ''hdr'') = 3" "int (length ?c) = 5000" by simp_all
  obtain w1 where "retain (fref ?f) (gw (snd ?i)) = Some w1" using s(10) by (simp add: retain_def)
  then obtain st where st: "AddMsgFile True (\<lambda>_. NUL) (Some ''hdr'') 3 ?f 5000 (MsgHdr TYPE_HTTP) ?i = Returns (True, st)"
    using AddMsgFile_ok[OF s(1), of "''hdr''" 5000 ?f w1 "\<lambda>_. NUL" "MsgHdr TYPE_HTTP"] unfolding l(1) by (auto simp: c_str_def)
  have n: "?c \<noteq> []" "FILE_CHUNK_SIZE \<le> 5000" "length ''hdr'' \<le> 5000" "(3 :: int) \<noteq> DESCRIPTOR_NULL" "1 * FILE_CHUNK_SIZE < length ?c"
      "take (Suc 1 * FILE_CHUNK_SIZE) ?c = ?c" "length ?c \<le> Suc 1 * FILE_CHUNK_SIZE" "c_str ''hdr'' \<noteq> []"
    by (simp_all add: FILE_CHUNK_SIZE_def DESCRIPTOR_NULL_def c_str_def)
  have "\<exists>st' rds'. file_writes (\<lambda>rds st. sess_Write False Map.empty [] (\<lambda>_. []) (Inr 3) None [] (Takes 5000 # Takes 5000 # []) rds st)
        (Suc 1) st [Data ?c] = Returns (''hdr'' @ ?c, st', rds') \<and> IsOutgoingMsgSent (fst st') \<and> \<not> s_event st'"
    using file_goes_out[OF s(1-10) _ _ n(8) _ n(1-5), unfolded l n(6), OF _ _ st] n(7) by simp
  with st show ?thesis by blast
qed

theorem partial_file_send_skips_witness:
  "\<exists>st1 st2 rds. sess_Write False Map.empty [] (\<lambda>_. []) (Inr 3) None [] [Takes 7, WrErr EAGAIN []]
        [Data (replicate 4096 (CHR ''a'') @ replicate 904 (CHR ''b''))] file_session
      = Returns ((7, replicate 7 (CHR ''a''), [], [], st1), [Data (replicate 904 (CHR ''b''))])
    \<and> sess_Write False Map.empty [] (\<lambda>_. []) (Inr 3) None [] [Takes 904] [Data (replicate 904 (CHR ''b''))] st1
      = Returns ((904, replicate 904 (CHR ''b''), [], [], st2), rds)"
proof -
  let ?c = "replicate 4096 (CHR ''a'') @ replicate 904 (CHR ''b'')"
  have l: "length ?c = 5000" "drop FILE_CHUNK_SIZE ?c = replicate 904 (CHR ''b'')" "take 7 ?c = replicate 7 (CHR ''a'')"
    by (simp_all add: FILE_CHUNK_SIZE_def)
  have s: "sending_file 0 (length ?c) ((new_info SESSION_USE_DISC 1 3 5000)\<lparr>mi_buf_offset := 3\<rparr>) [] file_session"
    unfolding l(1) by (rule file_session_ok)
  have n: "FILE_CHUNK_SIZE < length ?c" "7 < FILE_CHUNK_SIZE" "904 = min FILE_CHUNK_SIZE (length ?c - FILE_CHUNK_SIZE)"
      "904 \<le> (904 :: nat)" "take 904 (drop FILE_CHUNK_SIZE ?c) = replicate 904 (CHR ''b'')"
    unfolding l by (simp_all add: FILE_CHUNK_SIZE_def)
  from partial_file_send_skips[OF s n(1-4), of False Map.empty "[]" "\<lambda>_. []" "Inr 3" None "[]" "[]", unfolded n(5) l(2,3)]
  show ?thesis by auto
qed

end
