(* ===== verification/Session_Delivery.thy ===== *)
theory Session_Delivery
  imports Session_Incoming
begin

text \<open>
  A message from one session to another: added to the queue of the sender, sent by any run of Writes,
  read by any run of Reads of the receiver, and parsed there, over TCP or over an SSL connection. The
  theory composes the queue, the connection, the printer and the parser.
\<close>

section \<open>Sending\<close>

text \<open>One Write of a message of which nothing has been sent, to a kernel that takes some bytes at each call.\<close>

lemma sess_Write_complete:
  assumes "out_inv (fst st)" "wpending (fst st) = m # ms" "mi_storage m = SESSION_USE_MEM" "mi_buf_offset m = 0" "ssl (s_conn (fst st)) = None"
    "connected (s_tcp (s_conn (fst st)))" "fd_of (s_ip (s_conn (fst st))) (gw (snd st)) = Some fd" "\<not> s_event st"
    "nat (in_wbuf m) \<le> length evs" "list_all (\<lambda>ev. \<exists>k>0. ev = Takes k) evs" "evs \<noteq> []"
  shows "\<exists>evs'. sess_Write logged ntop ptr show_ptr opn seek script evs rds st
    = Returns ((in_wbuf m, hd (queued (fst st)), script, evs',
        (fst st)\<lparr>wpending := m\<lparr>mi_buf_offset := in_wbuf m\<rparr> # ms\<rparr>, snd st), rds)"
proof -
  obtain mem where mem: "wbuf (fst st) = Some mem" "\<not> out_lock (fst st)" "info_ok m"
      "int (nat (in_wbuf m) + wlen ms) \<le> int (length mem)"
    using assms(1,2) by (auto simp: out_inv_def)
  define n where "n = nat (in_wbuf m)"
  have m: "mi_storage m = SESSION_USE_MEM" "mi_hdr_len m + mi_body_len m = int n" "in_wbuf m = int n"
    using mem(3) assms(3) by (auto simp: n_def info_ok_def in_wbuf_def)
  have "n \<le> length mem" using mem(4) unfolding n_def[symmetric] by linarith
  then have len: "length (take n mem) = n" "\<not> length mem < n" by simp_all
  have q: "hd (queued (fst st)) = take n mem" using mem(1) assms(2) by (simp add: queued_def n_def)
  obtain evs' where l: "write_loop (blocking_flag (s_ip (s_conn (fst st)))) (take n mem) 0 [] evs
      = Returns (n, take n mem, None, evs')"
    using write_loop_completes[of evs "take n mem" 0 _ "[]"] len assms(9-11) by (auto simp: n_def)
  have t: "tcp_Write mem n evs (s_tcp (s_conn (fst st)), gw (snd st))
      = Returns (n, take n mem, evs', s_tcp (s_conn (fst st)), gw (snd st))"
    using l assms(7) len by (simp add: tcp_Write_def)
  have "(fst st)\<lparr>out_lock := False\<rparr> = fst st" using mem(2) by simp
  then show ?thesis using assms(2,4-6,8) mem m t q
    by (intro exI[of _ evs']) (simp add: sess_Write_def lock_out_def front_def write_mem_def send_wbuf_def ssl_Write_def Let_def
        put_conn_def unlock_out_def set_front_def s_event_def)
qed

lemma message_goes_out_aux:
  assumes "out_inv (fst st)" "wpending (fst st) = m # ms" "mi_storage m = SESSION_USE_MEM" "mi_buf_offset m = 0" "ssl (s_conn (fst st)) = None"
    "connected (s_tcp (s_conn (fst st)))" "fd_of (s_ip (s_conn (fst st))) (gw (snd st)) = Some fd" "\<not> s_event st"
    "length (hd (queued (fst st))) \<le> length evs" "list_all (\<lambda>ev. \<exists>k>0. ev = Takes k) evs" "evs \<noteq> []"
  shows "\<exists>evs' st'. sess_Write logged ntop ptr show_ptr opn seek script evs rds st
      = Returns ((int (length (hd (queued (fst st)))), hd (queued (fst st)), script, evs', st'), rds)
    \<and> IsOutgoingMsgSent (fst st') \<and> \<not> s_event st'"
proof -
  have len: "in_wbuf m = int (length (hd (queued (fst st))))" "mi_hdr_len m + mi_body_len m = in_wbuf m"
    using assms(1-3) by (auto simp: out_inv_def queued_def info_ok_def in_wbuf_def min_def)
  obtain evs' where w: "sess_Write logged ntop ptr show_ptr opn seek script evs rds st
    = Returns ((in_wbuf m, hd (queued (fst st)), script, evs',
        (fst st)\<lparr>wpending := m\<lparr>mi_buf_offset := in_wbuf m\<rparr> # ms\<rparr>, snd st), rds)"
    using sess_Write_complete[OF assms(1-8) _ assms(10,11), of logged ntop ptr show_ptr opn seek script rds] assms(9) len(1)
    by auto
  have "IsOutgoingMsgSent ((fst st)\<lparr>wpending := m\<lparr>mi_buf_offset := in_wbuf m\<rparr> # ms\<rparr>)"
    using len(2) by (simp add: IsOutgoingMsgSent_def front_def Let_def)
  with w show ?thesis using assms(8) by (auto simp: len(1) s_event_def)
qed

text \<open>
  C16. A message goes out: on a connected session over TCP without an error, when the first message of
  the queue is in memory and nothing of it has been sent, and the kernel takes at least one byte at each
  call, a script as long as the message is enough for one Write of the session to send the whole of the
  message, header and body; it returns the length, sets no error, and the message counts as sent.
\<close>

theorem message_goes_out:
  assumes "out_inv (fst st)" "wpending (fst st) = m # ms" "mi_storage m = SESSION_USE_MEM" "mi_buf_offset m = 0" "ssl (s_conn (fst st)) = None"
    "connected (s_tcp (s_conn (fst st)))" "fd_of (s_ip (s_conn (fst st))) (gw (snd st)) = Some fd" "\<not> s_event st"
    "length (hd (queued (fst st))) \<le> length evs" "list_all (\<lambda>ev. \<exists>k>0. ev = Takes k) evs" "evs \<noteq> []"
  shows "\<exists>evs' st'. sess_Write logged ntop ptr show_ptr opn seek script evs rds st
      = Returns ((int (length (hd (queued (fst st)))), hd (queued (fst st)), script, evs', st'), rds)
    \<and> IsOutgoingMsgSent (fst st') \<and> \<not> s_event st'"
  using message_goes_out_aux[OF assms] by blast

theorem message_goes_out_witness:
  "\<exists>evs' st'. sess_Write True Map.empty [] (\<lambda>_. []) (Inr 3) None [] (replicate 7 (Takes 1)) [] sending_session
      = Returns ((7, ''hdrbody'', [], evs', st'), []) \<and> IsOutgoingMsgSent (fst st')"
proof -
  note f = sending_session_facts
  have "mi_storage (new_info SESSION_USE_MEM 1 3 4) = SESSION_USE_MEM" "mi_buf_offset (new_info SESSION_USE_MEM 1 3 4) = 0"
    by (simp_all add: new_info_def)
  from message_goes_out[OF f(1,2) this f(4,5,7,8), of "replicate 7 (Takes 1)" True Map.empty "[]" "\<lambda>_. []" "Inr 3" None "[]" "[]"]
  show ?thesis by (auto simp: f(3) list_all_iff)
qed

section \<open>Receiving\<close>

text \<open>The bytes a script of reads has in store, and what one read takes of them.\<close>

fun ev_bytes :: "rd_event list \<Rightarrow> string" where
  "ev_bytes [] = []"
| "ev_bytes (Data s # evs) = s @ ev_bytes evs"
| "ev_bytes (_ # evs) = ev_bytes evs"

lemma sys_read_bytes: "sys_read n evs = Returns (res, evs') \<Longrightarrow>
    ev_bytes evs = (case res of Inr s \<Rightarrow> s | Inl _ \<Rightarrow> []) @ ev_bytes evs'"
  by (induction n evs rule: sys_read.induct) (auto split: if_splits simp flip: append_assoc)

lemma tcp_Read_bytes:
  assumes "tcp_Read n evs st = Returns (r, b, eof, evs', st')" "\<not> event_flag (w_err (snd st'))"
  shows "r = int (length b) \<and> length b \<le> n \<and> ev_bytes evs = b @ ev_bytes evs' \<and> st' = st"
proof -
  obtain fd res where fd: "fd_of (tc_ip (fst st)) (snd st) = Some fd" and res: "sys_read n evs = Returns (res, evs')"
    using assms(1) by (cases "fd_of (tc_ip (fst st)) (snd st)"; cases "sys_read n evs")
      (auto simp: tcp_Read_def split: sum.splits if_splits)
  show ?thesis using assms fd res sys_read_bytes[OF res] sys_read_le[of n evs _ evs']
    by (auto simp: tcp_Read_def tcp_fail_def w_fail_def split: sum.splits if_splits prod.splits)
qed

text \<open>
  What a connection has in store for its reads: the bytes of the kernel's answers over TCP, the data of
  the answers of \<^verbatim>\<open>SSL_read(3)\<close> over SSL.
\<close>

definition in_bytes :: "nat option \<Rightarrow> ssl_answer list \<times> rd_event list \<Rightarrow> string" where
  "in_bytes s io = (if s = None then ev_bytes (snd io) else concat (map ans_data (fst io)))"

text \<open>A session that has read the bytes d into the zeros of its first buffer.\<close>

definition receiving :: "string \<Rightarrow> sess_st \<Rightarrow> bool" where
  "receiving d st \<longleftrightarrow> (let s = fst st; size = nat kDefaultBufSize in
     rbuf s = Some (d @ replicate (size - length d) NUL) \<and> rbuf_size s = kDefaultBufSize \<and> rbuf_len s = int (length d)
     \<and> length d < size \<and> \<not> in_lock s \<and> mtype (rhdr s) = TYPE_HTTP \<and> \<not> s_event st)"

lemma ResetRbuf_event: "s_event st \<Longrightarrow> holds (ResetRbuf st) s_event"
  unfolding ResetRbuf_def Let_def
  by (intro holds_intro)
     (auto simp: s_event_def s_fail_def w_fail_def on_rfile_def file_clear_def new_descriptor_def Let_def
        file_destroy_def[symmetric] dest: file_destroy_event split: option.splits intro!: holds_of_opt)

lemma tcp_Read_holds:
  "holds (tcp_Read n evs st) (\<lambda>(r, b, eof, evs', st'). \<not> event_flag (w_err (snd st')) \<longrightarrow>
     r = int (length b) \<and> length b \<le> n \<and> ev_bytes evs = b @ ev_bytes evs' \<and> st' = st)"
  by (cases "tcp_Read n evs st") (auto dest!: tcp_Read_bytes)

text \<open>A Read of a connection, of SSL when it gives data, takes the next bytes and leaves the connection as it was.\<close>

lemma ssl_Read_holds:
  assumes "length (in_bytes (ssl (fst st)) (script, evs)) \<le> n" "int n < 2 ^ 31"
  shows "holds (ssl_Read ntop n script evs st) (\<lambda>(r, b, eof, script', evs', st').
    \<not> ssl_event st' \<longrightarrow> ssl (fst st) = None \<or> 0 < r \<longrightarrow>
      r = int (length b) \<and> length b \<le> n \<and> st' = st
      \<and> in_bytes (ssl (fst st)) (script, evs) = b @ in_bytes (ssl (fst st)) (script', evs'))"
proof (cases "ssl (fst st)")
  case None
  obtain c e w where st: "st = (c, e, w)" by (cases st)
  show ?thesis unfolding ssl_Read_def Let_def None option.case
    by (intro holds_intro holds_mono[OF tcp_Read_holds]) (auto simp: st in_bytes_def ssl_event_def)
next
  case (Some x)
  show ?thesis
  proof (cases script)
    case Nil
    then show ?thesis using Some by (cases "fd_of (s_ip (fst st)) (snd (snd st))") (simp_all add: ssl_Read_def Let_def)
  next
    case (Cons a rest)
    have l: "nat (to_int (int n)) = n" "take n (ans_data a) = ans_data a" "length (ans_data a) \<le> n"
      using assms Some Cons to_int_id[of "int n"] by (simp_all add: in_bytes_def)
    show ?thesis unfolding ssl_Read_def Let_def Some Cons
      by (auto simp: in_bytes_def l split: option.splits ssl_code.splits intro!: holds_intro holds_any[where r = "ssl_Shutdown _ _ _ _"])
  qed
qed

lemma receiving_read_holds:
  assumes "receiving d st" "length d + length (in_bytes (ssl (s_conn (fst st))) (script, evs)) < nat kDefaultBufSize"
  shows "holds (sess_Read ntop ptr alloc junk script evs st)
    (\<lambda>(r, eof, script', evs', st'). \<not> s_event st' \<longrightarrow> ssl (s_conn (fst st)) = None \<or> 0 < r \<longrightarrow>
      (\<exists>b. receiving (d @ b) st' \<and> ssl (s_conn (fst st')) = ssl (s_conn (fst st))
        \<and> in_bytes (ssl (s_conn (fst st))) (script, evs) = b @ in_bytes (ssl (s_conn (fst st))) (script', evs')))"
proof -
  define N where "N = nat kDefaultBufSize"
  let ?B = "in_bytes (ssl (s_conn (fst st)))"
  let ?mem = "d @ replicate (N - length d) NUL"
  have s: "rbuf (fst st) = Some ?mem" "rbuf_size (fst st) = int N" "rbuf_len (fst st) = int (length d)" "length d < N"
      "\<not> in_lock (fst st)" "mtype (rhdr (fst st)) = TYPE_HTTP" "\<not> s_event st"
    using assms(1) by (simp_all add: receiving_def Let_def N_def kDefaultBufSize_def)
  have kN: "kDefaultBufSize = int N" by (simp add: N_def kDefaultBufSize_def)
  have room: "nat (int N - int (length d)) = N - length d" "\<not> N < length d" using s(4) by simp_all
  have put: "mem_put ?mem (int (length d)) b = Some ((d @ b) @ replicate (N - length (d @ b)) NUL)"
    if "length b \<le> N - length d" for b using that s(4) by (simp add: mem_put_def)
  have small: "length d + length b < N" if "?B (script, evs) = b @ x" for b x using assms(2) that by (simp add: N_def)
  have event: "s_event (put_conn c st1) \<longleftrightarrow> ssl_event c" "s_event (unlock_in st1) = s_event st1" for c st1
    by (simp_all add: s_event_def ssl_event_def put_conn_def unlock_in_def)
  have full: "?B (script, evs) = b @ x \<Longrightarrow> int (length d) + int (length b) \<noteq> int N" for b x using small[of b x] by linarith
  let ?read = "\<lambda>mem'. put_conn (conn_st st) ((fst st)\<lparr>in_lock := True, rbuf := Some mem'\<rparr>, snd st)"
  let ?fin = "\<lambda>mem' b. unlock_in ((fst (?read mem'))\<lparr>rbuf_len := int (length d) + int (length b)\<rparr>, snd (?read mem'))"
  have more: "receiving (d @ b) (?fin mem' b) \<and> ssl (s_conn (fst (?fin mem' b))) = ssl (s_conn (fst st))"
    if "?B (script, evs) = b @ x" "length b \<le> N - length d" "mem_put ?mem (int (length d)) b = Some mem'" for mem' b x
    using that s small[OF that(1)] put[OF that(2)]
    by (auto simp: receiving_def Let_def kN unlock_in_def put_conn_def s_event_def)
  have fits: "length (in_bytes (ssl (fst (conn_st st))) (script, evs)) \<le> N - length d" "int (N - length d) < 2 ^ 31"
    using assms(2) by (simp_all add: N_def kDefaultBufSize_def)
  have sf: "s_event (s_fail c m st1)" for c m st1 by (simp add: s_event_def s_fail_def w_fail_def)
  define G where "G r \<longleftrightarrow> ssl (s_conn (fst st)) = None \<or> 0 < r" for r :: int
  note rd = ssl_Read_holds[OF fits, of ntop, unfolded fst_conv, folded G_def]
  show ?thesis
    unfolding sess_Read_def Let_def G_def[symmetric]
    apply (simp add: s room lock_in_def)
    apply (intro holds_intro holds_mono[OF rd])
    apply (simp only: holds_simps prod.case)
    apply (intro holds_intro holds_mono[OF ResetRbuf_event] s_event_append)
    apply (simp_all only: holds_simps prod.case event)
    apply (simp_all add: s)
    apply (auto intro: conjunct1[OF more] conjunct2[OF more] holds_mono[OF ResetRbuf_event[OF sf]] dest: full)
    done
qed

text \<open>
  A run of Reads that set no error, each going on with what the last one left of the incoming stream;
  over SSL each gives data, as a Read that would block moves the length of the buffer back.
\<close>

inductive reads :: "sess_st \<Rightarrow> ssl_answer list \<times> rd_event list \<Rightarrow> sess_st \<Rightarrow> ssl_answer list \<times> rd_event list \<Rightarrow> bool" where
  reads_none: "reads st io st io"
| reads_call: "reads st io st1 (script, evs) \<Longrightarrow>
    sess_Read ntop ptr alloc junk script evs st1 = Returns (r, eof, script', evs', st2) \<Longrightarrow> \<not> s_event st2
    \<Longrightarrow> ssl (s_conn (fst st1)) = None \<or> 0 < r \<Longrightarrow> reads st io st2 (script', evs')"

lemma reads_inv:
  assumes "reads st io st' io'" "receiving d st" "length d + length (in_bytes (ssl (s_conn (fst st))) io) < nat kDefaultBufSize"
  shows "\<exists>b. receiving (d @ b) st' \<and> ssl (s_conn (fst st')) = ssl (s_conn (fst st))
    \<and> in_bytes (ssl (s_conn (fst st))) io = b @ in_bytes (ssl (s_conn (fst st))) io'"
  using assms
proof (induction)
  case (reads_none st io)
  then show ?case by (intro exI[of _ "[]"]) simp
next
  case (reads_call st io st1 script evs ntop ptr alloc junk r eof script' evs' st2)
  let ?B = "in_bytes (ssl (s_conn (fst st)))"
  from reads_call obtain b where b: "receiving (d @ b) st1" "ssl (s_conn (fst st1)) = ssl (s_conn (fst st))"
      "?B io = b @ ?B (script, evs)" by blast
  then have "length (d @ b) + length (in_bytes (ssl (s_conn (fst st1))) (script, evs)) < nat kDefaultBufSize"
    using reads_call.prems(2) by simp
  from holdsD[OF receiving_read_holds[OF b(1) this] reads_call.hyps(2)] reads_call.hyps(3,4)
  obtain b' where "receiving ((d @ b) @ b') st2" "ssl (s_conn (fst st2)) = ssl (s_conn (fst st1))"
      "?B (script, evs) = b' @ ?B (script', evs')" unfolding b(2) by auto
  with b show ?case by (intro exI[of _ "b @ b'"]) simp
qed

section \<open>From session to session\<close>

text \<open>Any header that comes back, from the queue of the sender to the current message of the receiver.\<close>

context hdr_codec begin

lemma gets_across:
  assumes "wf h" "least \<le> length body" "print_hdr 0 False h = Some hdr" "length (bytes h) + length body < nat kDefaultBufSize"
    "out_inv (fst snd0)" "wpending (fst snd0) = []"
    "AddMsgBuf True junk (Some (c_str hdr)) (int (length (c_str hdr))) body (int (length body)) w snd0 = Returns (True, snd1)"
    "sends snd1 wire snd2" "IsOutgoingMsgSent (fst snd2)"
    "receiving [] rcv0" "in_bytes (ssl (s_conn (fst rcv0))) io = wire" "reads rcv0 io rcv1 io'"
    "in_bytes (ssl (s_conn (fst rcv0))) io' = []"
  shows "\<exists>rcv2 mem. InitIncomingMsg pb alloc True rcv1 = Returns (True, rcv2) \<and> http_hdr_of (rhdr (fst rcv2)) = h
    \<and> rbuf (fst rcv2) = Some mem \<and> take (length body) mem = body \<and> rbuf_len (fst rcv2) = int (length body)
    \<and> (IsIncomingMsgComplete (fst rcv2) \<longleftrightarrow> to_ssize_t (msg_len h) \<le> int (length body)) \<and> \<not> s_event rcv2"
proof -
  have len: "length body < 2 ^ 60" using assms(4) by (simp add: kDefaultBufSize_def)
  have hdr: "c_str hdr = bytes h" by (rule printed_eq[OF assms(1,3)])
  have "c_str (c_str hdr) = c_str hdr" by (simp add: c_str_def)
  then have "c_str (c_str hdr) \<noteq> []" using some[OF assms(1)] hdr by simp
  from AddMsgBuf_ok[OF assms(5) this, of True junk body w] assms(6,7)
  have snd1: "out_inv (fst snd1)" "queued (fst snd1) = [c_str hdr @ body]"
      "wpending (fst snd1) = [new_info SESSION_USE_MEM (msg_id w) (int (length (c_str hdr))) (int (length body))]"
    by (auto simp: queued_def)
  have "wire = bytes h @ body"
    using sends_complete[OF assms(8) snd1(1,3) _ _ _ assms(9)] snd1(2) hdr by (simp add: new_info_def)
  moreover from this have "length ([] :: string) + length (in_bytes (ssl (s_conn (fst rcv0))) io) < nat kDefaultBufSize" using assms(4,11) by simp
  ultimately have "receiving (bytes h @ body) rcv1"
    using reads_inv[OF assms(12,10)] assms(11,13) by auto
  then obtain pad where rcv1: "rbuf (fst rcv1) = Some (bytes h @ body @ pad)" "NUL \<in> set pad"
      "rbuf_len (fst rcv1) = int (length (bytes h) + length body)" "mtype (rhdr (fst rcv1)) = TYPE_HTTP"
      "\<not> in_lock (fst rcv1)" "\<not> s_event rcv1"
    by (auto simp: receiving_def Let_def)
  from InitIncomingMsg_codec[OF assms(1,2) len rcv1(2,1,3-6), of pb alloc] show ?thesis by blast
qed

end

text \<open>
  C1. A request gets across: a sender adds a printed well-formed request (GET, HEAD, POST, PUT or DELETE)
  with a non-empty body to its empty queue and sends until the message counts as sent, whatever part of
  it each Write gets out; a fresh receiver reads the bytes that went out, in whatever pieces they arrive;
  header and body together are shorter than its first buffer. The runs set no error, no Write returns a
  negative count, and over SSL each Read gives data, as one that would block loses a byte
  (would_block_loses_byte). Then InitIncomingMsg of the receiver succeeds with exactly the sender's
  request as its header and the body at the start of its buffer.
\<close>

theorem request_gets_across:
  assumes "http_method h \<in> set methods" "wf_url URL_PORT_NULL (uri h)" "list_all wf_hdr (msg_hdrs h)"
    "msg_type h = REQUEST" "major h = 1" "minor h = 1" "status_code h = 0" "print_hdr 0 False h = Some hdr" "body \<noteq> []"
    "length (request_text h) + length body < nat kDefaultBufSize"
    "out_inv (fst snd0)" "wpending (fst snd0) = []"
    "AddMsgBuf True junk (Some (c_str hdr)) (int (length (c_str hdr))) body (int (length body)) w snd0 = Returns (True, snd1)"
    "sends snd1 wire snd2" "IsOutgoingMsgSent (fst snd2)"
    "receiving [] rcv0" "in_bytes (ssl (s_conn (fst rcv0))) io = wire" "reads rcv0 io rcv1 io'"
    "in_bytes (ssl (s_conn (fst rcv0))) io' = []"
  shows "\<exists>rcv2 mem. InitIncomingMsg pb alloc True rcv1 = Returns (True, rcv2) \<and> http_hdr_of (rhdr (fst rcv2)) = h
    \<and> rbuf (fst rcv2) = Some mem \<and> take (length body) mem = body \<and> rbuf_len (fst rcv2) = int (length body)
    \<and> (IsIncomingMsgComplete (fst rcv2) \<longleftrightarrow> to_ssize_t (msg_len h) \<le> int (length body)) \<and> \<not> s_event rcv2"
proof -
  have "wf_request h" "1 \<le> length body"
    using assms(1-7,9,10) by (simp_all add: wf_request_def SCRATCH_BUF_SIZE_def kDefaultBufSize_def Suc_le_eq)
  from requests.gets_across[OF this assms(8,10-19)] show ?thesis .
qed

text \<open>
  C3. A response that is not chunked gets across in the same way and under the same conditions on its
  length and on the runs, with or without a body: the receiver has the sender's status code and message
  headers, and the message counts as complete once Content-Length bytes are there.
\<close>

theorem response_gets_across:
  assumes "wf_response h" "print_hdr 0 False h = Some hdr" "length (response_text h) + length body < nat kDefaultBufSize"
    "out_inv (fst snd0)" "wpending (fst snd0) = []"
    "AddMsgBuf True junk (Some (c_str hdr)) (int (length (c_str hdr))) body (int (length body)) w snd0 = Returns (True, snd1)"
    "sends snd1 wire snd2" "IsOutgoingMsgSent (fst snd2)"
    "receiving [] rcv0" "in_bytes (ssl (s_conn (fst rcv0))) io = wire" "reads rcv0 io rcv1 io'"
    "in_bytes (ssl (s_conn (fst rcv0))) io' = []"
  shows "\<exists>rcv2 mem. InitIncomingMsg pb alloc True rcv1 = Returns (True, rcv2) \<and> http_hdr_of (rhdr (fst rcv2)) = h
    \<and> rbuf (fst rcv2) = Some mem \<and> take (length body) mem = body \<and> rbuf_len (fst rcv2) = int (length body)
    \<and> (IsIncomingMsgComplete (fst rcv2) \<longleftrightarrow> to_ssize_t (msg_len h) \<le> int (length body)) \<and> \<not> s_event rcv2"
  by (rule responses.gets_across[OF assms(1) _ assms(2-12)]) simp

lemma read_one_piece:
  assumes "receiving [] st" "ssl (s_conn (fst st)) = None" "fd_of (s_ip (s_conn (fst st))) (gw (snd st)) = Some fd" "s \<noteq> []" "length s < nat kDefaultBufSize"
  shows "\<exists>st'. reads st ([], [Data s]) st' ([], [])"
proof -
  define N where "N = nat kDefaultBufSize"
  have kN: "kDefaultBufSize = int N" "0 < N" by (simp_all add: N_def kDefaultBufSize_def)
  have st: "rbuf (fst st) = Some (replicate N NUL)" "rbuf_size (fst st) = int N" "rbuf_len (fst st) = 0" "\<not> in_lock (fst st)"
      "ssl (s_conn (fst st)) = None" "\<not> s_event st"
    using assms(1,2) by (simp_all add: receiving_def Let_def kN)
  have l: "length s < N" "int (length s) \<noteq> int N" using assms(5) by (simp_all add: kN)
  have "tcp_Read N [Data s] (s_tcp (s_conn (fst st)), gw (snd st))
      = Returns (int (length s), s, False, [], s_tcp (s_conn (fst st)), gw (snd st))"
    using assms(3,4) l kN(2) by (cases N) (simp_all add: tcp_Read_def)
  then have "\<exists>st'. sess_Read Map.empty [] True (\<lambda>_. NUL) [] [Data s] st = Returns (int (length s), Some False, [], [], st')
      \<and> \<not> s_event st'"
    using st l by (simp add: sess_Read_def lock_in_def ssl_Read_def Let_def mem_put_def put_conn_def s_event_def unlock_in_def)
  then show ?thesis using reads_call[OF reads_none] assms(2) by blast
qed

definition idle_sender :: sess_st where
  "idle_sender = (let s = fst example_session; c = s_conn s in
     (s\<lparr>s_conn := c\<lparr>s_tcp := (s_tcp c)\<lparr>connected := True\<rparr>\<rparr>\<rparr>, snd example_session))"

lemma idle_sender_facts:
  "out_inv (fst idle_sender)" "wpending (fst idle_sender) = []" "ssl (s_conn (fst idle_sender)) = None"
  "connected (s_tcp (s_conn (fst idle_sender)))" "\<not> s_event idle_sender"
  "fd_of (s_ip (s_conn (fst idle_sender))) (gw (snd idle_sender)) = Some DESCRIPTOR_NULL"
  "receiving [] example_session" "ssl (s_conn (fst example_session)) = None"
  "fd_of (s_ip (s_conn (fst example_session))) (gw (snd example_session)) = Some DESCRIPTOR_NULL"
  by (simp_all add: idle_sender_def example_session_def sess_Init_def TCPSession_def SSLConn_def File_def TCPConn_def
      IPComm_def new_descriptor_def out_inv_def kDefaultBufSize_def Let_def fd_of_def s_event_def example_world_def
      start_world_def receiving_def MsgHdr_def)

text \<open>An exchange of one message: the kernel takes one byte at a time, and all of it arrives at once.\<close>

lemma one_exchange:
  assumes "c_str h = h" "h \<noteq> []" "length h + length body < nat kDefaultBufSize"
  shows "\<exists>snd1 snd2 rcv1. AddMsgBuf True (\<lambda>_. NUL) (Some h) (int (length h)) body (int (length body)) (MsgHdr TYPE_HTTP) idle_sender
      = Returns (True, snd1) \<and> sends snd1 (h @ body) snd2 \<and> IsOutgoingMsgSent (fst snd2)
    \<and> reads example_session ([], [Data (h @ body)]) rcv1 ([], [])"
proof -
  note f = idle_sender_facts
  let ?w = "MsgHdr TYPE_HTTP"
  have ne: "c_str h \<noteq> []" using assms(1,2) by simp
  obtain snd1 where a: "AddMsgBuf True (\<lambda>_. NUL) (Some h) (int (length h)) body (int (length body)) ?w idle_sender
        = Returns (True, snd1)" "out_inv (fst snd1)" "s_conn (fst snd1) = s_conn (fst idle_sender)" "snd snd1 = snd idle_sender"
      "queued (fst snd1) = [h @ body]"
      "wpending (fst snd1) = [new_info SESSION_USE_MEM (msg_id ?w) (int (length h)) (int (length body))]"
    using AddMsgBuf_ok[OF f(1) ne, of True "\<lambda>_. NUL" body ?w] f(2) by (auto simp: queued_def)
  have conn: "ssl (s_conn (fst snd1)) = None" "connected (s_tcp (s_conn (fst snd1)))"
      "fd_of (s_ip (s_conn (fst snd1))) (gw (snd snd1)) = Some DESCRIPTOR_NULL" "\<not> s_event snd1"
    using f(3-6) by (simp_all add: a(3,4) s_event_def)
  have "mi_storage (new_info SESSION_USE_MEM (msg_id ?w) (int (length h)) (int (length body))) = SESSION_USE_MEM"
      "mi_buf_offset (new_info SESSION_USE_MEM (msg_id ?w) (int (length h)) (int (length body))) = 0"
    by (simp_all add: new_info_def)
  from message_goes_out_aux[OF a(2,6) this conn, of "replicate (length (h @ body)) (Takes 1)" True Map.empty "[]" "\<lambda>_. []" "Inr 3"
      None "[]" "[]"]
  obtain evs' snd2 where wr: "sess_Write True Map.empty [] (\<lambda>_. []) (Inr 3) None [] (replicate (length (h @ body)) (Takes 1)) [] snd1
      = Returns ((int (length (h @ body)), h @ body, [], evs', snd2), [])" "IsOutgoingMsgSent (fst snd2)" "\<not> s_event snd2"
    using assms(2) by (auto simp: a(5) list_all_iff)
  have snds: "sends snd1 (h @ body) snd2"
    using sends_call[OF sends_none wr(1,3)] by simp
  obtain rcv1 where "reads example_session ([], [Data (h @ body)]) rcv1 ([], [])"
    using read_one_piece[OF f(7,8,9), of "h @ body"] assms(2,3) by auto
  with a(1) snds wr(2) show ?thesis by blast
qed

theorem request_gets_across_witness:
  "\<exists>snd1 snd2 wire rcv1 rcv2 mem. sends snd1 wire snd2 \<and> IsOutgoingMsgSent (fst snd2)
    \<and> reads example_session ([], [Data wire]) rcv1 ([], []) \<and> InitIncomingMsg zero_basic (\<lambda>_. True) True rcv1 = Returns (True, rcv2)
    \<and> http_hdr_of (rhdr (fst rcv2)) = sample_request \<and> rbuf (fst rcv2) = Some mem \<and> take 1 mem = ''x''"
proof -
  note r = sample_request_incoming and f = idle_sender_facts
  obtain hdr where hdr: "print_hdr 0 False sample_request = Some hdr" "c_str hdr = request_text sample_request"
    using print_request[OF r(1,3,5,6,8)] by blast
  have small: "length (request_text sample_request) + length ''x'' < nat kDefaultBufSize"
    unfolding sample_request_text by (simp add: kDefaultBufSize_def)
  have h: "c_str (c_str hdr) = c_str hdr" "c_str hdr \<noteq> []" "length (c_str hdr) + length ''x'' < nat kDefaultBufSize"
    using small by (simp_all add: hdr(2)) (simp_all add: sample_request_text c_str_def)
  from one_exchange[OF h] obtain snd1 snd2 rcv1 where x:
    "AddMsgBuf True (\<lambda>_. NUL) (Some (c_str hdr)) (int (length (c_str hdr))) ''x'' (int (length ''x'')) (MsgHdr TYPE_HTTP) idle_sender
      = Returns (True, snd1)" "sends snd1 (c_str hdr @ ''x'') snd2" "IsOutgoingMsgSent (fst snd2)"
    "reads example_session ([], [Data (c_str hdr @ ''x'')]) rcv1 ([], [])" by blast
  from request_gets_across[OF r(1-7) hdr(1) _ small f(1,2) x(1-3) f(7) _ x(4), of zero_basic "\<lambda>_. True"]
  obtain rcv2 mem where "InitIncomingMsg zero_basic (\<lambda>_. True) True rcv1 = Returns (True, rcv2)"
      "http_hdr_of (rhdr (fst rcv2)) = sample_request" "rbuf (fst rcv2) = Some mem" "take 1 mem = ''x''" by (auto simp: in_bytes_def f(8))
  with x show ?thesis by blast
qed

theorem response_gets_across_witness:
  "\<exists>snd1 snd2 wire rcv1 rcv2. sends snd1 wire snd2 \<and> IsOutgoingMsgSent (fst snd2)
    \<and> reads example_session ([], [Data wire]) rcv1 ([], []) \<and> InitIncomingMsg zero_basic (\<lambda>_. True) True rcv1 = Returns (True, rcv2)
    \<and> http_hdr_of (rhdr (fst rcv2)) = sample_response \<and> IsIncomingMsgComplete (fst rcv2) \<and> rbuf_len (fst rcv2) = 0"
proof -
  note f = idle_sender_facts and w = sample_response_wf
  obtain hdr where hdr: "print_hdr 0 False sample_response = Some hdr" "c_str hdr = response_text sample_response"
    using responses.printed[OF w] by blast
  have small: "length (response_text sample_response) + length ([] :: string) < nat kDefaultBufSize"
    unfolding sample_response_text by (simp add: kDefaultBufSize_def)
  have h: "c_str (c_str hdr) = c_str hdr" "c_str hdr \<noteq> []" "length (c_str hdr) + length ([] :: string) < nat kDefaultBufSize"
    using small by (simp_all add: hdr(2)) (simp_all add: sample_response_text c_str_def)
  from one_exchange[OF h] obtain snd1 snd2 rcv1 where x:
    "AddMsgBuf True (\<lambda>_. NUL) (Some (c_str hdr)) (int (length (c_str hdr))) [] (int (length ([] :: string))) (MsgHdr TYPE_HTTP) idle_sender
      = Returns (True, snd1)" "sends snd1 (c_str hdr @ []) snd2" "IsOutgoingMsgSent (fst snd2)"
    "reads example_session ([], [Data (c_str hdr @ [])]) rcv1 ([], [])" by blast
  have "msg_len sample_response = 0"
    by (simp add: sample_response_def msg_len_def same_name_iff MIME_CONTENT_LENGTH_def c_str_def strtol_def split_sign_def
        strip_0x_def isspace_def LONG_MAX_def LONG_MIN_def digit_of_def tolower_def to_size_t_def)
  with response_gets_across[OF w hdr(1) small f(1,2) x(1-3) f(7) _ x(4), of zero_basic "\<lambda>_. True"]
  obtain rcv2 where "InitIncomingMsg zero_basic (\<lambda>_. True) True rcv1 = Returns (True, rcv2)"
      "http_hdr_of (rhdr (fst rcv2)) = sample_response" "IsIncomingMsgComplete (fst rcv2)" "rbuf_len (fst rcv2) = 0"
    by (auto simp: to_ssize_t_def in_bytes_def f(8))
  with x show ?thesis by blast
qed

end
