(* ===== verification/Session_Stream.thy ===== *)
theory Session_Stream
  imports Session_Delivery File_Refs
begin

text \<open>
  The body of an incoming message that goes to a file: Read fills the buffer and StreamIncomingMsg moves
  it to the file, in any order and in whatever pieces the network gives and the file takes. Shown over
  TCP, for any number of calls, with the buffer growing as Read needs it.
\<close>

section \<open>The buffer\<close>

text \<open>A session with the bytes d in its read buffer and room for more.\<close>

definition buffered :: "string \<Rightarrow> sess_st \<Rightarrow> bool" where
  "buffered d st \<longleftrightarrow> (let s = fst st in
     (\<exists>pad. rbuf s = Some (d @ pad) \<and> pad \<noteq> [] \<and> rbuf_size s = int (length d + length pad)) \<and> rbuf_len s = int (length d)
     \<and> \<not> in_lock s \<and> ssl (s_conn s) = None \<and> \<not> s_event st)"

text \<open>The current message has a body of L bytes, of which out is in the file.\<close>

definition to_file :: "nat \<Rightarrow> string \<Rightarrow> sess_st \<Rightarrow> bool" where
  "to_file L out st \<longleftrightarrow> (let p = rpending (fst st) in mi_initialized p \<and> mi_file_offset p = int (length out)
     \<and> mi_body_len p = int L \<and> length out \<le> L \<and> named (rfile (fst st)))"

lemma read_buffered:
  assumes "buffered d st"
  shows "holds (sess_Read ntop ptr alloc junk script evs st) (\<lambda>(r, eof, script', evs', st'). \<not> s_event st' \<longrightarrow>
    (\<exists>b. buffered (d @ b) st' \<and> ev_bytes evs = b @ ev_bytes evs' \<and> rpending (fst st') = rpending (fst st)
       \<and> rfile (fst st') = rfile (fst st) \<and> gw (snd st') = gw (snd st)))"
proof -
  obtain pad where s: "rbuf (fst st) = Some (d @ pad)" "pad \<noteq> []" "rbuf_size (fst st) = int (length d + length pad)"
    "rbuf_len (fst st) = int (length d)" "\<not> in_lock (fst st)" "ssl (s_conn (fst st)) = None" "\<not> s_event st"
    using assms by (auto simp: buffered_def Let_def)
  have ev: "\<not> event_flag (w_err (gw (snd st)))" using s(7) by (simp add: s_event_def)
  have put: "mem_put (d @ pad) (int (length d)) b = Some ((d @ b) @ drop (length b) pad)" if "length b \<le> length pad" for b
    using that by (simp add: mem_put_def)
  have sf: "s_event (s_fail c m st1)" for c m st1 by (simp add: s_event_def s_fail_def w_fail_def)
  have grow: "realloc_mem junk ((d @ b) @ drop (length b) pad) (int (length d + length pad) + kDefaultBufSize)
      = (d @ b) @ fresh junk (nat kDefaultBufSize)" if "length b = length pad" for b
    using that by (simp add: realloc_mem_def kDefaultBufSize_def nat_add_distrib)
  let ?tcp = "(s_tcp (s_conn (fst st)), gw (snd st))"
  show ?thesis
  proof (cases "tcp_Read (length pad) evs ?tcp")
    case (Returns x)
    obtain n b eof evs1 t w where x: "x = (n, b, eof, evs1, t, w)" by (cases x)
    note rd = Returns[unfolded x]
    show ?thesis
    proof (cases "event_flag (w_err w)")
      case True
      then show ?thesis
        by (simp add: sess_Read_def lock_in_def ssl_Read_def Let_def s rd)
           (auto intro!: holds_intro holds_mono[OF ResetRbuf_event[OF s_event_append]] simp: s_event_def put_conn_def unlock_in_def)
    next
      case e: False
      from tcp_Read_bytes[OF rd] e have f: "n = int (length b)" "ev_bytes evs = b @ ev_bytes evs1" "length b \<le> length pad"
        "t = s_tcp (s_conn (fst st))" "w = gw (snd st)" by auto
      let ?st = "\<lambda>mem' size. ((fst st)\<lparr>rbuf := Some mem', rbuf_size := size, rbuf_len := int (length (d @ b))\<rparr>, snd st)"
      have got: "buffered (d @ b) (?st ((d @ b) @ q) size)" if "q \<noteq> []" "size = int (length (d @ b) + length q)" for q size
        using that s by (auto simp: buffered_def Let_def s_event_def)
      show ?thesis
      proof (cases "length b = length pad")
        case True
        then have e1: "rbuf_len (fst st) + n = rbuf_size (fst st)" using s f by simp
        show ?thesis
        proof (cases alloc)
          case False
          then show ?thesis using f e e1 True s
            by (simp add: sess_Read_def lock_in_def ssl_Read_def Let_def rd put)
               (auto intro!: holds_intro holds_mono[OF ResetRbuf_event[OF sf]] simp: s_event_def put_conn_def unlock_in_def)
        next
          case a: True
          have "sess_Read ntop ptr alloc junk script evs st = Returns (n, Some eof, script, evs1,
              ?st ((d @ b) @ fresh junk (nat kDefaultBufSize)) (rbuf_size (fst st) + kDefaultBufSize))"
            using f e a s e1 True grow[OF True]
            by (simp add: sess_Read_def lock_in_def ssl_Read_def Let_def rd put s_event_def put_conn_def unlock_in_def)
          then show ?thesis
            using got[of "fresh junk (nat kDefaultBufSize)" "rbuf_size (fst st) + kDefaultBufSize"] f(2) True
            by (auto simp: s(3) kDefaultBufSize_def simp flip: length_greater_0_conv)
        qed
      next
        case False
        have "sess_Read ntop ptr alloc junk script evs st
          = Returns (n, Some eof, script, evs1, ?st ((d @ b) @ drop (length b) pad) (rbuf_size (fst st)))"
          using f e False s by (simp add: sess_Read_def lock_in_def ssl_Read_def Let_def rd put s_event_def put_conn_def unlock_in_def)
        then show ?thesis
          using got[of "drop (length b) pad" "rbuf_size (fst st)"] f(2,3) False by (auto simp: s(3))
      qed
    qed
  qed (simp_all add: sess_Read_def lock_in_def ssl_Read_def Let_def s)
qed

section \<open>A piece goes to the file\<close>

lemma file_write_takes: "file_write d evs = Returns (res, evs') \<Longrightarrow> res = Inr k \<Longrightarrow> k \<le> length d"
  by (auto simp: file_write_def split: if_splits list.splits wr_event.splits)

lemma file_Close_quiet:
  assumes "file_Close f w = Some w'" "named f" "\<not> event_flag (w_err w')"
  shows "file_IsOpen (f, w') = Some False \<and> (event_flag (w_err w) \<longrightarrow> event_flag (w_err w'))"
  using assms by (auto simp: file_Close_def named_def w_fail_def upd_descriptor_def file_IsOpen_def split: option.splits if_splits)

text \<open>What StreamIncomingMsg does with k bytes written: the buffer and the record, before the file is closed.\<close>

definition moved :: "nat \<Rightarrow> string \<Rightarrow> string \<Rightarrow> sess_st \<Rightarrow> sess_st" where
  "moved k d pad st = ((fst st)\<lparr>in_lock := True,
     rpending := (rpending (fst st))\<lparr>mi_file_offset := mi_file_offset (rpending (fst st)) + int k\<rparr>,
     rbuf := Some (drop k d @ drop (length d - k) (d @ pad)), rbuf_len := int (length d - k)\<rparr>, snd st)"

lemma moved_ok:
  assumes "buffered d st" "to_file L out st" "rbuf (fst st) = Some (d @ pad)" "k \<le> length d" "length out + k \<le> L"
  shows "buffered (drop k d) (unlock_in (moved k d pad st))" "to_file L (out @ take k d) (unlock_in (moved k d pad st))"
  using assms by (auto simp: buffered_def to_file_def moved_def unlock_in_def Let_def s_event_def)

lemma moved_shift:
  assumes "buffered d st" "rbuf (fst st) = Some (d @ pad)" "k \<le> length d"
  shows "ShiftRbuf (int k) 0 ((fst st)\<lparr>in_lock := True,
     rpending := (rpending (fst st))\<lparr>mi_file_offset := mi_file_offset (rpending (fst st)) + int k\<rparr>\<rparr>, snd st)
    = Returns (moved k d pad st)"
  using assms ShiftRbuf_front[of _ "take k d" "drop k d" pad]
  by (simp add: buffered_def Let_def moved_def min_absorb2 flip: append_assoc)

lemma closed_ok:
  assumes "buffered r (unlock_in st)" "to_file L out (unlock_in st)"
  shows "holds (on_rfile (\<lambda>(f, w). map_option (Pair f) (file_Close f w)) st) (\<lambda>st1. \<not> s_event (unlock_in st1) \<longrightarrow>
    buffered r (unlock_in st1) \<and> to_file L out (unlock_in st1)
    \<and> file_IsOpen (rfile (fst (unlock_in st1)), gw (snd (unlock_in st1))) = Some False)"
proof (cases "file_Close (rfile (fst st)) (gw (snd st))")
  case (Some w')
  let ?st = "((fst st)\<lparr>rfile := rfile (fst st)\<rparr>, (snd st)\<lparr>gw := w'\<rparr>)"
  have n: "named (rfile (fst st))" using assms(2) by (simp add: to_file_def unlock_in_def Let_def)
  have "buffered r (unlock_in ?st) \<and> to_file L out (unlock_in ?st)" if "\<not> event_flag (w_err w')"
    using assms that by (simp add: buffered_def to_file_def unlock_in_def s_event_def Let_def)
  then show ?thesis using file_Close_quiet[OF Some n] by (simp add: on_rfile_def Some unlock_in_def s_event_def)
qed (simp add: on_rfile_def)

text \<open>How much a call tries to move: what the buffer has, up to the end of the body.\<close>

abbreviation to_move :: "nat \<Rightarrow> string \<Rightarrow> string \<Rightarrow> nat" where
  "to_move L out d \<equiv> min (L - length out) (length d)"

lemma to_fileD:
  assumes "to_file L out st"
  shows "mi_initialized (rpending (fst st))" "mi_file_offset (rpending (fst st)) = int (length out)"
    "mi_body_len (rpending (fst st)) = int L" "length out \<le> L"
    "min (int L - int (length out)) (int (length d)) = int (to_move L out d)"
    "mem_get (d @ pad) 0 (int (to_move L out d)) = Some (take (to_move L out d) d)"
  using assms by (auto simp: to_file_def Let_def mem_get_def)

lemma stream_eq:
  assumes "buffered d st" "to_file L out st" "rbuf (fst st) = Some (d @ pad)" "file_IsOpen (rfile (fst st), gw (snd st)) = Some True"
    "file_write (take (to_move L out d) d) wevs = Returns (Inr k, wevs')"
  shows "StreamIncomingMsg show_ptr wevs st = (if length out + k \<ge> L
          then bind_sys (on_rfile (\<lambda>(f, w). map_option (Pair f) (file_Close f w)) (moved k d pad st)) (\<lambda>st3.
            Returns (0, take k d, wevs', unlock_in st3))
          else Returns (1, take k d, wevs', unlock_in (moved k d pad st)))"
    and "k \<le> to_move L out d"
proof -
  show k: "k \<le> to_move L out d" using file_write_takes[OF assms(5) refl] by simp
  have s: "rbuf_len (fst st) = int (length d)" "\<not> in_lock (fst st)" using assms(1) by (auto simp: buffered_def Let_def)
  have "k \<le> length d" "min k (to_move L out d) = k" using k by simp_all
  then show "StreamIncomingMsg show_ptr wevs st = (if length out + k \<ge> L
          then bind_sys (on_rfile (\<lambda>(f, w). map_option (Pair f) (file_Close f w)) (moved k d pad st)) (\<lambda>st3.
            Returns (0, take k d, wevs', unlock_in st3))
          else Returns (1, take k d, wevs', unlock_in (moved k d pad st)))"
    using s assms(3-5) to_fileD[OF assms(2)] moved_shift[OF assms(1,3)]
    by (simp add: StreamIncomingMsg_def lock_in_def Let_def)
qed

lemma stream_step:
  assumes "buffered d st" "to_file L out st"
  shows "holds (StreamIncomingMsg show_ptr wevs st) (\<lambda>(x, o1, wevs', st'). \<not> s_event st' \<longrightarrow>
    (\<exists>rest. d = o1 @ rest \<and> buffered rest st' \<and> to_file L (out @ o1) st' \<and> (x = 0 \<longleftrightarrow> length (out @ o1) = L)
       \<and> (x = 0 \<longrightarrow> file_IsOpen (rfile (fst st'), gw (snd st')) = Some False)))"
proof -
  obtain pad where s: "rbuf (fst st) = Some (d @ pad)" "rbuf_len (fst st) = int (length d)" "\<not> in_lock (fst st)" "\<not> s_event st"
    using assms(1) by (auto simp: buffered_def Let_def)
  note p = to_fileD[OF assms(2)]
  have sf: "s_event (s_fail c m st1)" for c m st1 by (simp add: s_event_def s_fail_def w_fail_def)
  have ev: "s_event (unlock_in st1) = s_event st1" for st1 by (simp add: s_event_def unlock_in_def)
  show ?thesis
  proof (cases "file_IsOpen (rfile (fst st), gw (snd st)) = Some True")
    case False
    then show ?thesis using s p by (auto simp: StreamIncomingMsg_def sf intro!: holds_intro)
  next
    case o: True
    show ?thesis
    proof (cases "file_write (take (to_move L out d) d) wevs")
      case (Returns x)
      obtain res wevs' where x: "x = (res, wevs')" by (cases x)
      note fw = Returns[unfolded x]
      show ?thesis
      proof (cases res)
        case (Inl er)
        obtain e m where er: "er = (e, m)" by (cases er)
        show ?thesis using o s p
          by (simp add: StreamIncomingMsg_def lock_in_def Let_def fw Inl er)
             (auto intro!: holds_intro holds_mono[OF ResetRbuf_event[OF sf]] simp: ev)
      next
        case (Inr k)
        note eq = stream_eq[OF assms s(1) o fw[unfolded Inr]]
        have k: "k \<le> length d" "length out + k \<le> L" using eq(2) p(4) by (simp, linarith)
        show ?thesis
        proof (cases "L \<le> length out + k")
          case False
          with eq(1) show ?thesis using moved_ok[OF assms s(1) k] k(1) by (auto intro!: exI[of _ "drop k d"] simp: min_absorb2)
        next
          case True
          define st2 where "st2 = moved k d pad st"
          have m: "buffered (drop k d) (unlock_in st2)" "to_file L (out @ take k d) (unlock_in st2)"
            using moved_ok[OF assms s(1) k] by (simp_all add: st2_def)
          have o: "take k d @ drop k d = d" "length (out @ take k d) = L" using True k by simp_all
          show ?thesis unfolding eq(1) st2_def[symmetric] using True o
            by (simp del: length_append)
               (intro holds_intro holds_mono[OF closed_ok[OF m]], auto intro!: exI[of _ "drop k d"])
        qed
      qed
    qed (use o s p in \<open>simp_all add: StreamIncomingMsg_def lock_in_def Let_def\<close>)
  qed
qed

section \<open>A body goes to the file\<close>

text \<open>
  Any run of Reads and StreamIncomingMsgs that set no error: the stream of the connection before and
  after, the bytes that went to the file, and whether the last StreamIncomingMsg returned 0.
\<close>

inductive streams :: "sess_st \<Rightarrow> rd_event list \<Rightarrow> sess_st \<Rightarrow> rd_event list \<Rightarrow> string \<Rightarrow> bool \<Rightarrow> bool" where
  streams_none: "streams st evs st evs [] False"
| streams_read: "streams st evs st1 evs1 out fin \<Longrightarrow>
    sess_Read ntop ptr alloc junk script evs1 st1 = Returns (r, eof, script', evs2, st2) \<Longrightarrow> \<not> s_event st2
    \<Longrightarrow> streams st evs st2 evs2 out fin"
| streams_move: "streams st evs st1 evs1 out fin \<Longrightarrow>
    StreamIncomingMsg show_ptr wevs st1 = Returns (x, o1, wevs', st2) \<Longrightarrow> \<not> s_event st2
    \<Longrightarrow> streams st evs st2 evs1 (out @ o1) (x = 0)"

lemma streams_inv:
  assumes "streams st evs st' evs' out fin" "buffered d st" "to_file L [] st" "0 < L"
  shows "\<exists>rest. d @ ev_bytes evs = out @ rest @ ev_bytes evs' \<and> buffered rest st' \<and> to_file L out st'
    \<and> (fin \<longleftrightarrow> length out = L) \<and> (fin \<longrightarrow> file_IsOpen (rfile (fst st'), gw (snd st')) = Some False)"
  using assms
proof (induction)
  case (streams_none st evs)
  then show ?case by auto
next
  case (streams_read st evs st1 evs1 out fin ntop ptr alloc junk script r eof script' evs2 st2)
  then obtain rest where i: "d @ ev_bytes evs = out @ rest @ ev_bytes evs1" "buffered rest st1" "to_file L out st1"
    "fin \<longleftrightarrow> length out = L" "fin \<longrightarrow> file_IsOpen (rfile (fst st1), gw (snd st1)) = Some False" by blast
  from holdsD[OF read_buffered[OF i(2)] streams_read.hyps(2)] streams_read.hyps(3)
  obtain b where b: "buffered (rest @ b) st2" "ev_bytes evs1 = b @ ev_bytes evs2" "rpending (fst st2) = rpending (fst st1)"
    "rfile (fst st2) = rfile (fst st1)" "gw (snd st2) = gw (snd st1)" by auto
  then have "to_file L out st2" using i(3) by (simp add: to_file_def)
  with b i show ?case by (intro exI[of _ "rest @ b"]) simp
next
  case (streams_move st evs st1 evs1 out fin show_ptr wevs x o1 wevs' st2)
  then obtain rest where i: "d @ ev_bytes evs = out @ rest @ ev_bytes evs1" "buffered rest st1" "to_file L out st1" by blast
  from holdsD[OF stream_step[OF i(2,3)] streams_move.hyps(2)] streams_move.hyps(3) i(1) show ?case by auto
qed

text \<open>
  C18. Over TCP the body of an incoming message goes to its file as it was sent: after any run of Reads and
  StreamIncomingMsgs without an error, however the pieces fall, the bytes in the file
  followed by those in the buffer are the bytes received, in order, none lost and none twice; the file
  never gets more than the body, and StreamIncomingMsg has returned 0 exactly when the file has all of
  the body, and has then closed the file.
\<close>

theorem body_streamed_in_order:
  assumes "buffered d st" "to_file L [] st" "0 < L" "streams st evs st' evs' out fin"
  shows "(\<exists>rest. d @ ev_bytes evs = out @ rest @ ev_bytes evs' \<and> buffered rest st')
    \<and> length out \<le> L \<and> mi_file_offset (rpending (fst st')) = int (length out)
    \<and> (fin \<longleftrightarrow> out = take L (d @ ev_bytes evs) \<and> L \<le> length (d @ ev_bytes evs))
    \<and> (fin \<longrightarrow> file_IsOpen (rfile (fst st'), gw (snd st')) = Some False)"
proof -
  obtain rest where r: "d @ ev_bytes evs = out @ rest @ ev_bytes evs'" "buffered rest st'" "to_file L out st'"
    "fin \<longleftrightarrow> length out = L" "fin \<longrightarrow> file_IsOpen (rfile (fst st'), gw (snd st')) = Some False"
    using streams_inv[OF assms(4,1-3)] by blast
  have l: "length out \<le> L" using to_fileD(4)[OF r(3)] .
  have "fin \<longleftrightarrow> out = take L (d @ ev_bytes evs) \<and> L \<le> length (d @ ev_bytes evs)" unfolding r(1,4) using l by auto
  with r l to_fileD(2)[OF r(3)] show ?thesis by blast
qed

section \<open>The file gets there\<close>

text \<open>When the file takes what it is given, one call moves all that is in the buffer and belongs to the body.\<close>

lemma file_write_all: "length e \<le> j \<Longrightarrow> \<exists>evs'. file_write e [Takes j] = Returns (Inr (length e), evs')"
  by (cases "e = []") (simp_all add: file_write_def min_absorb2)

lemma stream_progress:
  assumes "buffered d st" "to_file L out st" "heap (gw (snd st)) (fref (rfile (fst st))) = Some c" "dfp c = None"
    "dfd c \<noteq> DESCRIPTOR_NULL" "to_move L out d \<le> j"
  shows "\<exists>x wevs' st'. StreamIncomingMsg show_ptr [Takes j] st = Returns (x, take (to_move L out d) d, wevs', st') \<and> \<not> s_event st'"
proof -
  obtain pad where pad: "rbuf (fst st) = Some (d @ pad)" using assms(1) by (auto simp: buffered_def Let_def)
  have o: "file_IsOpen (rfile (fst st), gw (snd st)) = Some True" using assms(3,5) by (simp add: file_IsOpen_def)
  have ne: "\<not> s_event st" "named (rfile (fst st))" using assms(1,2) by (simp_all add: buffered_def to_file_def Let_def)
  obtain wevs' where "file_write (take (to_move L out d) d) [Takes j] = Returns (Inr (to_move L out d), wevs')"
    using file_write_all[of "take (to_move L out d) d" j] assms(6) by auto
  note eq = stream_eq(1)[OF assms(1,2) pad o this]
  have "file_Close (rfile (fst st)) (gw (snd st)) = Some ((gw (snd st))\<lparr>closed := closed (gw (snd st)) @ [dfd c],
      heap := (heap (gw (snd st)))(fref (rfile (fst st)) \<mapsto> c\<lparr>dfd := DESCRIPTOR_NULL\<rparr>)\<rparr>)"
    using assms(3-5) ne(2) by (simp add: file_Close_def named_def upd_descriptor_def)
  then show ?thesis unfolding eq using ne(1) by (simp add: moved_def on_rfile_def s_event_def unlock_in_def)
qed

lemma read_progress:
  assumes "buffered d st" "int (length d + length s) < rbuf_size (fst st)" "s \<noteq> []"
    "fd_of (s_ip (s_conn (fst st))) (gw (snd st)) = Some fd"
  shows "\<exists>r eof script' st'. sess_Read ntop ptr alloc junk script [Data s] st = Returns (r, eof, script', [], st') \<and> \<not> s_event st'"
proof -
  obtain pad where b: "rbuf (fst st) = Some (d @ pad)" "rbuf_size (fst st) = int (length d + length pad)" "rbuf_len (fst st) = int (length d)"
    "\<not> in_lock (fst st)" "ssl (s_conn (fst st)) = None" "\<not> s_event st" using assms(1) by (auto simp: buffered_def Let_def)
  obtain k where k: "length pad = Suc k" "length s \<le> k" using assms(2) b(2) by (cases "length pad") auto
  have "tcp_Read (Suc k) [Data s] (s_tcp (s_conn (fst st)), gw (snd st))
      = Returns (int (length s), s, False, [], s_tcp (s_conn (fst st)), gw (snd st))"
    using assms(3,4) k(2) by (simp add: tcp_Read_def)
  moreover have "nat (1 + int k) = Suc k" by simp
  ultimately show ?thesis using b k
    by (simp add: sess_Read_def lock_in_def ssl_Read_def Let_def mem_put_def put_conn_def s_event_def unlock_in_def)
qed

text \<open>A session that has three bytes of a body of four, whose file is open on descriptor 3; two more bytes arrive.\<close>

definition stream_session :: sess_st where
  "stream_session = (let s = fst example_session; g = snd example_session; f = (rfile s)\<lparr>fname := ''body''\<rparr> in
     (s\<lparr>rbuf := Some (''abc'' @ replicate (nat kDefaultBufSize) NUL), rbuf_size := kDefaultBufSize + 3, rbuf_len := 3,
        rpending := (new_info SESSION_USE_DISC 1 0 4)\<lparr>mi_initialized := True\<rparr>, rfile := f\<rparr>,
      g\<lparr>gw := (gw g)\<lparr>heap := (heap (gw g))(fref f \<mapsto> \<lparr>dfd = 3, dfp = None, dcnt = 1\<rparr>)\<rparr>\<rparr>))"

lemma stream_session_facts:
  "buffered ''abc'' stream_session" "to_file 4 [] stream_session" "rbuf_size (fst stream_session) = kDefaultBufSize + 3"
  "heap (gw (snd stream_session)) (fref (rfile (fst stream_session))) = Some \<lparr>dfd = 3, dfp = None, dcnt = 1\<rparr>"
  "fd_of (s_ip (s_conn (fst stream_session))) (gw (snd stream_session)) = Some DESCRIPTOR_NULL"
  by (simp_all add: stream_session_def example_session_def sess_Init_def TCPSession_def SSLConn_def File_def TCPConn_def
      IPComm_def new_descriptor_def Let_def fd_of_def s_event_def example_world_def start_world_def buffered_def to_file_def
      new_info_def kDefaultBufSize_def named_def)

theorem body_streamed_in_order_witness:
  "\<exists>st'. streams stream_session [Data ''de''] st' [] ''abcd'' True \<and> buffered ''e'' st'
    \<and> file_IsOpen (rfile (fst st'), gw (snd st')) = Some False"
proof -
  note f = stream_session_facts
  obtain r eof script st1 where 1: "sess_Read Map.empty [] True (\<lambda>_. NUL) [] [Data ''de''] stream_session = Returns (r, eof, script, [], st1)"
    "\<not> s_event st1" using read_progress[OF f(1) _ _ f(5), of "''de''" Map.empty "[]" True "\<lambda>_. NUL" "[]"] by (auto simp: f(3) kDefaultBufSize_def)
  from holdsD[OF read_buffered[OF f(1)] 1(1)] 1(2) have st1: "buffered ''abcde'' st1" "rpending (fst st1) = rpending (fst stream_session)"
    "rfile (fst st1) = rfile (fst stream_session)" "gw (snd st1) = gw (snd stream_session)" by auto
  have p: "to_file 4 [] st1" using f(2) st1(2,3) by (simp add: to_file_def)
  have h: "heap (gw (snd st1)) (fref (rfile (fst st1))) = Some \<lparr>dfd = 3, dfp = None, dcnt = 1\<rparr>" using f(4) st1(3,4) by simp
  obtain x wevs st2 where 2: "StreamIncomingMsg (\<lambda>_. []) [Takes 9] st1 = Returns (x, ''abcd'', wevs, st2)" "\<not> s_event st2"
    using stream_progress[OF st1(1) p h, of 9 "\<lambda>_. []"] by (auto simp: DESCRIPTOR_NULL_def)
  have s: "streams stream_session [Data ''de''] st2 [] ([] @ ''abcd'') (x = 0)"
    by (rule streams_move[OF streams_read[OF streams_none 1] 2])
  from body_streamed_in_order[OF f(1,2) _ s] obtain rest where "''abcde'' = ''abcd'' @ rest" "buffered rest st2" "x = 0"
    "file_IsOpen (rfile (fst st2), gw (snd st2)) = Some False" by auto
  then show ?thesis using s by (intro exI[of _ st2]) simp
qed

end
