(* ===== verification/Logger_Obj.thy ===== *)
theory Logger_Obj
  imports Prelude
begin

text \<open>
  The logger of Logger.h and Logger.cc: a priority for each mechanism, their names on the command
  line, the path of the log file, and Log, which builds one line and gives it to every mechanism
  whose priority admits it. The table \<^verbatim>\<open>prioritynames\<close> of the system's
  \<^verbatim>\<open>syslog.h\<close> is a parameter (names), and so are the text that vsnprintf makes of the
  format, the texts of asctime(3) and strerror(3) and the results of fopen(3). The warnings on stderr are left out, and
  the script mechanism, which the source compiles out, does nothing. The priorities are plain integers;
  the source keeps them in an int, which 2^31 increments would overflow. The members fp_,
  script_command_, debugging_ and debug_mechanism_ are never read and have no field.
\<close>

section \<open>Mechanisms\<close>

datatype log_mechanism_type = LOG_TO_NULL | LOG_TO_STDERR | LOG_TO_STDOUT | LOG_TO_FILE | LOG_TO_CONSOLE
  | LOG_TO_SYSLOG | LOG_TO_SCRIPT

text \<open>The numbers of the enumeration, by which it is ordered. mech_of is the cast back, None out of range.\<close>

primrec mech_id :: "log_mechanism_type \<Rightarrow> nat" where
  "mech_id LOG_TO_NULL = 0"
| "mech_id LOG_TO_STDERR = 1"
| "mech_id LOG_TO_STDOUT = 2"
| "mech_id LOG_TO_FILE = 3"
| "mech_id LOG_TO_CONSOLE = 4"
| "mech_id LOG_TO_SYSLOG = 5"
| "mech_id LOG_TO_SCRIPT = 6"

definition all_mechanisms :: "log_mechanism_type list" where
  "all_mechanisms = [LOG_TO_NULL, LOG_TO_STDERR, LOG_TO_STDOUT, LOG_TO_FILE, LOG_TO_CONSOLE, LOG_TO_SYSLOG, LOG_TO_SCRIPT]"

definition LOGGER_NUM_MECHANISMS :: int where "LOGGER_NUM_MECHANISMS = int (mech_id LOG_TO_SCRIPT) + 1"

definition mech_of :: "int \<Rightarrow> log_mechanism_type option" where
  "mech_of i = (if 0 \<le> i \<and> i < LOGGER_NUM_MECHANISMS then Some (all_mechanisms ! nat i) else None)"

lemma mech_id_inject [simp]: "mech_id a = mech_id b \<longleftrightarrow> a = b"
  by (cases a; cases b) simp_all

lemma mech_of_id [simp]: "mech_of (int (mech_id m)) = Some m"
  by (cases m) (simp_all add: mech_of_def LOGGER_NUM_MECHANISMS_def all_mechanisms_def)

lemma set_all_mechanisms [simp]: "m \<in> set all_mechanisms"
  by (cases m) (simp_all add: all_mechanisms_def)

instantiation log_mechanism_type :: linorder
begin

definition less_eq_log_mechanism_type :: "log_mechanism_type \<Rightarrow> log_mechanism_type \<Rightarrow> bool" where
  "less_eq_log_mechanism_type a b \<longleftrightarrow> mech_id a \<le> mech_id b"

definition less_log_mechanism_type :: "log_mechanism_type \<Rightarrow> log_mechanism_type \<Rightarrow> bool" where
  "less_log_mechanism_type a b \<longleftrightarrow> mech_id a < mech_id b"

instance
  by standard (auto simp: less_eq_log_mechanism_type_def less_log_mechanism_type_def)

end

definition mechanism_names :: "string list" where
  "mechanism_names = [''null'', ''stderr'', ''stdout'', ''file'', ''console'', ''syslog'', ''script'']"

section \<open>Priorities\<close>

definition LOG_EMERG :: int where "LOG_EMERG = 0"
definition LOG_NOTICE :: int where "LOG_NOTICE = 5"
definition LOG_INFO :: int where "LOG_INFO = 6"
definition LOG_DEBUG :: int where "LOG_DEBUG = 7"
definition LOG_NONE :: int where "LOG_NONE = - 1"
definition MAX_BUF_SIZE :: nat where "MAX_BUF_SIZE = 1024 * 100"

definition c_empty :: "string option \<Rightarrow> bool" where
  "c_empty s \<longleftrightarrow> (case s of None \<Rightarrow> True | Some t \<Rightarrow> c_str t = [])"

fun name_value :: "(string \<times> int) list \<Rightarrow> string \<Rightarrow> int option" where
  "name_value [] n = None"
| "name_value ((k, v) # names) n = (if same_name k n then Some v else name_value names n)"

definition get_log_priority :: "(string \<times> int) list \<Rightarrow> string option \<Rightarrow> int" where
  "get_log_priority names priority_name =
     (if c_empty priority_name then LOG_INFO
      else (case name_value names (the priority_name) of Some v \<Rightarrow> v | None \<Rightarrow> LOG_INFO))"

fun value_name :: "(string \<times> int) list \<Rightarrow> int \<Rightarrow> string option" where
  "value_name [] p = None"
| "value_name ((k, v) # names) p = (if v = p then Some k else value_name names p)"

definition kLogPriorityNone :: string where "kLogPriorityNone = ''none''"

definition get_log_priority_name :: "(string \<times> int) list \<Rightarrow> int \<Rightarrow> string" where
  "get_log_priority_name names priority = (case value_name names priority of Some k \<Rightarrow> k | None \<Rightarrow> kLogPriorityNone)"

fun find_mechanism :: "log_mechanism_type list \<Rightarrow> string \<Rightarrow> log_mechanism_type option" where
  "find_mechanism [] n = None"
| "find_mechanism (m # ms) n = (if same_name (mechanism_names ! mech_id m) n then Some m else find_mechanism ms n)"

definition get_log_mechanism_type :: "string option \<Rightarrow> log_mechanism_type" where
  "get_log_mechanism_type mechanism_name =
     (if c_empty mechanism_name then LOG_TO_STDERR
      else (case find_mechanism all_mechanisms (the mechanism_name) of Some m \<Rightarrow> m | None \<Rightarrow> LOG_TO_STDERR))"

text \<open>The table is read without a check.\<close>

definition get_log_mechanism_name :: "int \<Rightarrow> string option" where
  "get_log_mechanism_name i = map_option (\<lambda>m. mechanism_names ! mech_id m) (mech_of i)"

definition lc :: "string \<Rightarrow> string" where
  "lc p = zfill (length (c_str p) + 1) (sn_print (length (c_str p) + 1) (map (\<lambda>c. [tolower c]) (c_str p)))"

section \<open>The object\<close>

record logger =
  lg_initialized :: bool
  proc_name :: string
  log_file_path :: string
  lg_script :: string
  mechanisms :: "log_mechanism_type \<Rightarrow> int"
  errors_fatal :: bool

definition Logger :: logger where
  "Logger = \<lparr>lg_initialized = False, proc_name = [], log_file_path = [], lg_script = [],
     mechanisms = (\<lambda>_. - 1)(LOG_TO_STDERR := LOG_NOTICE), errors_fatal = False\<rparr>"

definition mechanism_priority :: "int \<Rightarrow> logger \<Rightarrow> int" where
  "mechanism_priority i lg = (case mech_of i of Some m \<Rightarrow> mechanisms lg m | None \<Rightarrow> mechanisms lg LOG_TO_NULL)"

text \<open>
  print: the pieces are written at tmp_buf.size(), the end of the buffer, with a count of
  \<^verbatim>\<open>MAX_BUF_SIZE - tmp_buf.size()\<close>, which is 0.
\<close>

definition snprintf_at :: "string \<Rightarrow> nat \<Rightarrow> nat \<Rightarrow> string \<Rightarrow> string" where
  "snprintf_at buf off cap s =
     (if cap = 0 then buf
      else (let t = take (cap - 1) s @ [NUL] in take off buf @ t @ drop (off + length t) buf))"

definition log_print :: "logger \<Rightarrow> string" where
  "log_print lg = foldl (\<lambda>buf m. snprintf_at buf (length buf) (MAX_BUF_SIZE - length buf)
       ('':'' @ show_nat (mech_id m) @ '':'' @ show_int (mechanisms lg m)))
     (snprintf_at (replicate MAX_BUF_SIZE NUL) 0 MAX_BUF_SIZE (c_str (proc_name lg))) all_mechanisms"

definition set_proc_name :: "string \<Rightarrow> logger \<Rightarrow> logger" where
  "set_proc_name n lg = lg\<lparr>proc_name := c_str n\<rparr>"

definition set_errors_fatal :: "logger \<Rightarrow> logger" where "set_errors_fatal lg = lg\<lparr>errors_fatal := True\<rparr>"
definition set_initialized :: "logger \<Rightarrow> logger" where "set_initialized lg = lg\<lparr>lg_initialized := True\<rparr>"

definition set_level :: "log_mechanism_type \<Rightarrow> int \<Rightarrow> logger \<Rightarrow> logger" where
  "set_level m p lg = lg\<lparr>mechanisms := (mechanisms lg)(m := p)\<rparr>"

definition set_mechanism_priority :: "int \<Rightarrow> int \<Rightarrow> logger \<Rightarrow> logger" where
  "set_mechanism_priority i priority lg = (case mech_of i of
      Some m \<Rightarrow> set_level m (if 0 \<le> priority \<and> priority \<le> LOG_DEBUG then priority else LOG_NONE) lg
    | None \<Rightarrow> lg)"

definition clear_mechanism :: "int \<Rightarrow> logger \<Rightarrow> logger" where
  "clear_mechanism i lg = (case mech_of i of Some m \<Rightarrow> set_level m LOG_NONE lg | None \<Rightarrow> lg)"

definition DecrementMechanismPriority :: "logger \<Rightarrow> logger" where
  "DecrementMechanismPriority lg =
     foldl (\<lambda>lg m. if mechanisms lg m \<ge> 0 then set_level m (mechanisms lg m - 1) lg else lg) lg (tl all_mechanisms)"

definition IncrementMechanismPriority :: "logger \<Rightarrow> logger" where
  "IncrementMechanismPriority lg =
     foldl (\<lambda>lg m. if mechanisms lg m \<ge> 0 then set_level m (mechanisms lg m + 1) lg else lg) lg (tl all_mechanisms)"

text \<open>
  The command line: mechanism, an argument after an equals sign, a priority after a colon. None where
  errx(3) ends the process. split_at is what strchr and the NUL written over the byte do.
\<close>

definition split_at :: "char \<Rightarrow> string \<Rightarrow> string \<times> string option" where
  "split_at c s = (case dropWhile (\<lambda>x. x \<noteq> c) s of [] \<Rightarrow> (s, None) | _ # r \<Rightarrow> (takeWhile (\<lambda>x. x \<noteq> c) s, Some r))"

definition set_mechanism_optarg :: "(string \<times> int) list \<Rightarrow> string \<Rightarrow> logger \<Rightarrow> logger option" where
  "set_mechanism_optarg names optarg lg =
     (if CHR '','' \<in> set (c_str optarg) then None
      else (let (mechanism, prio) = split_at CHR '':'' (c_str optarg);
                (name, arg) = split_at CHR ''='' mechanism;
                m = get_log_mechanism_type (Some name);
                lg1 = (case arg of
                    None \<Rightarrow> lg
                  | Some a \<Rightarrow> if m = LOG_TO_SCRIPT then lg\<lparr>lg_script := a\<rparr>
                              else if m = LOG_TO_FILE then lg\<lparr>log_file_path := a\<rparr> else lg)
            in Some (case prio of
                Some p \<Rightarrow> set_mechanism_priority (int (mech_id m)) (get_log_priority names (Some p)) lg1
              | None \<Rightarrow> if mechanism_priority (int (mech_id m)) lg1 < 0
                        then set_mechanism_priority (int (mech_id m)) LOG_INFO lg1 else lg1)))"

text \<open>InitLogFile: the last bytes of an empty sandbox or subdir are read before their start.\<close>

definition InitLogFile :: "string \<Rightarrow> string \<Rightarrow> string \<Rightarrow> string option \<Rightarrow> logger \<Rightarrow> logger option" where
  "InitLogFile sandbox subdir name ext lg =
     (let s = c_str sandbox; d = c_str subdir; n = c_str name; slash = CHR ''/'';
          filename = (if c_empty ext then n
                      else if hd (the ext) = CHR ''.'' then n @ c_str (the ext) else n @ ''.'' @ c_str (the ext))
      in if s = [] \<or> d = [] then None
         else Some (lg\<lparr>log_file_path := s @ (if last s \<noteq> slash \<and> hd d \<noteq> slash then [slash] else []) @ d
           @ (if last d \<noteq> slash \<and> (n = [] \<or> hd n \<noteq> slash) then [slash] else []) @ filename\<rparr>))"

section \<open>Logging\<close>

text \<open>
  The line: the prefix, the text of the format when there is one, and a line feed, in a buffer. stamp
  is the text of asctime(3), cut at its line feed; without one the source writes through NULL.
\<close>

definition log_line :: "(string \<times> int) list \<Rightarrow> int \<Rightarrow> string \<Rightarrow> string option \<Rightarrow> logger \<Rightarrow> string" where
  "log_line names priority stamp msg lg = sn_print MAX_BUF_SIZE
     [c_str (get_log_priority_name names priority) @ '': '' @ c_str (proc_name lg) @ '': ''
        @ takeWhile (\<lambda>c. c \<noteq> LF) (c_str stamp) @ '': '',
      (case msg of None \<Rightarrow> [] | Some t \<Rightarrow> c_str t), [LF]]"

text \<open>
  What syslog(3) makes of the line, which it gets as its format: two percent signs stand for one, and
  \<^verbatim>\<open>%m\<close> for the text of errno. Any other directive would read the one argument there is, NULL,
  and has no value here.
\<close>

fun syslog_text :: "string \<Rightarrow> string \<Rightarrow> string option" where
  "syslog_text errno_text [] = Some []"
| "syslog_text errno_text [c] = (if c = CHR ''%'' then None else Some [c])"
| "syslog_text errno_text (c # d # s) =
     (if c \<noteq> CHR ''%'' then map_option (Cons c) (syslog_text errno_text (d # s))
      else if d = CHR ''%'' then map_option (Cons d) (syslog_text errno_text s)
      else if d = CHR ''m'' then map_option (append errno_text) (syslog_text errno_text s)
      else None)"

definition text_received :: "string \<Rightarrow> string \<Rightarrow> log_mechanism_type \<Rightarrow> string option" where
  "text_received errno_text line m = (if m = LOG_TO_SYSLOG then syslog_text errno_text line else Some line)"

text \<open>Only the log file and the console are opened, and the process ends when that fails.\<close>

definition opens :: "bool \<Rightarrow> bool \<Rightarrow> log_mechanism_type \<Rightarrow> bool" where
  "opens file_ok console_ok m \<longleftrightarrow> (m = LOG_TO_FILE \<longrightarrow> file_ok) \<and> (m = LOG_TO_CONSOLE \<longrightarrow> console_ok)"

text \<open>
  What a call does: the texts that came out at the mechanisms, in order, and whether the process ended
  because a file could not be opened.
\<close>

datatype log_end = Log_done | Log_exit

fun deliver :: "string \<Rightarrow> string \<Rightarrow> bool \<Rightarrow> bool \<Rightarrow> log_mechanism_type list
    \<Rightarrow> ((log_mechanism_type \<times> string) list \<times> log_end) option" where
  "deliver errno_text line file_ok console_ok [] = Some ([], Log_done)"
| "deliver errno_text line file_ok console_ok (m # ms) =
     (if \<not> opens file_ok console_ok m then Some ([], Log_exit)
      else if m = LOG_TO_SCRIPT then deliver errno_text line file_ok console_ok ms
      else Option.bind (text_received errno_text line m) (\<lambda>t.
        map_option (\<lambda>(out, e). ((m, t) # out, e)) (deliver errno_text line file_ok console_ok ms)))"

definition admits :: "int \<Rightarrow> logger \<Rightarrow> log_mechanism_type \<Rightarrow> bool" where
  "admits priority lg m \<longleftrightarrow> mechanism_priority (int (mech_id m)) lg \<ge> priority"

definition Log :: "(string \<times> int) list \<Rightarrow> string \<Rightarrow> string \<Rightarrow> bool \<Rightarrow> bool \<Rightarrow> int \<Rightarrow> string option \<Rightarrow> logger
    \<Rightarrow> ((log_mechanism_type \<times> string) list \<times> log_end) option" where
  "Log names errno_text stamp file_ok console_ok priority msg lg =
     (let ms = filter (admits priority lg) (tl all_mechanisms)
      in if ms = [] then Some ([], Log_done)
         else if LF \<notin> set (c_str stamp) then None
         else deliver errno_text (log_line names priority stamp msg lg) file_ok console_ok ms)"

section \<open>Who gets a line\<close>

lemma admits_eq [simp]: "admits p lg m \<longleftrightarrow> p \<le> mechanisms lg m"
  by (simp add: admits_def mechanism_priority_def)

lemma syslog_text_plain: "CHR ''%'' \<notin> set line \<Longrightarrow> syslog_text errno_text line = Some line"
  by (induction errno_text line rule: syslog_text.induct) auto

lemma deliver_eq:
  assumes "LOG_TO_SYSLOG \<in> set ms \<longrightarrow> syslog_text errno_text line \<noteq> None"
  shows "deliver errno_text line file_ok console_ok ms
    = Some (map (\<lambda>m. (m, the (text_received errno_text line m))) (takeWhile (opens file_ok console_ok) (filter (\<lambda>m. m \<noteq> LOG_TO_SCRIPT) ms)),
        if list_all (opens file_ok console_ok) (filter (\<lambda>m. m \<noteq> LOG_TO_SCRIPT) ms) then Log_done else Log_exit)"
  using assms
proof (induction ms)
  case (Cons m ms)
  have "opens file_ok console_ok LOG_TO_SCRIPT" by (simp add: opens_def)
  moreover have "text_received errno_text line m \<noteq> None" using Cons.prems by (auto simp: text_received_def)
  ultimately show ?case using Cons by auto
qed simp

lemma all_mechanisms_sorted: "sorted_wrt (<) all_mechanisms"
  by (simp add: all_mechanisms_def less_log_mechanism_type_def)

lemma set_tl_mechanisms: "set (tl all_mechanisms) = {m. m \<noteq> LOG_TO_NULL}"
  by (auto simp: all_mechanisms_def) (metis log_mechanism_type.exhaust)

text \<open>
  C29. A message reaches exactly the mechanisms that admit it. When the text of the time has its line feed
  and, if syslog admits the message, the line has no directives but \<^verbatim>\<open>%%\<close> and \<^verbatim>\<open>%m\<close>, the line
  goes to every mechanism but null and script whose priority is at least the message's, each once and in
  the order of the enumeration, up to the first of the log file and the console that cannot be opened,
  where the process ends. All get the same line, syslog after expansion of the directives in it; it ends
  with a line feed when it fits the buffer.
\<close>

theorem log_reaches_enabled:
  assumes "LF \<in> set (c_str stamp)" "line = log_line names p stamp msg lg"
    "p \<le> mechanisms lg LOG_TO_SYSLOG \<longrightarrow> syslog_text errno_text line \<noteq> None"
  shows "(\<exists>ms. set ms = {m. m \<noteq> LOG_TO_NULL \<and> m \<noteq> LOG_TO_SCRIPT \<and> p \<le> mechanisms lg m} \<and> sorted ms \<and> distinct ms
       \<and> Log names errno_text stamp file_ok console_ok p msg lg
         = Some (map (\<lambda>m. (m, the (text_received errno_text line m))) (takeWhile (opens file_ok console_ok) ms),
             if list_all (opens file_ok console_ok) ms then Log_done else Log_exit))
    \<and> (\<forall>m. m \<noteq> LOG_TO_SYSLOG \<or> CHR ''%'' \<notin> set line \<longrightarrow> text_received errno_text line m = Some line)
    \<and> (length line < MAX_BUF_SIZE - 1 \<longrightarrow> last line = LF)"
proof -
  let ?ms = "filter (admits p lg) (tl all_mechanisms)" and ?ns = "\<lambda>ms. filter (\<lambda>m. m \<noteq> LOG_TO_SCRIPT) ms"
  have s: "sorted_wrt (<) ?ms" using all_mechanisms_sorted by (simp add: all_mechanisms_def sorted_wrt_filter)
  then have "sorted_wrt (<) (?ns ?ms)" by (rule sorted_wrt_filter)
  then have sd: "sorted (?ns ?ms)" "distinct (?ns ?ms)" by (simp_all only: strict_sorted_iff)
  have m: "set (?ns ?ms) = {m. m \<noteq> LOG_TO_NULL \<and> m \<noteq> LOG_TO_SCRIPT \<and> p \<le> mechanisms lg m}"
    "LOG_TO_SYSLOG \<in> set ?ms \<longrightarrow> syslog_text errno_text line \<noteq> None"
    using assms(3) by (auto simp: set_tl_mechanisms)
  have l: "Log names errno_text stamp file_ok console_ok p msg lg = deliver errno_text line file_ok console_ok ?ms"
    using assms(1,2) by (simp add: Log_def Let_def)
  have "\<forall>m. m \<noteq> LOG_TO_SYSLOG \<or> CHR ''%'' \<notin> set line \<longrightarrow> text_received errno_text line m = Some line"
    by (simp add: text_received_def syslog_text_plain)
  moreover have "last line = LF" if "length line < MAX_BUF_SIZE - 1"
  proof -
    define t where "t = concat [c_str (get_log_priority_name names p) @ '': '' @ c_str (proc_name lg) @ '': ''
        @ takeWhile (\<lambda>c. c \<noteq> LF) (c_str stamp) @ '': '', (case msg of None \<Rightarrow> [] | Some t \<Rightarrow> c_str t)]"
    have "line = take (MAX_BUF_SIZE - 1) (t @ [LF])"
      by (simp add: assms(2) log_line_def sn_print_concat t_def)
    then show ?thesis using that by (auto simp: min_def split: if_splits)
  qed
  ultimately show ?thesis using sd m(1) deliver_eq[OF m(2)] unfolding l by blast
qed

definition sample_names :: "(string \<times> int) list" where
  "sample_names = [(''alert'', 1), (''crit'', 2), (''debug'', 7), (''emerg'', 0), (''err'', 3), (''info'', 6), (''none'', 16),
     (''notice'', 5), (''warning'', 4)]"

text \<open>The mechanisms that a sorted list of a given set holds.\<close>

lemma mechanisms_of_set:
  "set ms = set ns \<Longrightarrow> sorted ms \<Longrightarrow> distinct ms \<Longrightarrow> sorted_wrt (<) ns \<Longrightarrow> ms = ns"
  for ms ns :: "log_mechanism_type list"
  by (intro sorted_distinct_set_unique) (simp_all add: strict_sorted_iff)

text \<open>Two percent signs are one for syslog, and a log file that does not open ends the process.\<close>

theorem log_reaches_enabled_witness:
  "Log sample_names [] (''Mon'' @ [LF]) True True 3 (Some ''100%%'') (set_mechanism_priority 5 6 Logger)
     = Some ([(LOG_TO_STDERR, ''err: : Mon: 100%%'' @ [LF]), (LOG_TO_SYSLOG, ''err: : Mon: 100%'' @ [LF])], Log_done)
   \<and> Log sample_names [] (''Mon'' @ [LF]) False True 3 (Some ''100%%'') (set_mechanism_priority 3 6 Logger)
     = Some ([(LOG_TO_STDERR, ''err: : Mon: 100%%'' @ [LF])], Log_exit)"
proof -
  let ?a = "set_mechanism_priority 5 6 Logger" and ?b = "set_mechanism_priority 3 6 Logger" and ?t = "''Mon'' @ [LF]"
  let ?line = "''err: : Mon: 100%%'' @ [LF]" and ?m = "Some ''100%%''"
  have lf: "LF \<in> set (c_str ?t)" by (simp add: c_str_def)
  have lv: "mechanisms ?a = (\<lambda>_. - 1)(LOG_TO_STDERR := 5, LOG_TO_SYSLOG := 6)" "mechanisms ?b = (\<lambda>_. - 1)(LOG_TO_STDERR := 5, LOG_TO_FILE := 6)"
      "proc_name ?a = []" "proc_name ?b = []"
    by (simp_all add: set_mechanism_priority_def mech_of_def LOGGER_NUM_MECHANISMS_def all_mechanisms_def set_level_def
        LOG_DEBUG_def Logger_def LOG_NOTICE_def numeral_3_eq_3 numeral_eq_Suc)
  have line: "?line = log_line sample_names 3 ?t ?m ?a" "?line = log_line sample_names 3 ?t ?m ?b"
    by (simp_all add: log_line_def sn_print_concat MAX_BUF_SIZE_def lv c_str_def get_log_priority_name_def sample_names_def)
  have sy: "syslog_text [] ?line = Some (''err: : Mon: 100%'' @ [LF])" by simp
  have "3 \<le> mechanisms ?a LOG_TO_SYSLOG \<longrightarrow> syslog_text [] ?line \<noteq> None" using sy by simp
  from log_reaches_enabled[OF lf line(1) this, of True True] obtain ms where a:
    "set ms = {m. m \<noteq> LOG_TO_NULL \<and> m \<noteq> LOG_TO_SCRIPT \<and> 3 \<le> mechanisms ?a m}" "sorted ms" "distinct ms"
    "Log sample_names [] ?t True True 3 ?m ?a = Some (map (\<lambda>m. (m, the (text_received [] ?line m))) (takeWhile (opens True True) ms),
       if list_all (opens True True) ms then Log_done else Log_exit)" by blast
  have "set ms = set [LOG_TO_STDERR, LOG_TO_SYSLOG]" using a(1) by (auto simp: lv(1) split: if_splits)
  then have ms: "ms = [LOG_TO_STDERR, LOG_TO_SYSLOG]"
    by (rule mechanisms_of_set) (use a(2,3) in \<open>simp_all add: less_log_mechanism_type_def\<close>)
  have "3 \<le> mechanisms ?b LOG_TO_SYSLOG \<longrightarrow> syslog_text [] ?line \<noteq> None" using sy by simp
  from log_reaches_enabled[OF lf line(2) this, of False True] obtain ns where b:
    "set ns = {m. m \<noteq> LOG_TO_NULL \<and> m \<noteq> LOG_TO_SCRIPT \<and> 3 \<le> mechanisms ?b m}" "sorted ns" "distinct ns"
    "Log sample_names [] ?t False True 3 ?m ?b = Some (map (\<lambda>m. (m, the (text_received [] ?line m))) (takeWhile (opens False True) ns),
       if list_all (opens False True) ns then Log_done else Log_exit)" by blast
  have "set ns = set [LOG_TO_STDERR, LOG_TO_FILE]" using b(1) by (auto simp: lv(2) split: if_splits)
  then have ns: "ns = [LOG_TO_STDERR, LOG_TO_FILE]"
    by (rule mechanisms_of_set) (use b(2,3) in \<open>simp_all add: less_log_mechanism_type_def\<close>)
  show ?thesis unfolding a(4) b(4) ms ns by (simp add: opens_def text_received_def)
qed

section \<open>Verbosity\<close>

lemma foldl_levels:
  assumes "distinct ms"
  shows "foldl (\<lambda>lg m. if mechanisms lg m \<ge> 0 then set_level m (mechanisms lg m + d) lg else lg) lg ms
    = lg\<lparr>mechanisms := (\<lambda>m. if m \<in> set ms \<and> mechanisms lg m \<ge> 0 then mechanisms lg m + d else mechanisms lg m)\<rparr>"
  using assms
proof (induction ms arbitrary: lg)
  case (Cons m ms)
  then show ?case by (auto simp: set_level_def fun_eq_iff intro!: logger.equality)
qed simp

lemma verbosity_levels:
  "IncrementMechanismPriority lg
     = lg\<lparr>mechanisms := (\<lambda>m. if m \<noteq> LOG_TO_NULL \<and> mechanisms lg m \<ge> 0 then mechanisms lg m + 1 else mechanisms lg m)\<rparr>"
  "DecrementMechanismPriority lg
     = lg\<lparr>mechanisms := (\<lambda>m. if m \<noteq> LOG_TO_NULL \<and> mechanisms lg m \<ge> 0 then mechanisms lg m - 1 else mechanisms lg m)\<rparr>"
proof -
  have d: "distinct (tl all_mechanisms)" by (simp add: all_mechanisms_def)
  show "IncrementMechanismPriority lg
     = lg\<lparr>mechanisms := (\<lambda>m. if m \<noteq> LOG_TO_NULL \<and> mechanisms lg m \<ge> 0 then mechanisms lg m + 1 else mechanisms lg m)\<rparr>"
    using foldl_levels[OF d, of 1 lg] by (simp add: IncrementMechanismPriority_def set_tl_mechanisms)
  show "DecrementMechanismPriority lg
     = lg\<lparr>mechanisms := (\<lambda>m. if m \<noteq> LOG_TO_NULL \<and> mechanisms lg m \<ge> 0 then mechanisms lg m - 1 else mechanisms lg m)\<rparr>"
    using foldl_levels[OF d, of "-1" lg] unfolding add_uminus_conv_diff
    by (simp add: DecrementMechanismPriority_def set_tl_mechanisms)
qed

text \<open>
  One step up and one down is the identity, the other way round is not: IncrementMechanismPriority
  followed by DecrementMechanismPriority gives the logger back, but the decrement takes a mechanism at
  the highest urgency (0) to -1, which the increment does not touch, so it stays off.
\<close>

theorem verbosity_up_and_down:
  "DecrementMechanismPriority (IncrementMechanismPriority lg) = lg
   \<and> IncrementMechanismPriority (DecrementMechanismPriority lg)
     = lg\<lparr>mechanisms := (\<lambda>m. if m \<noteq> LOG_TO_NULL \<and> mechanisms lg m = LOG_EMERG then LOG_NONE else mechanisms lg m)\<rparr>"
  by (auto simp: verbosity_levels LOG_EMERG_def LOG_NONE_def fun_eq_iff intro!: logger.equality)

section \<open>The command line\<close>

lemma split_at_eq: "c \<notin> set a \<Longrightarrow> split_at c (a @ c # b) = (a, Some b)" "c \<notin> set a \<Longrightarrow> split_at c a = (a, None)"
proof -
  show "c \<notin> set a \<Longrightarrow> split_at c (a @ c # b) = (a, Some b)"
    by (induction a) (simp_all add: split_at_def split: list.splits)
  show "split_at c a = (a, None)" if "c \<notin> set a"
  proof -
    have "dropWhile (\<lambda>x. x \<noteq> c) a = []" using that by auto
    then show ?thesis by (simp only: split_at_def list.case)
  qed
qed

text \<open>
  The command line sets what it names: "file=" with a path and, after a colon, a name of the system's
  table sets the path of the log file and the level of the file mechanism, and nothing else; a level
  outside 0 to 7, as the table has for "none", turns the mechanism off.
\<close>

theorem optarg_sets_file:
  assumes "list_all (\<lambda>c. c \<notin> {NUL, CHR '','', CHR '':''}) pth" "name_value names n = Some v" "n \<noteq> []"
    "list_all (\<lambda>c. c \<notin> {NUL, CHR '',''}) n"
  shows "set_mechanism_optarg names (''file='' @ pth @ '':'' @ n) lg
    = Some (lg\<lparr>log_file_path := pth,
        mechanisms := (mechanisms lg)(LOG_TO_FILE := (if 0 \<le> v \<and> v \<le> LOG_DEBUG then v else LOG_NONE))\<rparr>)"
proof -
  have p: "no_nul pth" "CHR '','' \<notin> set pth" "CHR '':'' \<notin> set pth" "no_nul n" "CHR '','' \<notin> set n"
    using assms(1,4) by (auto simp: list_all_iff)
  then have c: "c_str (''file='' @ pth @ '':'' @ n) = (''file='' @ pth) @ CHR '':'' # n"
    by (simp add: c_str_append_no_nul c_str_Cons)
  have m: "get_log_mechanism_type (Some ''file'') = LOG_TO_FILE"
    by (simp add: get_log_mechanism_type_def c_empty_def all_mechanisms_def mechanism_names_def same_name_iff c_str_def
      tolower_def char_of_def bit_0)
  have "split_at CHR '':'' ((''file='' @ pth) @ CHR '':'' # n) = (''file='' @ pth, Some n)"
    using p(3) by (intro split_at_eq) simp
  moreover have "split_at CHR ''='' (''file='' @ pth) = (''file'', Some pth)"
    using split_at_eq(1)[of "CHR ''=''" "''file''" pth] by simp
  moreover have "CHR '','' \<notin> set (c_str (''file='' @ pth @ '':'' @ n))"
    unfolding c using p(2,5) by simp
  moreover have "get_log_priority names (Some n) = v"
    using assms(2,3) p(4) by (simp add: get_log_priority_def c_empty_def)
  ultimately show ?thesis unfolding set_mechanism_optarg_def c
    using mech_of_id[of LOG_TO_FILE] by (simp add: m set_mechanism_priority_def set_level_def Let_def)
qed

theorem optarg_sets_file_witness:
  "set_mechanism_optarg sample_names ''file=/tmp/log:warning'' Logger
     = Some (Logger\<lparr>log_file_path := ''/tmp/log'', mechanisms := (mechanisms Logger)(LOG_TO_FILE := 4)\<rparr>)"
proof -
  have "name_value sample_names ''warning'' = Some 4" by (simp add: sample_names_def same_name_iff tolower_def char_of_def bit_0)
  from optarg_sets_file[of "''/tmp/log''", OF _ this, of Logger] show ?thesis by (simp add: LOG_DEBUG_def)
qed

end
