(* ===== verification/Mime_Framing.thy ===== *)
theory Mime_Framing
  imports Http_Header
begin

text \<open>
  The multipart framing of MIMEFraming.h and MIMEFraming.cc: message headers, and by number the headers
  and the data of the parts. The class has a constructor and a printer; the operations that would add
  parts are declared but not defined in the source. The maps are lists in the order of their keys.
\<close>

definition MIMEFRAMING_MAX_HDR_SIZE :: nat where "MIMEFRAMING_MAX_HDR_SIZE = 1024"
definition MIMEFRAMING_MAX_MULTIPART_SIZE :: nat where "MIMEFRAMING_MAX_MULTIPART_SIZE = 1024 * 8"
definition MIME_SCRATCH_BUF_SIZE :: nat where
  "MIME_SCRATCH_BUF_SIZE = MIMEFRAMING_MAX_HDR_SIZE + MIMEFRAMING_MAX_MULTIPART_SIZE"

definition kNonMIMECompliantClientMsg :: string where
  "kNonMIMECompliantClientMsg = ''This is a message with multiple parts in MIME format.''"
definition kMIMEBoundary :: string where "kMIMEBoundary = ''MIME_Boundary''"

record mime =
  mime_hdrs :: "rfc822_msg_hdr list"
  multipart_hdrs :: "(int \<times> rfc822_msg_hdr list) list"
  multipart_data :: "(int \<times> string) list"

definition MIMEFraming :: mime where
  "MIMEFraming = \<lparr>mime_hdrs = [\<lparr>field_name = ''MIME-Version'', field_value = zfill 16 (show_int 1 @ ''.'' @ show_int 0),
     parameters = []\<rparr>], multipart_hdrs = [], multipart_data = []\<rparr>"

definition boundary_line :: string where "boundary_line = ''--'' @ kMIMEBoundary @ CRLF"
definition closing_line :: string where "closing_line = ''--'' @ kMIMEBoundary @ ''--'' @ CRLF"

text \<open>
  The parts as they are printed, and whether all of them had data: a part without data ends the
  printing. A boundary precedes each part, and another one follows it, the closing one after the last.
\<close>

fun print_parts :: "(int \<times> string) list \<Rightarrow> (int \<times> rfc822_msg_hdr list) list \<Rightarrow> string list \<times> bool" where
  "print_parts data [] = ([], True)"
| "print_parts data ((k, hs) # ps) =
     (let start = boundary_line # concat (map print_one_hdr hs)
      in case map_of data k of
           None \<Rightarrow> (start, False)
         | Some d \<Rightarrow>
             (let (rest, complete) = print_parts data ps
              in (start @ [CRLF @ c_str d @ CRLF, if ps \<noteq> [] then boundary_line else closing_line] @ rest, complete)))"

definition mime_preamble :: "mime \<Rightarrow> string list" where
  "mime_preamble m = concat (map print_one_hdr (mime_hdrs m)) @ [CRLF @ kNonMIMECompliantClientMsg @ CRLF]"

definition mime_print_hdr :: "int \<Rightarrow> mime \<Rightarrow> string" where
  "mime_print_hdr offset m =
     (let (parts, complete) = print_parts (multipart_data m) (multipart_hdrs m);
          tmp_str = zfill MIME_SCRATCH_BUF_SIZE (sn_print MIME_SCRATCH_BUF_SIZE (mime_preamble m @ parts))
      in if complete \<and> to_size_t offset \<le> length tmp_str then drop (to_size_t offset) tmp_str else tmp_str)"

section \<open>The format of RFC 2046\<close>

text \<open>A part with its data, and a multipart body: one delimiter before each part, one closing delimiter.\<close>

definition part_text :: "rfc822_msg_hdr list \<times> string \<Rightarrow> string" where
  "part_text p = concat (concat (map print_one_hdr (fst p))) @ CRLF @ c_str (snd p) @ CRLF"

definition rfc2046_body :: "(rfc822_msg_hdr list \<times> string) list \<Rightarrow> string" where
  "rfc2046_body ps = concat (map (\<lambda>p. boundary_line @ part_text p) ps) @ closing_line"

text \<open>What the source prints for parts that all have their data.\<close>

fun printed_body :: "(rfc822_msg_hdr list \<times> string) list \<Rightarrow> string" where
  "printed_body [] = []"
| "printed_body [p] = boundary_line @ part_text p @ closing_line"
| "printed_body (p # q # ps) = boundary_line @ part_text p @ boundary_line @ printed_body (q # ps)"

lemma print_parts_complete:
  assumes "\<forall>(k, h, d)\<in>set ps. map_of data k = Some d"
  shows "snd (print_parts data (map (\<lambda>(k, h, d). (k, h)) ps)) \<and>
    concat (fst (print_parts data (map (\<lambda>(k, h, d). (k, h)) ps))) = printed_body (map snd ps)"
  using assms
proof (induction ps)
  case (Cons p ps)
  then show ?case by (cases ps) (auto simp: part_text_def Let_def split: prod.splits)
qed simp

lemma length_printed_body:
  "ps \<noteq> [] \<Longrightarrow> length (printed_body ps) = length (rfc2046_body ps) + (length ps - 1) * length boundary_line"
  by (induction ps rule: printed_body.induct) (auto simp: rfc2046_body_def)

text \<open>
  C35. Multipart messages have one boundary too many between two parts: with data for every part and all
  of it in the buffer, print_hdr writes the headers, the preamble and the parts in order, but each part
  is followed by a boundary of its own, so the body is that of RFC 2046 exactly when there is one part,
  and longer by a boundary line for each further one.
\<close>

theorem mime_body_is_rfc2046_for_one_part:
  assumes "multipart_hdrs m = map (\<lambda>(k, h, d). (k, h)) ps" "multipart_data m = map (\<lambda>(k, h, d). (k, d)) ps"
    "distinct (map fst ps)" "ps \<noteq> []"
    "length (concat (mime_preamble m)) + length (printed_body (map snd ps)) < MIME_SCRATCH_BUF_SIZE"
  shows "\<exists>body. mime_print_hdr 0 m = zfill MIME_SCRATCH_BUF_SIZE (concat (mime_preamble m) @ body)
    \<and> length body = length (rfc2046_body (map snd ps)) + (length ps - 1) * length boundary_line
    \<and> (body = rfc2046_body (map snd ps) \<longleftrightarrow> length ps = 1)"
proof -
  have keys: "map fst (multipart_data m) = map fst ps" by (simp add: assms(2) case_prod_beta)
  have "map_of (multipart_data m) k = Some d" if "(k, h, d) \<in> set ps" for k h d
  proof (rule map_of_is_SomeI)
    show "distinct (map fst (multipart_data m))" using assms(3) by (simp only: keys)
    show "(k, d) \<in> set (multipart_data m)" using that by (force simp: assms(2))
  qed
  then have "\<forall>(k, h, d)\<in>set ps. map_of (multipart_data m) k = Some d" by auto
  from print_parts_complete[OF this] obtain parts where parts:
    "print_parts (multipart_data m) (multipart_hdrs m) = (parts, True)" "concat parts = printed_body (map snd ps)"
    by (cases "print_parts (multipart_data m) (multipart_hdrs m)") (auto simp: assms(1))
  have p: "mime_print_hdr 0 m = zfill MIME_SCRATCH_BUF_SIZE (concat (mime_preamble m) @ printed_body (map snd ps))"
    using assms(5) by (simp add: mime_print_hdr_def parts sn_print_concat to_size_t_def)
  have l: "length (printed_body (map snd ps)) = length (rfc2046_body (map snd ps)) + (length ps - 1) * length boundary_line"
    using length_printed_body[of "map snd ps"] assms(4) by simp
  have "printed_body (map snd ps) = rfc2046_body (map snd ps) \<longleftrightarrow> length ps = 1"
  proof
    assume "printed_body (map snd ps) = rfc2046_body (map snd ps)"
    then have "(length ps - 1) * length boundary_line = 0" using l by simp
    then have "length ps - 1 = 0" by (simp add: boundary_line_def)
    then show "length ps = 1" using assms(4) by (cases ps) simp_all
  next
    assume "length ps = 1"
    then obtain p where "ps = [p]" by (cases ps) auto
    then show "printed_body (map snd ps) = rfc2046_body (map snd ps)" by (simp add: rfc2046_body_def)
  qed
  with p l show ?thesis by blast
qed

theorem mime_body_is_rfc2046_for_one_part_witness:
  "\<exists>body. mime_print_hdr 0 (MIMEFraming\<lparr>multipart_hdrs := [(1, []), (2, [])], multipart_data := [(1, ''a''), (2, ''b'')]\<rparr>)
      = zfill MIME_SCRATCH_BUF_SIZE (concat (mime_preamble MIMEFraming) @ body)
    \<and> length body = length (rfc2046_body [([], ''a''), ([], ''b'')]) + 17 \<and> body \<noteq> rfc2046_body [([], ''a''), ([], ''b'')]"
proof -
  let ?m = "MIMEFraming\<lparr>multipart_hdrs := [(1, []), (2, [])], multipart_data := [(1, ''a''), (2, ''b'')]\<rparr>"
  let ?ps = "[(1 :: int, [], ''a''), (2, [], ''b'')]"
  have m: "multipart_hdrs ?m = map (\<lambda>(k, h, d). (k, h)) ?ps" "multipart_data ?m = map (\<lambda>(k, h, d). (k, d)) ?ps"
      "distinct (map fst ?ps)" "?ps \<noteq> []" "length boundary_line = 17" "mime_preamble ?m = mime_preamble MIMEFraming"
    by (simp_all add: boundary_line_def kMIMEBoundary_def mime_preamble_def)
  have "length (concat (mime_preamble ?m)) + length (printed_body (map snd ?ps)) < MIME_SCRATCH_BUF_SIZE"
    by (simp add: mime_preamble_def MIMEFraming_def print_one_hdr_def kNonMIMECompliantClientMsg_def boundary_line_def
        closing_line_def kMIMEBoundary_def part_text_def MIME_SCRATCH_BUF_SIZE_def MIMEFRAMING_MAX_HDR_SIZE_def
        MIMEFRAMING_MAX_MULTIPART_SIZE_def show_int_def show_nat.simps zfill_def c_str_def)
  from mime_body_is_rfc2046_for_one_part[OF m(1-4) this] m(5,6) show ?thesis by auto
qed

end
