(* ===== verification/Spec2Isabelle.thy ===== *)
theory Spec2Isabelle
  imports Prelude Error_Handler Base64 Url Http_Header Http_Chunked Http_Parse Http_Response
    Http_Chunked_Response Msg_Hdr Checksum Descriptor Ip_Comm Ip_Refs Tcp_Conn File_Obj File_Refs
    Ssl_Context Ssl_Conn Ssl_Refs Tcp_Session Session_Queue Session_Outgoing Session_Inv Session_Incoming
    Session_Errors Session_File Session_Delivery Session_Stream Logger_Obj Mime_Framing
begin

text \<open>
  A verification development for ip-utils, a C++ library of sockets, SSL connections and message
  sessions with HTTP or binary framing. The sources are under src/.

  THE PROGRAM. At the bottom are a global error object (ErrorHandler), to which every operation reports
  instead of returning an error, a logger, and Descriptor, a file descriptor with a reference count that
  several objects share. IPComm holds an address and a shared descriptor; TCPConn derives from it and
  adds connecting, accepting, reading and writing; SSLConn derives from TCPConn and adds an SSL object,
  set up from an SSLContext. File holds a path and a shared descriptor. On the side of the messages, URL
  and HTTPFraming hold, print and parse a URL and an HTTP header (message headers are rfc822_msg_hdr),
  and MsgHdr is either an HTTP header or the fixed binary one of BasicFraming. TCPSession derives from
  SSLConn and joins both sides: a read buffer in which Read collects bytes, InitIncomingMsg parses a
  header and ClearIncomingMsg drops the message; a write buffer and a queue of message records, which
  AddMsgBuf and AddMsgFile fill, Write sends and PopOutgoingMsgQueue empties; a mutex for each side.
  Base64 and MIMEFraming stand alone.

  THE THEORIES, with the source each models.

    Prelude           C characters and strings, strtol, snprintf, scanning; the result type run of the parsers
    Error_Handler     ErrorHandler.h/.cc: errh, error_Init, error_AppendMsg, error_clear, error_print
    Logger_Obj        Logger.h/.cc: logger, Log with deliver, the command line, names and priorities
    Base64            Base64.cc: Base64Encode, Base64Decode and their loops
    Url               URL.h/.cc: url, mutators, printers, url_InitFromBuf, CompareTuples
    Http_Header       HTTPFraming.h/.cc, RFC822MsgHdr.h: http, tables, header list, printers
    Http_Chunked      HTTPFraming::ParseChunkedMsgBody and the steps of the parsers
    Http_Parse        HTTPFraming::ParseMsgHdr, ParseRequestHdr, ParseResponseHdr, InitFromBuf
    Http_Response     the round trip of responses, and the interface hdr_codec of headers that come back
    Http_Chunked_Response
                      which responses with a chunked body ParseResponseHdr accepts
    Msg_Hdr           MsgHdr.h/.cc, BasicFraming.h: msghdr and its dispatch on the type
    Mime_Framing      MIMEFraming.h/.cc: mime and mime_print_hdr
    Descriptor        Descriptor.h/.cc: the heap of counted descriptors and the world
    Checksum          IPComm::calculate_cksum
    Ip_Comm           IPComm.h/.cc: ipcomm, flags, addresses, resolver, datagrams, options
    Ip_Refs           programs over IPComm objects that share descriptors
    File_Refs         the same for File objects, whose descriptors hold a number or a stream
    Tcp_Conn          TCPConn.h/.cc: connecting, accepting, Write, Read, ReadExhaustive, ReadLine
    File_Obj          File.h/.cc: file_obj, paths, opening, closing, renaming, copying
    Ssl_Context       SSLContext.h/.cc: sslcontext and Init as a sequence of OpenSSL calls
    Ssl_Conn          SSLConn.h/.cc: sslconn, handshakes, ssl_Read, ssl_Write, shutdown
    Ssl_Refs          programs over SSLConn objects with their SSL objects and certificates
    Tcp_Session       TCPSession.h/.cc, MsgInfo.h: session and all its operations
    Session_Queue, Session_Outgoing, Session_Inv, Session_Incoming, Session_Errors, Session_File,
    Session_Delivery, Session_Stream
                      what is proved about sessions

  An object is a record with the members of its class, and an operation a function from the object and
  the state it uses to a result and the new state. Names are those of the source, with a prefix where
  several classes have an operation of the same name (tcp_Close, file_Close) or HOL has one. Derived
  classes contain the record of their base. The error object is the field w_err of world, next to the
  heap of descriptors and the lists of the descriptors opened and closed.

  MEMORY AND RESULTS. What a pointer points to is the list of bytes up to the end of the allocation, and
  a NULL pointer None. Reading or writing outside it, using a deleted descriptor, passing NULL where a
  C string is needed and an index outside a table are undefined behaviour: None, Fault or Undefined,
  depending on the result type. A parser returns Go (true), Stop (false, with or without an error) or
  Fault. Calls that can wait return Returns, Blocks or Undefined. Widths that matter are kept: ports and
  message ids are words of 16 bits, checksums of 32, and size_t, ssize_t and int conversions are written
  out as to_size_t, to_ssize_t, to_int and size_sub. C strings in std::string buffers keep their NULs
  (zfill), since size() sees them.

  PARAMETERS. The kernel, the resolver, the allocator and OpenSSL are not under src/. Their answers are
  arguments or scripts: a read takes the next rd_event (data, end of stream, error), a write the next
  wr_event (how many bytes are taken, or an error), SSL_read and its relatives the next ssl_answer, of
  which only is used that at most the count asked for is transferred. An operation whose script has
  ended Blocks, so no loop needs fuel: the loops over scripts recurse on the script, those over buffers
  on the count of bytes left, and every function is total. A theorem that an operation returns names the
  script with which it does. In the locale buf_parser of Prelude a number bounds how often a parser is
  called; its lemma holds for every such number. Further parameters are the system's table of priority
  names, the length of a session id in OpenSSL and the text of an address (inet_ntop).

  WHAT IS SHOWN. The numbered statements are spread over the theories; in groups:

    - Well-formed data that go out come back: Base64 (also against RFC 4648), URLs, request and response headers,
      paths, body lengths; a chunked body is decoded to its chunks, and
      which responses with a chunked body are accepted is decided (Http_Chunked_Response).
    - Parsers touch no memory outside their buffer (url_parse_safe, request_parse_safe, with the rules in
      safe_intro), and what they use is bounded (request_needs_following_byte, goes_intro).
    - Sharing: for every program over IPComm objects, the count of a descriptor is exact, no deleted one
      is used, and every descriptor opened is closed once (the step relations ip_reach and file_reach); SSL objects
      and certificates are freed once (ssl_objects_freed_once). The programs are those of a careful
      caller (op_allowed, file_allowed, ssl_allowed): no object is assigned to itself, Socket is for
      objects without a descriptor, an SSL object is made before its descriptor is shared, and so on;
      self_assignment_faults, clear_leaks_descriptor and late_ssl_object_leaks show what happens else.
      The laws are proved once in the locale counted_store, a heap of counted cells that hold resources,
      and its sublocale descriptor_store turns them into what the objects promise; both are interpreted
      for connections (cells of numbers) and for files (cells of a number or a stream).
    - Transfer: Write puts a prefix of its bytes on the wire (the locale sender, interpreted for TCP and
      SSL), ReadExhaustive and ReadLine return what is there; when Connect or Accept of an SSL
      connection on a blocking socket returns without an error, the handshake is complete, and whose
      certificate the object then has is decided (handshake_completes).
    - Sessions: the write buffer with its records and files refines a queue (the locale msg_queue,
      interpreted on sessions with messages in memory and with both kinds of messages), runs of Writes
      send its head (sends), every operation releases the mutexes and keeps the buffers' sizes
      (sess_step, holds_intro; a failed calloc of InitIncomingMsg is the exception), a received header becomes the current message, and from one session to
      another, in runs in which no SSL call has to wait, the same request or response with the same body arrives, over TCP or SSL
      (request_gets_across, response_gets_across; the locale hdr_codec, interpreted on both). A message
      with a file for a body goes out from AddMsgFile on, header and chunks, when the kernel takes each
      piece (file_goes_out), and a body that comes in goes to its file in order whatever the pieces
      (body_streamed_in_order, over the runs streams).
    - Errors: the error object's invariant (the locale error_sink), and the cases in which the code does
      not do what it means to, each as a theorem about the model (Session_Errors and others).
    - Logging, contexts and MIME: who gets a line, that a context verifies as asked when Init reports no
      error, and for which messages the printed multipart body is that of RFC 2046.

  NOT MODELLED. SOAPFraming does not compile and is not built; RefCount is an older copy of Descriptor
  that is not built either, and Template an empty class. Code under "#if 0" and the debug output are
  left out, and so are calls of the logger from other classes, which change no state of theirs (the
  logger itself is modelled). Threads other than one per session are not: the mutexes are flags, and an
  operation that needs one that is held Blocks. The formatting of a printf-style call is done where it is
  made, since C's variable arguments have no counterpart; the text is what error_Init gets.
\<close>

end
